theory Spec2Isabelle
  imports Main "HOL-Library.Sublist"
begin

text \<open>
  The hook engine of unwebhook: \<open>CreateTemplates\<close> compiles the templates of a Hook when it is
  loaded; \<open>Execute\<close> filters an incoming Event, and \<open>processEvent\<close> renders the working
  directory, the environment and the commands of the Hook against the Event, resolves every
  program and runs the commands one after the other, each against the timeout of the Hook
  (\<open>runCommand\<close>). The functions are embedded as they are written; what they do to the outside
  is kept in a trace.
\<close>

section \<open>Data model\<close>

text \<open>
  Modelled from the spec: the declaration of the type \<^verbatim>\<open>Event\<close> is in a file of the repository
  that is not among the sources. The spec describes it as a mapping from string keys to
  arbitrary structured values (string, number, boolean, null, nested mapping, ordered
  sequence), decoded from JSON. The sources use it as a Go map from strings to \<^verbatim>\<open>interface{}\<close>
  (\<^verbatim>\<open>e["type"].(string)\<close>, \<^verbatim>\<open>e["commit"] = c\<close>, \<^verbatim>\<open>event["urlparams"] = params\<close>), so any Go value
  can stand under a key. The values are modelled by a datatype of the JSON shapes; numbers keep
  an integer (the filters and the dispatcher never look inside a number). \<open>GChan\<close> is a Go
  channel, the stock example of a value that \<^verbatim>\<open>json.Marshal\<close> refuses.
\<close>

datatype gvalue =
    GNil
  | GBool bool
  | GNum int
  | GStr string
  | GSeq "gvalue list"
  | GMap "(string \<times> gvalue) list"
  | GChan

type_synonym event = "string \<rightharpoonup> gvalue"

text \<open>The type assertion \<^verbatim>\<open>e[key].(string)\<close>: a missing key gives the nil interface, which is
  not a string.\<close>

fun asString :: "gvalue option \<Rightarrow> string option" where
  "asString (Some (GStr s)) = Some s"
| "asString _ = None"

text \<open>Errors the functions return, by origin, and the two run-time panics the code can reach.\<close>

datatype error =
    ParseError string
  | RenderError string
  | ExecutableError string string
  | CommandTimedOut "string list"

datatype panic = IndexOutOfRange | NilDereference

datatype 'a res = Ok 'a | Err error | Panic panic

text \<open>
  What a dispatch does to the outside is recorded in a trace, oldest action first: log lines
  (severity and the format string of the source), path look-ups, process starts (argument
  vector, \<^verbatim>\<open>cmd.Env\<close> with \<open>None\<close> for "inherit", \<^verbatim>\<open>cmd.Dir\<close>) and kills. \<open>EnterUnit\<close> marks each
  entry into \<open>processEvent\<close> with the value the Event holds under \<^verbatim>\<open>commit\<close> at that moment; it
  is an observation point of the model and has no output in the program.
\<close>

datatype severity = Info | Warning | Error

datatype action =
    Log severity string
  | EnterUnit "gvalue option"
  | LookPath string
  | Start "string list" "string list option" string
  | Kill "string list"

type_synonym world = "action list"

text \<open>
  The \<^verbatim>\<open>select\<close> of \<open>runCommand\<close> has two ends: the goroutine that waits for the child sends on
  \<^verbatim>\<open>done\<close>, or the timer fires. \<^verbatim>\<open>cmd.Wait\<close> also returns (at once) when \<^verbatim>\<open>cmd.Start\<close> had
  failed. \<open>TimerFired started\<close> says whether \<^verbatim>\<open>cmd.Process\<close> is set when the timer wins.
\<close>

datatype child = Exited int | StartFailed

datatype race = Done child | TimerFired bool

type_synonym funcmap = "string \<rightharpoonup> (gvalue \<Rightarrow> string)"

text \<open>
  Everything outside the repository is a parameter: the template library (\<open>tparse\<close> is
  \<^verbatim>\<open>template.New("tmpl").Funcs(fm).Parse(src)\<close>, \<open>texecute\<close> is \<^verbatim>\<open>t.Execute(buf, e)\<close> giving the
  bytes written and the error), \<^verbatim>\<open>os.ExpandEnv\<close>, \<^verbatim>\<open>json.Marshal\<close>, \<^verbatim>\<open>exec.LookPath\<close>, the
  operating system deciding each race (from the trace up to the start and the duration of
  the timer in nanoseconds), the verbosity flag \<^verbatim>\<open>glog.V(1)\<close>, and \<^verbatim>\<open>Event.Commits\<close>, which the repository
  defines in a file that is not among the sources.
\<close>

record 't lib =
  expandEnv :: "string \<Rightarrow> string"
  tparse :: "funcmap \<Rightarrow> string \<Rightarrow> string + 't"
  texecute :: "'t \<Rightarrow> event \<Rightarrow> string \<times> string option"
  marshal :: "gvalue \<Rightarrow> string + string"
  lookPath :: "string \<Rightarrow> string + string"
  osRace :: "world \<Rightarrow> int \<Rightarrow> race"
  commits :: "event \<Rightarrow> gvalue list option"
  verbose :: bool

text \<open>
  The Hook struct of webhook.go. A nil slice and an empty one behave alike under \<^verbatim>\<open>len\<close> and
  \<^verbatim>\<open>range\<close>, the only uses the code makes of them, so both are \<open>[]\<close>; a nil template pointer
  is \<open>None\<close>.
\<close>

record 't hook =
  Url :: string
  Dir :: string
  Env :: "string list"
  PerCommit :: bool
  AllowEvent :: "string list"
  AllowPipelineStatus :: "string list"
  AllowBranches :: "string list"
  Commands :: "string list list"
  Timeout :: int
  Secret :: string
  cmdTemplate :: "'t option list list"
  envTemplate :: "'t option list"
  dirTemplate :: "'t option"

section \<open>Template compilation\<close>

definition json_func :: "(gvalue \<Rightarrow> string + string) \<Rightarrow> gvalue \<Rightarrow> string" where
  "json_func jsonMarshal obj =
     (case jsonMarshal obj of
        Inl err \<Rightarrow> ''<< '' @ err @ '' >>''
      | Inr result \<Rightarrow> result)"

definition templateFuncs :: "(gvalue \<Rightarrow> string + string) \<Rightarrow> funcmap" where
  "templateFuncs jsonMarshal = [''json'' \<mapsto> json_func jsonMarshal]"

definition createTemplate :: "'t lib \<Rightarrow> string \<Rightarrow> string + 't" where
  "createTemplate lib source =
     tparse lib (templateFuncs (marshal lib)) (expandEnv lib source)"

text \<open>The inner loop of \<open>CreateTemplates\<close> over one command: the first failure ends it, and the
  caller then drops the whole table.\<close>

fun compileArgs :: "'t lib \<Rightarrow> string list \<Rightarrow> error + 't option list" where
  "compileArgs lib [] = Inr []"
| "compileArgs lib (cmd # rest) =
     (case createTemplate lib cmd of
        Inl err \<Rightarrow> Inl (ParseError err)
      | Inr t \<Rightarrow>
          (case compileArgs lib rest of
             Inl err \<Rightarrow> Inl err
           | Inr ts \<Rightarrow> Inr (Some t # ts)))"

fun compileCommands :: "'t lib \<Rightarrow> string list list \<Rightarrow> error + 't option list list" where
  "compileCommands lib [] = Inr []"
| "compileCommands lib (cmdList # rest) =
     (case compileArgs lib cmdList of
        Inl err \<Rightarrow> Inl err
      | Inr ts \<Rightarrow>
          (case compileCommands lib rest of
             Inl err \<Rightarrow> Inl err
           | Inr tss \<Rightarrow> Inr (ts # tss)))"

text \<open>The loop over \<open>Env\<close> writes into \<open>hook.envTemplate\<close>, allocated with nil entries. A failure
  stores the nil that \<^verbatim>\<open>Parse\<close> returns and leaves the loop by \<^verbatim>\<open>return err\<close>: the entries
  after it stay nil, the entries before it stay compiled.\<close>

fun compileEnv :: "'t lib \<Rightarrow> string list \<Rightarrow> 't option list \<times> error option" where
  "compileEnv lib [] = ([], None)"
| "compileEnv lib (env # rest) =
     (case createTemplate lib env of
        Inl err \<Rightarrow> (None # replicate (length rest) None, Some (ParseError err))
      | Inr t \<Rightarrow>
          (case compileEnv lib rest of (ts, r) \<Rightarrow> (Some t # ts, r)))"

definition compileDir :: "'t lib \<Rightarrow> 't hook \<Rightarrow> error option \<times> 't hook" where
  "compileDir lib hook =
     (if Dir hook \<noteq> '''' then
        (case createTemplate lib (Dir hook) of
           Inl err \<Rightarrow> (Some (ParseError err), hook\<lparr>dirTemplate := None\<rparr>)
         | Inr t \<Rightarrow> (None, hook\<lparr>dirTemplate := Some t\<rparr>))
      else (None, hook\<lparr>dirTemplate := None\<rparr>))"

definition CreateTemplates :: "'t lib \<Rightarrow> 't hook \<Rightarrow> error option \<times> 't hook" where
  "CreateTemplates lib hook =
     (case compileCommands lib (Commands hook) of
        Inl err \<Rightarrow> (Some err, hook\<lparr>cmdTemplate := []\<rparr>)
      | Inr cts \<Rightarrow>
          (let hook1 = hook\<lparr>cmdTemplate := cts\<rparr> in
           if length (Env hook) \<noteq> 0 then
             (case compileEnv lib (Env hook) of
                (ets, Some err) \<Rightarrow> (Some err, hook1\<lparr>envTemplate := ets\<rparr>)
              | (ets, None) \<Rightarrow> compileDir lib (hook1\<lparr>envTemplate := ets\<rparr>))
           else compileDir lib (hook1\<lparr>envTemplate := []\<rparr>)))"

section \<open>Rendering and running one unit\<close>

fun processCommand :: "'t lib \<Rightarrow> event \<Rightarrow> 't option list \<Rightarrow> string list res" where
  "processCommand lib e [] = Ok []"
| "processCommand lib e (t # ts) =
     (case t of
        None \<Rightarrow> Panic NilDereference
      | Some t' \<Rightarrow>
          (case texecute lib t' e of
             (out, Some err) \<Rightarrow> Err (RenderError err)
           | (out, None) \<Rightarrow>
               (case processCommand lib e ts of
                  Ok rest \<Rightarrow> Ok (out # rest)
                | Err x \<Rightarrow> Err x
                | Panic p \<Rightarrow> Panic p)))"

text \<open>The loop of \<open>processEvent\<close> over \<open>hook.envTemplate\<close>.\<close>

fun renderEnv :: "'t lib \<Rightarrow> event \<Rightarrow> 't option list \<Rightarrow> string list res" where
  "renderEnv lib e [] = Ok []"
| "renderEnv lib e (t # ts) =
     (case t of
        None \<Rightarrow> Panic NilDereference
      | Some t' \<Rightarrow>
          (case texecute lib t' e of
             (out, Some err) \<Rightarrow> Err (RenderError err)
           | (out, None) \<Rightarrow>
               (case renderEnv lib e ts of
                  Ok rest \<Rightarrow> Ok (out # rest)
                | Err x \<Rightarrow> Err x
                | Panic p \<Rightarrow> Panic p)))"

definition renderDir :: "'t lib \<Rightarrow> event \<Rightarrow> 't option \<Rightarrow> string res" where
  "renderDir lib e dt =
     (case dt of
        None \<Rightarrow> Ok ''''
      | Some t \<Rightarrow>
          (case texecute lib t e of
             (out, Some err) \<Rightarrow> Err (RenderError err)
           | (out, None) \<Rightarrow> Ok out))"

text \<open>The first loop over \<open>hook.cmdTemplate\<close>: render a command, index its first element,
  resolve it, store the path back; any failure returns at once.\<close>

fun prepareCommands ::
  "'t lib \<Rightarrow> event \<Rightarrow> 't option list list \<Rightarrow> world \<Rightarrow> string list list res \<times> world" where
  "prepareCommands lib e [] w = (Ok [], w)"
| "prepareCommands lib e (t # ts) w =
     (case processCommand lib e t of
        Err x \<Rightarrow> (Err x, w)
      | Panic p \<Rightarrow> (Panic p, w)
      | Ok [] \<Rightarrow> (Panic IndexOutOfRange, w)
      | Ok (name # args) \<Rightarrow>
          (case lookPath lib name of
             Inl err \<Rightarrow> (Err (ExecutableError name err), w @ [LookPath name])
           | Inr execPath \<Rightarrow>
               (case prepareCommands lib e ts (w @ [LookPath name]) of
                  (Ok rest, w') \<Rightarrow> (Ok ((execPath # args) # rest), w')
                | (Err x, w') \<Rightarrow> (Err x, w')
                | (Panic p, w') \<Rightarrow> (Panic p, w'))))"

text \<open>\<^verbatim>\<open>time.Duration(hook.Timeout) * time.Second\<close>: a signed 64-bit count of nanoseconds; the
  product wraps around.\<close>

definition timerDuration :: "'t hook \<Rightarrow> int" where
  "timerDuration hook = (Timeout hook * 1000000000 + 2 ^ 63) mod 2 ^ 64 - 2 ^ 63"

definition runCommand ::
  "'t lib \<Rightarrow> 't hook \<Rightarrow> string list \<Rightarrow> string list \<Rightarrow> string \<Rightarrow> world \<Rightarrow> unit res \<times> world" where
  "runCommand lib hook args env dir w =
     (let w1 = w @ [Log Info ''Running''] in
      case args of
        [] \<Rightarrow> (Panic IndexOutOfRange, w1)
      | name # rest \<Rightarrow>
          (let cmdEnv = (if length env \<noteq> 0 then Some env else None);
               w2 = w1 @ [Start args cmdEnv dir]
           in case osRace lib w2 (timerDuration hook) of
                Done c \<Rightarrow> (Ok (), w2)
              | TimerFired started \<Rightarrow>
                  (if started then (Err (CommandTimedOut args), w2 @ [Kill args])
                   else (Panic NilDereference, w2))))"

text \<open>The second loop of \<open>processEvent\<close>: the commands in order, stopping at the first one that
  does not return nil.\<close>

fun runCommands ::
  "'t lib \<Rightarrow> 't hook \<Rightarrow> string list list \<Rightarrow> string list \<Rightarrow> string \<Rightarrow> world \<Rightarrow> unit res \<times> world" where
  "runCommands lib hook [] env dir w = (Ok (), w)"
| "runCommands lib hook (cmd # rest) env dir w =
     (case runCommand lib hook cmd env dir w of
        (Ok u, w') \<Rightarrow> runCommands lib hook rest env dir w'
      | (Err x, w') \<Rightarrow> (Err x, w')
      | (Panic p, w') \<Rightarrow> (Panic p, w'))"

definition processEvent :: "'t lib \<Rightarrow> 't hook \<Rightarrow> event \<Rightarrow> world \<Rightarrow> unit res \<times> world" where
  "processEvent lib hook e w =
     (let w0 = w @ [EnterUnit (e ''commit'')] in
      case renderDir lib e (dirTemplate hook) of
        Err x \<Rightarrow> (Err x, w0)
      | Panic p \<Rightarrow> (Panic p, w0)
      | Ok dir \<Rightarrow>
          (case renderEnv lib e (envTemplate hook) of
             Err x \<Rightarrow> (Err x, w0)
           | Panic p \<Rightarrow> (Panic p, w0)
           | Ok env \<Rightarrow>
               (case prepareCommands lib e (cmdTemplate hook) w0 of
                  (Err x, w1) \<Rightarrow> (Err x, w1)
                | (Panic p, w1) \<Rightarrow> (Panic p, w1)
                | (Ok cmds, w1) \<Rightarrow> runCommands lib hook cmds env dir w1)))"

section \<open>The dispatcher\<close>

text \<open>The three allow-list loops of \<open>Execute\<close> have one shape: scan, set the flag and break.\<close>

fun allowedLoop :: "string list \<Rightarrow> string \<Rightarrow> bool" where
  "allowedLoop [] x = False"
| "allowedLoop (a # as) x = (if a = x then True else allowedLoop as x)"

definition stripRefsHeads :: "string \<Rightarrow> string" where
  "stripRefsHeads ref =
     (let prefixString = ''refs/heads/'' in
      if prefix prefixString ref then drop (length prefixString) ref else ref)"

definition logFailure :: "'t lib \<Rightarrow> world \<Rightarrow> world" where
  "logFailure lib w =
     (let w1 = w @ [Log Error ''Error processing %s: %s\<newline>''] in
      if verbose lib then w1 @ [Log Info ''%v''] else w1)"

text \<open>The loop over the commit list. The Event is a Go map, a reference: the assignment
  \<^verbatim>\<open>e["commit"] = c\<close> changes the map the caller passed, so the loop threads it and returns
  it. A panic ends everything.\<close>

fun commitLoop ::
  "'t lib \<Rightarrow> 't hook \<Rightarrow> gvalue list \<Rightarrow> event \<Rightarrow> world \<Rightarrow> panic option \<times> event \<times> world" where
  "commitLoop lib hook [] e w = (None, e, w)"
| "commitLoop lib hook (generic # rest) e w =
     (case generic of
        GMap c \<Rightarrow>
          (let e1 = e(''commit'' \<mapsto> GMap c) in
           case processEvent lib hook e1 w of
             (Ok u, w') \<Rightarrow> commitLoop lib hook rest e1 w'
           | (Err err, w') \<Rightarrow> commitLoop lib hook rest e1 (logFailure lib w')
           | (Panic p, w') \<Rightarrow> (Some p, e1, w'))
      | _ \<Rightarrow> commitLoop lib hook rest e (w @ [Log Error ''Commit had type %T'']))"

definition dispatch :: "'t lib \<Rightarrow> 't hook \<Rightarrow> event \<Rightarrow> world \<Rightarrow> panic option \<times> event \<times> world" where
  "dispatch lib hook e w =
     (if PerCommit hook then
        (case commits lib e of
           None \<Rightarrow> (None, e, w)
         | Some cs \<Rightarrow> commitLoop lib hook cs e w)
      else
        (case processEvent lib hook e w of
           (Ok u, w') \<Rightarrow> (None, e, w')
         | (Err err, w') \<Rightarrow> (None, e, logFailure lib w')
         | (Panic p, w') \<Rightarrow> (Some p, e, w')))"

text \<open>The three filter blocks of \<open>Execute\<close>, in the order of the source. Each gives the log
  line of its rejection, or \<open>None\<close> when the event goes on.\<close>

definition checkEventType :: "'t hook \<Rightarrow> event \<Rightarrow> action option" where
  "checkEventType hook e =
     (if length (AllowEvent hook) \<noteq> 0 then
        (case asString (e ''type'') of
           None \<Rightarrow> Some (Log Warning ''Received non-string event type %T: %v'')
         | Some eventType \<Rightarrow>
             if \<not> allowedLoop (AllowEvent hook) eventType
             then Some (Log Warning ''Hook %s got disallowed event type %s\<newline>'')
             else None)
      else None)"

definition checkPipelineStatus :: "'t hook \<Rightarrow> event \<Rightarrow> action option" where
  "checkPipelineStatus hook e =
     (if length (AllowPipelineStatus hook) \<noteq> 0 then
        (case asString (e ''status'') of
           None \<Rightarrow> Some (Log Warning ''Received non-string Pipeline Status %T: %v'')
         | Some pipelineStatus \<Rightarrow>
             if \<not> allowedLoop (AllowPipelineStatus hook) pipelineStatus
             then Some (Log Info ''Hook %s called for incorrect pipeline status %s\<newline>'')
             else None)
      else None)"

definition checkBranch :: "'t hook \<Rightarrow> event \<Rightarrow> action option" where
  "checkBranch hook e =
     (if length (AllowBranches hook) \<noteq> 0 then
        (case asString (e ''ref'') of
           None \<Rightarrow> Some (Log Warning ''Received non-string ref type %T: %v'')
         | Some ref \<Rightarrow>
             if \<not> allowedLoop (AllowBranches hook) (stripRefsHeads ref)
             then Some (Log Info ''Hook %s called for ignored branch %s\<newline>'')
             else None)
      else None)"

definition Execute :: "'t lib \<Rightarrow> 't hook \<Rightarrow> event \<Rightarrow> world \<Rightarrow> panic option \<times> event \<times> world" where
  "Execute lib hook e w =
     (case checkEventType hook e of
        Some line \<Rightarrow> (None, e, w @ [line])
      | None \<Rightarrow>
          (case checkPipelineStatus hook e of
             Some line \<Rightarrow> (None, e, w @ [line])
           | None \<Rightarrow>
               (case checkBranch hook e of
                  Some line \<Rightarrow> (None, e, w @ [line])
                | None \<Rightarrow> dispatch lib hook e w)))"

section \<open>What a successful load establishes\<close>

text \<open>The compiled state after \<open>CreateTemplates\<close> returned nil on a Hook whose commands all have
  an argument: no command table entry is empty and no template pointer is nil.\<close>

definition wellCompiled :: "'t hook \<Rightarrow> bool" where
  "wellCompiled hook \<longleftrightarrow>
     [] \<notin> set (cmdTemplate hook)
     \<and> (\<forall>t \<in> set (cmdTemplate hook). None \<notin> set t)
     \<and> None \<notin> set (envTemplate hook)"

section \<open>A concrete environment\<close>

text \<open>
  To run the definitions on concrete hooks and events, the parameters are instantiated by a
  small environment. Its template library is an interpreter for the fragment of
  \<^verbatim>\<open>text/template\<close> that the examples use: literal text, a field chain \<^verbatim>\<open>{{.a.b}}\<close> and the
  call of a function of the map on a field chain, \<^verbatim>\<open>{{json .a.b}}\<close>. A compiled template keeps
  the function map it was created with, as \<^verbatim>\<open>Funcs\<close> binds it. A chain that meets a missing key
  prints \<^verbatim>\<open><no value>\<close> and reaches a function as nil; a string prints as itself. Other
  constructs and other printed values lie outside the fragment and are reported as errors.
  Error messages of the libraries are shortened to their last part.
\<close>

datatype node = TText string | TField "string list" | TCall string "string list"

type_synonym tmpl = "funcmap \<times> node list"

datatype token = Lit string | Act string

fun lexTemplate :: "bool \<Rightarrow> string \<Rightarrow> string \<Rightarrow> token list option" where
  "lexTemplate inAct acc [] = (if inAct then None else Some [Lit (rev acc)])"
| "lexTemplate inAct acc [c] = lexTemplate inAct (c # acc) []"
| "lexTemplate inAct acc (c # d # cs) =
     (if \<not> inAct \<and> c = CHR ''{'' \<and> d = CHR ''{''
      then map_option (Cons (Lit (rev acc))) (lexTemplate True [] cs)
      else if inAct \<and> c = CHR ''}'' \<and> d = CHR ''}''
      then map_option (Cons (Act (rev acc))) (lexTemplate False [] cs)
      else lexTemplate inAct (c # acc) (d # cs))"

fun splitDots :: "string \<Rightarrow> string \<Rightarrow> string list" where
  "splitDots acc [] = [rev acc]"
| "splitDots acc (c # cs) =
     (if c = CHR ''.'' then rev acc # splitDots [] cs else splitDots (c # acc) cs)"

definition trimSpaces :: "string \<Rightarrow> string" where
  "trimSpaces s = rev (dropWhile (\<lambda>c. c = CHR '' '') (rev (dropWhile (\<lambda>c. c = CHR '' '') s)))"

definition parseChain :: "string \<Rightarrow> string list option" where
  "parseChain s =
     (case s of
        c # cs \<Rightarrow>
          if c = CHR ''.'' \<and> cs \<noteq> [] \<and> CHR '' '' \<notin> set cs \<and> [] \<notin> set (splitDots [] cs)
          then Some (splitDots [] cs) else None
      | [] \<Rightarrow> None)"

definition parseAction :: "funcmap \<Rightarrow> string \<Rightarrow> string + node" where
  "parseAction fm body =
     (let b = trimSpaces body in
      case parseChain b of
        Some ks \<Rightarrow> Inr (TField ks)
      | None \<Rightarrow>
          (let f = takeWhile (\<lambda>c. c \<noteq> CHR '' '') b;
               arg = trimSpaces (dropWhile (\<lambda>c. c \<noteq> CHR '' '') b)
           in if f = [] \<or> CHR ''.'' \<in> set f then Inl ''outside the fragment''
              else if fm f = None then Inl (''function '' @ f @ '' not defined'')
              else (case parseChain arg of
                      Some ks \<Rightarrow> Inr (TCall f ks)
                    | None \<Rightarrow> Inl ''outside the fragment'')))"

fun parseTokens :: "funcmap \<Rightarrow> token list \<Rightarrow> string + node list" where
  "parseTokens fm [] = Inr []"
| "parseTokens fm (Lit s # ts) =
     (case parseTokens fm ts of Inl err \<Rightarrow> Inl err | Inr ns \<Rightarrow> Inr (TText s # ns))"
| "parseTokens fm (Act b # ts) =
     (case parseAction fm b of
        Inl err \<Rightarrow> Inl err
      | Inr n \<Rightarrow> (case parseTokens fm ts of Inl err \<Rightarrow> Inl err | Inr ns \<Rightarrow> Inr (n # ns)))"

definition exampleParse :: "funcmap \<Rightarrow> string \<Rightarrow> string + tmpl" where
  "exampleParse fm src =
     (case lexTemplate False [] src of
        None \<Rightarrow> Inl ''unclosed action''
      | Some ts \<Rightarrow>
          (case parseTokens fm ts of Inl err \<Rightarrow> Inl err | Inr ns \<Rightarrow> Inr (fm, ns)))"

text \<open>Field chains. A key that a mapping does not hold gives no value (\<open>Inr None\<close>), and so does
  every field below it; a field of nil or of a value that is not a mapping is an error.\<close>

fun walkChain :: "gvalue \<Rightarrow> string list \<Rightarrow> string + gvalue option" where
  "walkChain v [] = Inr (Some v)"
| "walkChain (GMap kvs) (k # ks) =
     (case map_of kvs k of
        Some v \<Rightarrow> walkChain v ks
      | None \<Rightarrow> Inr None)"
| "walkChain GNil (k # ks) = Inl (''nil pointer evaluating interface {}.'' @ k)"
| "walkChain v (k # ks) = Inl (''can't evaluate field '' @ k @ '' in type interface {}'')"

definition evalChain :: "event \<Rightarrow> string list \<Rightarrow> string + gvalue option" where
  "evalChain e ks =
     (case ks of
        [] \<Rightarrow> Inl ''outside the fragment''
      | k # ks' \<Rightarrow>
          (case e k of
             Some v \<Rightarrow> walkChain v ks'
           | None \<Rightarrow> Inr None))"

definition printValue :: "gvalue option \<Rightarrow> string + string" where
  "printValue v =
     (case v of
        None \<Rightarrow> Inr ''<no value>''
      | Some (GStr s) \<Rightarrow> Inr s
      | Some _ \<Rightarrow> Inl ''outside the fragment'')"

definition execNode :: "funcmap \<Rightarrow> event \<Rightarrow> node \<Rightarrow> string + string" where
  "execNode fm e n =
     (case n of
        TText s \<Rightarrow> Inr s
      | TField ks \<Rightarrow> (case evalChain e ks of Inl err \<Rightarrow> Inl err | Inr v \<Rightarrow> printValue v)
      | TCall f ks \<Rightarrow>
          (case fm f of
             None \<Rightarrow> Inl (''function '' @ f @ '' not defined'')
           | Some g \<Rightarrow>
               (case evalChain e ks of
                  Inl err \<Rightarrow> Inl err
                | Inr None \<Rightarrow> Inr (g GNil)
                | Inr (Some v) \<Rightarrow> Inr (g v))))"

text \<open>Execution writes node after node into the buffer and stops at the first error, keeping
  what was written.\<close>

fun execNodes :: "funcmap \<Rightarrow> event \<Rightarrow> node list \<Rightarrow> string \<times> string option" where
  "execNodes fm e [] = ([], None)"
| "execNodes fm e (n # ns) =
     (case execNode fm e n of
        Inl err \<Rightarrow> ([], Some err)
      | Inr s \<Rightarrow> (case execNodes fm e ns of (out, r) \<Rightarrow> (s @ out, r)))"

definition exampleExecute :: "tmpl \<Rightarrow> event \<Rightarrow> string \<times> string option" where
  "exampleExecute t e = execNodes (fst t) e (snd t)"

text \<open>\<^verbatim>\<open>json.Marshal\<close> on the values the examples pass to it: a channel is refused with Go's
  message, nil and the booleans have their JSON text. The other shapes are not passed by any
  example; the environment gives them an empty text.\<close>

definition exampleMarshal :: "gvalue \<Rightarrow> string + string" where
  "exampleMarshal v =
     (case v of
        GChan \<Rightarrow> Inl ''json: unsupported type: chan int''
      | GNil \<Rightarrow> Inr ''null''
      | GBool b \<Rightarrow> Inr (if b then ''true'' else ''false'')
      | _ \<Rightarrow> Inr '''')"

text \<open>The search path holds three programs under \<^verbatim>\<open>/bin\<close>.\<close>

definition exampleLookPath :: "string \<Rightarrow> string + string" where
  "exampleLookPath name =
     (if name \<in> {''echo'', ''sleep'', ''false''} then Inr (''/bin/'' @ name)
      else Inl ''executable file not found in $PATH'')"

text \<open>The operating system of the examples: \<^verbatim>\<open>sleep 5\<close> outlasts a timeout below five
  seconds, \<^verbatim>\<open>false\<close> exits with status 1, everything else exits with status 0 before its
  timer.\<close>

definition exampleRace :: "world \<Rightarrow> int \<Rightarrow> race" where
  "exampleRace w timeout =
     (case last w of
        Start args cenv dir \<Rightarrow>
          if args = [''/bin/sleep'', ''5''] \<and> timeout < 5000000000 then TimerFired True
          else if args = [''/bin/false''] then Done (Exited 1)
          else Done (Exited 0)
      | _ \<Rightarrow> Done StartFailed)"

text \<open>Modelled from the spec: \<^verbatim>\<open>Event.Commits\<close> is defined in a file that is not among the
  sources; the spec only requires of it an ordered sequence of commit records, possibly absent,
  derived from the raw mapping. The examples take the sequence that a push event carries under
  \<^verbatim>\<open>commits\<close>.\<close>

definition exampleCommits :: "event \<Rightarrow> gvalue list option" where
  "exampleCommits e = (case e ''commits'' of Some (GSeq cs) \<Rightarrow> Some cs | _ \<Rightarrow> None)"

text \<open>No example string holds a \<^verbatim>\<open>$\<close>, so \<^verbatim>\<open>os.ExpandEnv\<close> leaves them as they are.\<close>

definition exampleLib :: "tmpl lib" where
  "exampleLib =
     \<lparr> expandEnv = (\<lambda>s. s),
       tparse = exampleParse,
       texecute = exampleExecute,
       marshal = exampleMarshal,
       lookPath = exampleLookPath,
       osRace = exampleRace,
       commits = exampleCommits,
       verbose = False \<rparr>"

definition emptyHook :: "tmpl hook" where
  "emptyHook =
     \<lparr> Url = ''/hook'', Dir = '''', Env = [], PerCommit = False, AllowEvent = [],
       AllowPipelineStatus = [], AllowBranches = [], Commands = [], Timeout = 5,
       Secret = '''', cmdTemplate = [], envTemplate = [], dirTemplate = None \<rparr>"

text \<open>Hooks of the examples, compiled by \<open>CreateTemplates\<close> as \<^verbatim>\<open>main\<close> does at load time.\<close>

definition loadHook :: "tmpl hook \<Rightarrow> tmpl hook" where
  "loadHook h = snd (CreateTemplates exampleLib h)"

definition unresolvableHook :: "tmpl hook" where
  "unresolvableHook = loadHook (emptyHook\<lparr>Commands := [[''nosuch''], [''echo'', ''hi'']]\<rparr>)"

definition falseEchoHook :: "tmpl hook" where
  "falseEchoHook = loadHook (emptyHook\<lparr>Commands := [[''false''], [''echo'', ''done'']]\<rparr>)"

definition sleepEchoHook :: "tmpl hook" where
  "sleepEchoHook =
     loadHook (emptyHook\<lparr>Commands := [[''sleep'', ''5''], [''echo'', ''done'']], Timeout := 1\<rparr>)"

definition emptyCommandHook :: "tmpl hook" where
  "emptyCommandHook = loadHook (emptyHook\<lparr>Commands := [[''echo'', ''hi''], []]\<rparr>)"

definition perCommitHook :: "tmpl hook" where
  "perCommitHook =
     loadHook (emptyHook\<lparr>PerCommit := True, Commands := [[''sleep'', ''{{.commit.id}}'']],
                          Timeout := 1\<rparr>)"

definition pushEvent :: event where
  "pushEvent = [''commits'' \<mapsto> GSeq [GMap [(''id'', GStr ''5'')], GMap [(''id'', GStr ''0'')]]]"

definition filterHook :: "tmpl hook" where
  "filterHook =
     loadHook (emptyHook\<lparr>AllowEvent := [''push''], AllowPipelineStatus := [''success''],
                          AllowBranches := [''main''], Commands := [[''echo'', ''{{.ref}}'']]\<rparr>)"

definition mainBranchHook :: "tmpl hook" where
  "mainBranchHook =
     loadHook (emptyHook\<lparr>AllowBranches := [''main''], Commands := [[''echo'', ''{{.ref}}'']]\<rparr>)"

definition featureBranchHook :: "tmpl hook" where
  "featureBranchHook =
     loadHook (emptyHook\<lparr>AllowBranches := [''feature''], Commands := [[''echo'', ''{{.ref}}'']]\<rparr>)"



definition emptyPerCommitHook :: "tmpl hook" where
  "emptyPerCommitHook = loadHook (emptyHook\<lparr>PerCommit := True, Commands := [[]]\<rparr>)"

definition badFieldHook :: "tmpl hook" where
  "badFieldHook =
     loadHook (emptyHook\<lparr>Commands := [[''echo'', ''hi''], [''echo'', ''{{.ref.x}}''],
                                       [''echo'', ''late'']]\<rparr>)"

definition lateUnresolvableHook :: "tmpl hook" where
  "lateUnresolvableHook =
     loadHook (emptyHook\<lparr>Commands := [[''echo'', ''hi''], [''nosuch''], [''echo'', ''late'']]\<rparr>)"

definition echoSleepEchoHook :: "tmpl hook" where
  "echoSleepEchoHook =
     loadHook (emptyHook\<lparr>Commands := [[''echo'', ''first''], [''sleep'', ''5''], [''echo'', ''late'']],
                          Timeout := 1\<rparr>)"

definition jsonHook :: "tmpl hook" where
  "jsonHook = loadHook (emptyHook\<lparr>Commands := [[''echo'', ''a={{json .x}}.'', ''end'']]\<rparr>)"

section \<open>Reading a trace\<close>

fun starts :: "world \<Rightarrow> string list list" where
  "starts [] = []"
| "starts (Start args cenv dir # w) = args # starts w"
| "starts (a # w) = starts w"

fun lookups :: "world \<Rightarrow> string list" where
  "lookups [] = []"
| "lookups (LookPath name # w) = name # lookups w"
| "lookups (a # w) = lookups w"

fun kills :: "world \<Rightarrow> string list list" where
  "kills [] = []"
| "kills (Kill args # w) = args # kills w"
| "kills (a # w) = kills w"

fun units :: "world \<Rightarrow> gvalue option list" where
  "units [] = []"
| "units (EnterUnit c # w) = c # units w"
| "units (a # w) = units w"

text \<open>What \<open>runCommands\<close> writes for commands that were all done before their timers: the log
  line and the start of each, in order.\<close>

fun runLog :: "string list list \<Rightarrow> string list \<Rightarrow> string \<Rightarrow> world" where
  "runLog [] env dir = []"
| "runLog (cmd # rest) env dir =
     Log Info ''Running'' # Start cmd (if env = [] then None else Some env) dir # runLog rest env dir"

section \<open>Facts about the loops\<close>

lemma starts_append: "starts (a @ b) = starts a @ starts b"
  by (induction a rule: starts.induct) auto
lemma lookups_append: "lookups (a @ b) = lookups a @ lookups b"
  by (induction a rule: lookups.induct) auto
lemma kills_append: "kills (a @ b) = kills a @ kills b"
  by (induction a rule: kills.induct) auto
lemma units_append: "units (a @ b) = units a @ units b"
  by (induction a rule: units.induct) auto

lemma starts_lookPaths: "starts (map LookPath ns) = []"
  by (induction ns) auto
lemma kills_lookPaths: "kills (map LookPath ns) = []"
  by (induction ns) auto
lemma units_lookPaths: "units (map LookPath ns) = []"
  by (induction ns) auto
lemma lookups_lookPaths: "lookups (map LookPath ns) = ns"
  by (induction ns) auto

lemma processCommand_length:
  "processCommand lib e ts = Ok xs \<Longrightarrow> length xs = length ts"
  by (induction ts arbitrary: xs) (auto split: option.splits prod.splits res.splits)

lemma processCommand_Err:
  "processCommand lib e ts = Err x \<Longrightarrow> \<exists>m. x = RenderError m"
  by (induction ts arbitrary: x) (auto split: option.splits prod.splits res.splits)

lemma renderEnv_Err:
  "renderEnv lib e ts = Err x \<Longrightarrow> \<exists>m. x = RenderError m"
  by (induction ts arbitrary: x) (auto split: option.splits prod.splits res.splits)

lemma prepareCommands_step:
  assumes "processCommand lib e t = Ok (name # args)" "lookPath lib name = Inr execPath"
    "prepareCommands lib e ts (w @ [LookPath name]) = (r1, w1)"
  shows "prepareCommands lib e (t # ts) w =
           ((case r1 of Ok rest \<Rightarrow> Ok ((execPath # args) # rest) | Err x \<Rightarrow> Err x | Panic p \<Rightarrow> Panic p), w1)"
  using assms by (cases r1) simp_all

lemma prepareCommands_stop:
  "processCommand lib e t = Err x \<Longrightarrow> prepareCommands lib e (t # ts) w = (Err x, w)"
  "processCommand lib e t = Panic p \<Longrightarrow> prepareCommands lib e (t # ts) w = (Panic p, w)"
  "processCommand lib e t = Ok [] \<Longrightarrow> prepareCommands lib e (t # ts) w = (Panic IndexOutOfRange, w)"
  "processCommand lib e t = Ok (name # args) \<Longrightarrow> lookPath lib name = Inl err \<Longrightarrow>
     prepareCommands lib e (t # ts) w = (Err (ExecutableError name err), w @ [LookPath name])"
  by simp_all

lemma prepareCommands_result:
  "prepareCommands lib e ts w = (r, w') \<Longrightarrow>
     \<exists>ns. w' = w @ map LookPath ns
       \<and> (\<forall>cmds. r = Ok cmds \<longrightarrow>
             length ns = length ts \<and> length cmds = length ts \<and> [] \<notin> set cmds
             \<and> map (lookPath lib) ns = map (\<lambda>c. Inr (hd c)) cmds
             \<and> (\<forall>n \<in> set ns. \<exists>p. lookPath lib n = Inr p))
       \<and> (\<forall>n m. r = Err (ExecutableError n m) \<longrightarrow>
             ns \<noteq> [] \<and> last ns = n \<and> lookPath lib n = Inl m
             \<and> (\<forall>n \<in> set (butlast ns). \<exists>p. lookPath lib n = Inr p))
       \<and> ((\<forall>n m. r \<noteq> Err (ExecutableError n m)) \<longrightarrow>
             (\<forall>n \<in> set ns. \<exists>p. lookPath lib n = Inr p))"
proof (induction ts arbitrary: w r w')
  case Nil
  then have "r = Ok []" "w' = w" by simp_all
  then show ?case by (intro exI[of _ "[]"]) simp
next
  case (Cons t ts)
  note prem = Cons.prems[symmetric]
  show ?case
  proof (cases "processCommand lib e t")
    case (Err x)
    from prem have "w' = w" "r = Err x" unfolding prepareCommands_stop(1)[OF Err] by simp_all
    moreover have "\<And>n m. x \<noteq> ExecutableError n m"
      using Err processCommand_Err by blast
    ultimately show ?thesis by (intro exI[of _ "[]"]) simp
  next
    case (Panic p)
    from prem have "w' = w" "r = Panic p" unfolding prepareCommands_stop(2)[OF Panic] by simp_all
    then show ?thesis by (intro exI[of _ "[]"]) simp
  next
    case (Ok cmd)
    show ?thesis
    proof (cases cmd)
      case Nil
      from prem have "w' = w" "r = Panic IndexOutOfRange"
        unfolding prepareCommands_stop(3)[OF Ok[unfolded Nil]] by simp_all
      then show ?thesis by (intro exI[of _ "[]"]) simp
    next
      case c: (Cons name args)
      show ?thesis
      proof (cases "lookPath lib name")
        case (Inl err)
        from prem have "w' = w @ [LookPath name]" "r = Err (ExecutableError name err)"
          unfolding prepareCommands_stop(4)[OF Ok[unfolded c] Inl] by simp_all
        then show ?thesis using Inl by (intro exI[of _ "[name]"]) simp
      next
        case (Inr execPath)
        obtain r1 w1 where rec: "prepareCommands lib e ts (w @ [LookPath name]) = (r1, w1)"
          by (cases "prepareCommands lib e ts (w @ [LookPath name])") auto
        from Cons.IH[OF rec] obtain ns where ns:
          "w1 = (w @ [LookPath name]) @ map LookPath ns"
          "\<forall>cmds. r1 = Ok cmds \<longrightarrow>
             length ns = length ts \<and> length cmds = length ts \<and> [] \<notin> set cmds
             \<and> map (lookPath lib) ns = map (\<lambda>c. Inr (hd c)) cmds
             \<and> (\<forall>n \<in> set ns. \<exists>p. lookPath lib n = Inr p)"
          "\<forall>n m. r1 = Err (ExecutableError n m) \<longrightarrow>
             ns \<noteq> [] \<and> last ns = n \<and> lookPath lib n = Inl m
             \<and> (\<forall>n \<in> set (butlast ns). \<exists>p. lookPath lib n = Inr p)"
          "(\<forall>n m. r1 \<noteq> Err (ExecutableError n m)) \<longrightarrow>
             (\<forall>n \<in> set ns. \<exists>p. lookPath lib n = Inr p)"
          by (elim exE conjE) (rule that)
        have step: "(r, w') =
           ((case r1 of Ok rest \<Rightarrow> Ok ((execPath # args) # rest) | Err x \<Rightarrow> Err x | Panic p \<Rightarrow> Panic p), w1)"
          using prem unfolding prepareCommands_step[OF Ok[unfolded c] Inr rec] .
        have w': "w' = w @ map LookPath (name # ns)" using step ns(1) by simp
        show ?thesis
        proof (cases r1)
          case o: (Ok rest)
          then have r: "r = Ok ((execPath # args) # rest)" using step by simp
          from ns(2) o have f: "length ns = length ts" "length rest = length ts" "[] \<notin> set rest"
            "map (lookPath lib) ns = map (\<lambda>c. Inr (hd c)) rest"
            "\<forall>n \<in> set ns. \<exists>p. lookPath lib n = Inr p" by simp_all
          show ?thesis
            by (rule exI[of _ "name # ns"]) (simp add: w' r f Inr)
        next
          case er: (Err x)
          then have r: "r = Err x" using step by simp
          show ?thesis
          proof (cases "\<exists>n m. x = ExecutableError n m")
            case True
            then obtain n m where x: "x = ExecutableError n m" by blast
            from ns(3) er x have f: "ns \<noteq> []" "last ns = n" "lookPath lib n = Inl m"
              "\<forall>n \<in> set (butlast ns). \<exists>p. lookPath lib n = Inr p" by simp_all
            show ?thesis
              by (rule exI[of _ "name # ns"]) (simp add: w' r x f Inr)
          next
            case False
            with ns(4) er have f: "\<forall>n \<in> set ns. \<exists>p. lookPath lib n = Inr p" by simp
            show ?thesis
              by (rule exI[of _ "name # ns"]) (use False in \<open>simp add: w' r f Inr\<close>)
          qed
        next
          case pa: (Panic p)
          then have r: "r = Panic p" using step by simp
          from ns(4) pa have f: "\<forall>n \<in> set ns. \<exists>p. lookPath lib n = Inr p" by simp
          show ?thesis
            by (rule exI[of _ "name # ns"]) (simp add: w' r f Inr)
        qed
      qed
    qed
  qed
qed

lemma timerDuration_seconds:
  assumes "0 \<le> Timeout hook" "Timeout hook \<le> 9223372036"
  shows "timerDuration hook = Timeout hook * 1000000000"
proof -
  have "0 \<le> Timeout hook * 1000000000 + 2 ^ 63" using assms(1) by simp
  moreover have "Timeout hook * 1000000000 + 2 ^ 63 < (2 ^ 64 :: int)" using assms(2) by simp
  ultimately have "(Timeout hook * 1000000000 + 2 ^ 63) mod 2 ^ 64
                     = Timeout hook * 1000000000 + 2 ^ 63"
    by (rule mod_pos_pos_trivial)
  then show ?thesis by (simp add: timerDuration_def)
qed

lemma runCommand_unfold:
  "args \<noteq> [] \<Longrightarrow>
     runCommand lib hook args env dir w =
       (case osRace lib (w @ [Log Info ''Running'',
                              Start args (if env = [] then None else Some env) dir])
               (timerDuration hook) of
          Done c \<Rightarrow>
            (Ok (), w @ [Log Info ''Running'',
                         Start args (if env = [] then None else Some env) dir])
        | TimerFired started \<Rightarrow>
            if started
            then (Err (CommandTimedOut args),
                  (w @ [Log Info ''Running'',
                        Start args (if env = [] then None else Some env) dir]) @ [Kill args])
            else (Panic NilDereference,
                  w @ [Log Info ''Running'',
                       Start args (if env = [] then None else Some env) dir]))"
  by (cases args; cases "env = []")
     (simp_all add: runCommand_def Let_def split: race.splits)

lemma runCommand_cases:
  assumes "args \<noteq> []" "runCommand lib hook args env dir w = (r, w')"
  shows "(r = Ok () \<and> w' = w @ [Log Info ''Running'', Start args (if env = [] then None else Some env) dir])
       \<or> (r = Err (CommandTimedOut args)
            \<and> w' = w @ [Log Info ''Running'', Start args (if env = [] then None else Some env) dir, Kill args])
       \<or> (r = Panic NilDereference
            \<and> w' = w @ [Log Info ''Running'', Start args (if env = [] then None else Some env) dir])"
  using assms by (cases args) (auto simp: runCommand_def Let_def split: race.splits if_splits)

lemma runCommands_result:
  "[] \<notin> set cmds \<Longrightarrow> runCommands lib hook cmds env dir w = (r, w') \<Longrightarrow>
     \<exists>post. w' = w @ post \<and> lookups post = [] \<and> units post = []
       \<and> (r = Ok () \<longrightarrow> starts post = cmds \<and> kills post = [])
       \<and> (\<forall>x. r = Err x \<longrightarrow>
             (\<exists>k < length cmds. x = CommandTimedOut (cmds ! k) \<and> starts post = take (Suc k) cmds
                \<and> kills post = [cmds ! k] \<and> last post = Kill (cmds ! k)))
       \<and> (\<forall>p. r = Panic p \<longrightarrow>
             p = NilDereference \<and> kills post = []
             \<and> (\<exists>k < length cmds. starts post = take (Suc k) cmds))"
proof (induction cmds arbitrary: w r w')
  case Nil
  then show ?case by auto
next
  case (Cons cmd rest)
  obtain r0 w0 where rc: "runCommand lib hook cmd env dir w = (r0, w0)"
    by (cases "runCommand lib hook cmd env dir w") auto
  have ne: "cmd \<noteq> []" "[] \<notin> set rest" using Cons.prems(1) by auto
  let ?s = "[Log Info ''Running'', Start cmd (if env = [] then None else Some env) dir]"
  from runCommand_cases[OF ne(1) rc]
  consider (ok) "r0 = Ok ()" "w0 = w @ ?s"
    | (timeout) "r0 = Err (CommandTimedOut cmd)" "w0 = w @ ?s @ [Kill cmd]"
    | (panic) "r0 = Panic NilDereference" "w0 = w @ ?s"
    by auto
  then show ?case
  proof cases
    case ok
    with rc Cons.prems(2) have rec: "runCommands lib hook rest env dir w0 = (r, w')" by simp
    from Cons.IH[OF ne(2) rec] obtain post where post:
      "w' = w0 @ post" "lookups post = []" "units post = []"
      "r = Ok () \<longrightarrow> starts post = rest \<and> kills post = []"
      "\<forall>x. r = Err x \<longrightarrow>
             (\<exists>k < length rest. x = CommandTimedOut (rest ! k) \<and> starts post = take (Suc k) rest
                \<and> kills post = [rest ! k] \<and> last post = Kill (rest ! k))"
      "\<forall>p. r = Panic p \<longrightarrow>
             p = NilDereference \<and> kills post = []
             \<and> (\<exists>k < length rest. starts post = take (Suc k) rest)" by blast
    have 1: "w' = w @ (?s @ post)" using post(1) ok(2) by simp
    have 2: "lookups (?s @ post) = []" "units (?s @ post) = []" using post(2,3) by simp_all
    have 3: "r = Ok () \<longrightarrow> starts (?s @ post) = cmd # rest \<and> kills (?s @ post) = []"
      using post(4) by simp
    have 4: "\<forall>x. r = Err x \<longrightarrow>
             (\<exists>k < length (cmd # rest). x = CommandTimedOut ((cmd # rest) ! k)
                \<and> starts (?s @ post) = take (Suc k) (cmd # rest)
                \<and> kills (?s @ post) = [(cmd # rest) ! k] \<and> last (?s @ post) = Kill ((cmd # rest) ! k))"
    proof (intro allI impI)
      fix x assume "r = Err x"
      with post(5) obtain k where k: "k < length rest" "x = CommandTimedOut (rest ! k)"
        "starts post = take (Suc k) rest" "kills post = [rest ! k]" "last post = Kill (rest ! k)"
        by blast
      have "post \<noteq> []" using k(4) by auto
      then show "\<exists>k < length (cmd # rest). x = CommandTimedOut ((cmd # rest) ! k)
                \<and> starts (?s @ post) = take (Suc k) (cmd # rest)
                \<and> kills (?s @ post) = [(cmd # rest) ! k] \<and> last (?s @ post) = Kill ((cmd # rest) ! k)"
        using k by (intro exI[of _ "Suc k"]) simp
    qed
    have 5: "\<forall>p. r = Panic p \<longrightarrow>
             p = NilDereference \<and> kills (?s @ post) = []
             \<and> (\<exists>k < length (cmd # rest). starts (?s @ post) = take (Suc k) (cmd # rest))"
    proof (intro allI impI)
      fix p assume "r = Panic p"
      with post(6) obtain k where k: "p = NilDereference" "kills post = []" "k < length rest"
        "starts post = take (Suc k) rest" by blast
      show "p = NilDereference \<and> kills (?s @ post) = []
             \<and> (\<exists>k < length (cmd # rest). starts (?s @ post) = take (Suc k) (cmd # rest))"
        using k by (auto intro!: exI[of _ "Suc k"])
    qed
    show ?thesis
      by (rule exI[of _ "?s @ post"]) (use 1 2 3 4 5 in blast)
  next
    case timeout
    with rc Cons.prems(2) have "r = Err (CommandTimedOut cmd)" "w' = w @ (?s @ [Kill cmd])" by simp_all
    then show ?thesis
      by (intro exI[of _ "?s @ [Kill cmd]"] conjI allI impI) (simp_all, intro exI[of _ 0], simp)
  next
    case panic
    with rc Cons.prems(2) have "r = Panic NilDereference" "w' = w @ ?s" by simp_all
    then show ?thesis
      by (intro exI[of _ "?s"] conjI allI impI) (simp_all, intro exI[of _ 0], simp)
  qed
qed


lemma renderDir_result:
  "renderDir lib e dt \<noteq> Panic p"
  "renderDir lib e dt = Err x \<Longrightarrow> \<exists>m. x = RenderError m"
  by (auto simp: renderDir_def split: option.splits prod.splits)

lemma renderEnv_Panic:
  "renderEnv lib e ts = Panic p \<Longrightarrow> p = NilDereference \<and> None \<in> set ts"
  by (induction ts arbitrary: p) (auto split: option.splits prod.splits res.splits)

lemma processCommand_Panic:
  "processCommand lib e ts = Panic p \<Longrightarrow> p = NilDereference \<and> None \<in> set ts"
  by (induction ts arbitrary: p) (auto split: option.splits prod.splits res.splits)

lemma prepareCommands_Panic:
  "prepareCommands lib e ts w = (Panic p, w') \<Longrightarrow>
     (p = IndexOutOfRange \<and> [] \<in> set ts) \<or> (p = NilDereference \<and> (\<exists>t \<in> set ts. None \<in> set t))"
proof (induction ts arbitrary: w w')
  case Nil
  then show ?case by simp
next
  case (Cons t ts)
  note prem = Cons.prems[symmetric]
  show ?case
  proof (cases "processCommand lib e t")
    case (Err x)
    from prem show ?thesis unfolding prepareCommands_stop(1)[OF Err] by simp
  next
    case (Panic q)
    from prem have "p = q" unfolding prepareCommands_stop(2)[OF Panic] by simp
    with processCommand_Panic[OF Panic] show ?thesis by simp
  next
    case (Ok cmd)
    show ?thesis
    proof (cases cmd)
      case Nil
      have "t = []" using processCommand_length[OF Ok] Nil by simp
      moreover from prem have "p = IndexOutOfRange"
        unfolding prepareCommands_stop(3)[OF Ok[unfolded Nil]] by simp
      ultimately show ?thesis by simp
    next
      case c: (Cons name args)
      show ?thesis
      proof (cases "lookPath lib name")
        case (Inl err)
        from prem show ?thesis unfolding prepareCommands_stop(4)[OF Ok[unfolded c] Inl] by simp
      next
        case (Inr execPath)
        obtain r1 w1 where rec: "prepareCommands lib e ts (w @ [LookPath name]) = (r1, w1)"
          by (cases "prepareCommands lib e ts (w @ [LookPath name])") auto
        have step: "(Panic p, w') =
           ((case r1 of Ok rest \<Rightarrow> Ok ((execPath # args) # rest) | Err x \<Rightarrow> Err x | Panic p \<Rightarrow> Panic p), w1)"
          using prem unfolding prepareCommands_step[OF Ok[unfolded c] Inr rec] .
        then have "r1 = Panic p" by (cases r1) simp_all
        with rec Cons.IH show ?thesis by fastforce
      qed
    qed
  qed
qed

lemma prepareCommands_Err:
  "prepareCommands lib e ts w = (Err x, w') \<Longrightarrow>
     (\<exists>m. x = RenderError m) \<or> (\<exists>n m. x = ExecutableError n m)"
proof (induction ts arbitrary: w w')
  case Nil
  then show ?case by simp
next
  case (Cons t ts)
  note prem = Cons.prems[symmetric]
  show ?case
  proof (cases "processCommand lib e t")
    case (Err y)
    from prem have "x = y" unfolding prepareCommands_stop(1)[OF Err] by simp
    with processCommand_Err[OF Err] show ?thesis by simp
  next
    case (Panic q)
    from prem show ?thesis unfolding prepareCommands_stop(2)[OF Panic] by simp
  next
    case (Ok cmd)
    show ?thesis
    proof (cases cmd)
      case Nil
      from prem show ?thesis unfolding prepareCommands_stop(3)[OF Ok[unfolded Nil]] by simp
    next
      case c: (Cons name args)
      show ?thesis
      proof (cases "lookPath lib name")
        case (Inl err)
        from prem show ?thesis unfolding prepareCommands_stop(4)[OF Ok[unfolded c] Inl] by simp
      next
        case (Inr execPath)
        obtain r1 w1 where rec: "prepareCommands lib e ts (w @ [LookPath name]) = (r1, w1)"
          by (cases "prepareCommands lib e ts (w @ [LookPath name])") auto
        have step: "(Err x, w') =
           ((case r1 of Ok rest \<Rightarrow> Ok ((execPath # args) # rest) | Err x \<Rightarrow> Err x | Panic p \<Rightarrow> Panic p), w1)"
          using prem unfolding prepareCommands_step[OF Ok[unfolded c] Inr rec] .
        then have "r1 = Err x" by (cases r1) simp_all
        with rec Cons.IH show ?thesis by fastforce
      qed
    qed
  qed
qed

lemma processEvent_cases [consumes 1, case_names early prepare run]:
  assumes "processEvent lib hook e w = (r, w')"
  obtains
    (early) "w' = w @ [EnterUnit (e ''commit'')]"
      "(\<exists>m. r = Err (RenderError m)) \<or> (r = Panic NilDereference \<and> None \<in> set (envTemplate hook))"
  | (prepare) d env rp
      where "renderDir lib e (dirTemplate hook) = Ok d" "renderEnv lib e (envTemplate hook) = Ok env"
      "prepareCommands lib e (cmdTemplate hook) (w @ [EnterUnit (e ''commit'')]) = (rp, w')"
      "(\<exists>x. rp = Err x \<and> r = Err x) \<or> (\<exists>p. rp = Panic p \<and> r = Panic p)"
  | (run) d env cmds w1
      where "renderDir lib e (dirTemplate hook) = Ok d" "renderEnv lib e (envTemplate hook) = Ok env"
      "prepareCommands lib e (cmdTemplate hook) (w @ [EnterUnit (e ''commit'')]) = (Ok cmds, w1)"
      "runCommands lib hook cmds env d w1 = (r, w')"
proof (cases "renderDir lib e (dirTemplate hook)")
  case (Err x)
  with assms have "r = Err x" "w' = w @ [EnterUnit (e ''commit'')]"
    by (simp_all add: processEvent_def Let_def)
  with renderDir_result(2)[OF Err] early show ?thesis by blast
next
  case (Panic p)
  with renderDir_result(1) show ?thesis by blast
next
  case d: (Ok d)
  show ?thesis
  proof (cases "renderEnv lib e (envTemplate hook)")
    case (Err x)
    with assms d have "r = Err x" "w' = w @ [EnterUnit (e ''commit'')]"
      by (simp_all add: processEvent_def Let_def)
    with renderEnv_Err[OF Err] early show ?thesis by blast
  next
    case (Panic p)
    with assms d have "r = Panic p" "w' = w @ [EnterUnit (e ''commit'')]"
      by (simp_all add: processEvent_def Let_def)
    with renderEnv_Panic[OF Panic] early show ?thesis by blast
  next
    case env: (Ok env)
    obtain rp w1 where pr:
      "prepareCommands lib e (cmdTemplate hook) (w @ [EnterUnit (e ''commit'')]) = (rp, w1)"
      by (cases "prepareCommands lib e (cmdTemplate hook) (w @ [EnterUnit (e ''commit'')])") auto
    show ?thesis
    proof (cases rp)
      case (Ok cmds)
      with assms d env pr have "runCommands lib hook cmds env d w1 = (r, w')"
        by (simp add: processEvent_def Let_def)
      with run d env pr Ok show ?thesis by blast
    next
      case (Err x)
      with assms d env pr have "r = Err x" "w' = w1"
        by (simp_all add: processEvent_def Let_def)
      with prepare[OF d env] pr Err show ?thesis by blast
    next
      case (Panic p)
      with assms d env pr have "r = Panic p" "w' = w1"
        by (simp_all add: processEvent_def Let_def)
      with prepare[OF d env] pr Panic show ?thesis by blast
    qed
  qed
qed

lemma prepareCommands_failed_lookup:
  assumes "prepareCommands lib e ts w = (rp, w @ map LookPath ns)"
    and "n \<in> set ns" "lookPath lib n = Inl m"
  shows "rp = Err (ExecutableError n m)"
proof -
  from prepareCommands_result[OF assms(1)] obtain ns' where ns':
    "w @ map LookPath ns = w @ map LookPath ns'"
    "\<forall>n m. rp = Err (ExecutableError n m) \<longrightarrow>
             ns' \<noteq> [] \<and> last ns' = n \<and> lookPath lib n = Inl m
             \<and> (\<forall>n \<in> set (butlast ns'). \<exists>p. lookPath lib n = Inr p)"
    "(\<forall>n m. rp \<noteq> Err (ExecutableError n m)) \<longrightarrow>
             (\<forall>n \<in> set ns'. \<exists>p. lookPath lib n = Inr p)"
    by (elim exE conjE) (rule that)
  have "map LookPath ns = map LookPath ns'" using ns'(1) by simp
  then have "lookups (map LookPath ns) = lookups (map LookPath ns')" by simp
  then have eq: "ns' = ns" by (simp add: lookups_lookPaths)
  show ?thesis
  proof (cases "\<exists>n' m'. rp = Err (ExecutableError n' m')")
    case True
    then obtain n' m' where rp: "rp = Err (ExecutableError n' m')" by blast
    with ns'(2) eq have f: "ns \<noteq> []" "last ns = n'" "lookPath lib n' = Inl m'"
      "\<forall>n \<in> set (butlast ns). \<exists>p. lookPath lib n = Inr p" by simp_all
    have "n \<notin> set (butlast ns)" using f(4) assms(3) by auto
    moreover have "set ns = set (butlast ns) \<union> {last ns}"
      using f(1) by (metis append_butlast_last_id list.simps(15) set_append Un_insert_right sup_bot.right_neutral empty_set)
    ultimately have "n = n'" using assms(2) f(2) by auto
    with f(3) assms(3) rp show ?thesis by simp
  next
    case False
    with ns'(3) eq assms(2,3) show ?thesis by auto
  qed
qed


section \<open>One command against its timeout\<close>

text \<open>
  C5 (as amended). A command whose argument vector is not empty is started exactly once, and
  \<open>runCommand\<close> has exactly one of three outcomes, decided by the race between the end of the
  child and the timer:

  \<^item> the child is done first (whatever \<^verbatim>\<open>cmd.Wait\<close> saw: any exit status, or a failed start):
    \<open>runCommand\<close> returns nil and nothing is killed; the exit outcome is not reported;
  \<^item> the timer fires first on a process that had started: the process is killed, as the last
    action, and the error is the timeout error that carries the argument vector;
  \<^item> the timer fires first on a process that never started: \<^verbatim>\<open>cmd.Process\<close> is nil and the
    call of \<^verbatim>\<open>Kill\<close> panics; nothing is killed.

  No second start is made in any case. For \<open>0 \<le> Timeout \<le> 9223372036\<close> the timer is set to
  \<open>Timeout\<close> seconds, that is \<open>Timeout * 10\<^sup>9\<close> nanoseconds.
\<close>

theorem runCommand_one_outcome:
  assumes "args \<noteq> []" and "runCommand lib hook args env dir w = (r, w')"
  shows "(\<exists>ext. w' = w @ ext \<and> starts ext = [args]
     \<and> (case osRace lib (w @ [Log Info ''Running'',
                                Start args (if env = [] then None else Some env) dir])
                (timerDuration hook) of
          Done c \<Rightarrow> r = Ok () \<and> kills ext = []
        | TimerFired started \<Rightarrow>
            if started then r = Err (CommandTimedOut args) \<and> kills ext = [args]
                            \<and> last ext = Kill args
            else r = Panic NilDereference \<and> kills ext = []))
     \<and> (0 \<le> Timeout hook \<and> Timeout hook \<le> 9223372036 \<longrightarrow>
          timerDuration hook = Timeout hook * 1000000000)"
proof (rule conjI)
  show "0 \<le> Timeout hook \<and> Timeout hook \<le> 9223372036 \<longrightarrow>
          timerDuration hook = Timeout hook * 1000000000"
    using timerDuration_seconds by blast
next
  let ?s = "[Log Info ''Running'', Start args (if env = [] then None else Some env) dir]"
  have eq: "(r, w') =
     (case osRace lib (w @ ?s) (timerDuration hook) of
        Done c \<Rightarrow> (Ok (), w @ ?s)
      | TimerFired started \<Rightarrow>
          if started then (Err (CommandTimedOut args), (w @ ?s) @ [Kill args])
          else (Panic NilDereference, w @ ?s))"
    using runCommand_unfold [OF assms(1), of lib hook env dir w] assms(2) by simp
  show "\<exists>ext. w' = w @ ext \<and> starts ext = [args]
     \<and> (case osRace lib (w @ [Log Info ''Running'',
                                Start args (if env = [] then None else Some env) dir])
                (timerDuration hook) of
          Done c \<Rightarrow> r = Ok () \<and> kills ext = []
        | TimerFired started \<Rightarrow>
            if started then r = Err (CommandTimedOut args) \<and> kills ext = [args]
                            \<and> last ext = Kill args
            else r = Panic NilDereference \<and> kills ext = [])"
    (is "?main")
  proof (cases "osRace lib (w @ ?s) (timerDuration hook)")
    case (Done c)
    with eq have "r = Ok ()" "w' = w @ ?s" by simp_all
    then show ?main using Done by (intro exI[of _ "?s"]) simp
  next
    case (TimerFired started)
    show ?main
    proof (cases started)
      case True
      with eq TimerFired have "r = Err (CommandTimedOut args)" "w' = w @ (?s @ [Kill args])"
        by simp_all
      then show ?main using TimerFired True by (intro exI[of _ "?s @ [Kill args]"]) simp
    next
      case False
      with eq TimerFired have "r = Panic NilDereference" "w' = w @ ?s" by simp_all
      then show ?main using TimerFired False by (intro exI[of _ "?s"]) simp
    qed
  qed
qed

theorem runCommand_one_outcome_witness:
  "[''/bin/sleep'', ''5''] \<noteq> []
   \<and> runCommand exampleLib (emptyHook\<lparr>Timeout := 1\<rparr>) [''/bin/sleep'', ''5''] [] '''' []
       = (Err (CommandTimedOut [''/bin/sleep'', ''5'']),
          [Log Info ''Running'', Start [''/bin/sleep'', ''5''] None '''',
           Kill [''/bin/sleep'', ''5'']])
   \<and> (\<exists>ext. [Log Info ''Running'', Start [''/bin/sleep'', ''5''] None '''',
               Kill [''/bin/sleep'', ''5'']] = [] @ ext
          \<and> starts ext = [[''/bin/sleep'', ''5'']]
          \<and> kills ext = [[''/bin/sleep'', ''5'']]
          \<and> last ext = Kill [''/bin/sleep'', ''5''])
   \<and> 0 \<le> Timeout (emptyHook\<lparr>Timeout := 1\<rparr>)
   \<and> Timeout (emptyHook\<lparr>Timeout := 1\<rparr>) \<le> 9223372036
   \<and> timerDuration (emptyHook\<lparr>Timeout := 1\<rparr>) = 1000000000"
proof -
  have a: "[''/bin/sleep'', ''5''] \<noteq> []" by simp
  have r: "runCommand exampleLib (emptyHook\<lparr>Timeout := 1\<rparr>) [''/bin/sleep'', ''5''] [] '''' []
       = (Err (CommandTimedOut [''/bin/sleep'', ''5'']),
          [Log Info ''Running'', Start [''/bin/sleep'', ''5''] None '''',
           Kill [''/bin/sleep'', ''5'']])"
    by (simp add: runCommand_def timerDuration_def exampleLib_def exampleRace_def emptyHook_def)
  from runCommand_one_outcome [OF a r] a r show ?thesis
    by (simp add: timerDuration_def exampleLib_def exampleRace_def emptyHook_def)
qed

text \<open>
  C5 as stated fails where it says that the exit outcome is reported: a child that exits with
  status 1 before the timer gives the same nil result as a successful one.
\<close>

theorem runCommand_drops_exit_status:
  "exampleRace [Log Info ''Running'', Start [''/bin/false''] None '''']
       (timerDuration emptyHook) = Done (Exited 1)
   \<and> exampleRace [Log Info ''Running'', Start [''/bin/echo''] None '''']
       (timerDuration emptyHook) = Done (Exited 0)
   \<and> fst (runCommand exampleLib emptyHook [''/bin/false''] [] '''' []) = Ok ()
   \<and> fst (runCommand exampleLib emptyHook [''/bin/echo''] [] '''' []) = Ok ()"
  by (simp add: runCommand_def timerDuration_def exampleLib_def exampleRace_def emptyHook_def)

section \<open>The example hooks, compiled\<close>

lemmas example_defs =
  CreateTemplates_def compileDir_def createTemplate_def exampleLib_def exampleParse_def
  emptyHook_def parseAction_def parseChain_def trimSpaces_def loadHook_def

lemma unresolvableHook_compiled:
  "cmdTemplate unresolvableHook =
     [[Some (templateFuncs exampleMarshal, [TText ''nosuch''])],
      [Some (templateFuncs exampleMarshal, [TText ''echo'']),
       Some (templateFuncs exampleMarshal, [TText ''hi''])]]"
  "envTemplate unresolvableHook = []" "dirTemplate unresolvableHook = None"
  "Timeout unresolvableHook = 5" "PerCommit unresolvableHook = False"
  by (simp_all add: unresolvableHook_def example_defs)

lemma falseEchoHook_compiled:
  "cmdTemplate falseEchoHook =
     [[Some (templateFuncs exampleMarshal, [TText ''false''])],
      [Some (templateFuncs exampleMarshal, [TText ''echo'']),
       Some (templateFuncs exampleMarshal, [TText ''done''])]]"
  "envTemplate falseEchoHook = []" "dirTemplate falseEchoHook = None"
  "Timeout falseEchoHook = 5" "PerCommit falseEchoHook = False"
  by (simp_all add: falseEchoHook_def example_defs)

lemma sleepEchoHook_compiled:
  "cmdTemplate sleepEchoHook =
     [[Some (templateFuncs exampleMarshal, [TText ''sleep'']),
       Some (templateFuncs exampleMarshal, [TText ''5''])],
      [Some (templateFuncs exampleMarshal, [TText ''echo'']),
       Some (templateFuncs exampleMarshal, [TText ''done''])]]"
  "envTemplate sleepEchoHook = []" "dirTemplate sleepEchoHook = None"
  "Timeout sleepEchoHook = 1" "PerCommit sleepEchoHook = False"
  by (simp_all add: sleepEchoHook_def example_defs)

lemmas run_defs =
  processEvent_def renderDir_def runCommand_def timerDuration_def exampleExecute_def execNode_def
  exampleLookPath_def exampleRace_def evalChain_def printValue_def

lemma unresolvableHook_run:
  "processEvent exampleLib unresolvableHook Map.empty []
     = (Err (ExecutableError ''nosuch'' ''executable file not found in $PATH''),
        [EnterUnit None, LookPath ''nosuch''])"
  by (simp add: run_defs exampleLib_def unresolvableHook_compiled)

lemma falseEchoHook_run:
  "processEvent exampleLib falseEchoHook Map.empty []
     = (Ok (),
        [EnterUnit None, LookPath ''false'', LookPath ''echo'',
         Log Info ''Running'', Start [''/bin/false''] None '''',
         Log Info ''Running'', Start [''/bin/echo'', ''done''] None ''''])"
  by (simp add: run_defs exampleLib_def falseEchoHook_compiled)

lemma sleepEchoHook_run:
  "processEvent exampleLib sleepEchoHook Map.empty []
     = (Err (CommandTimedOut [''/bin/sleep'', ''5'']),
        [EnterUnit None, LookPath ''sleep'', LookPath ''echo'',
         Log Info ''Running'', Start [''/bin/sleep'', ''5''] None '''',
         Kill [''/bin/sleep'', ''5'']])"
  by (simp add: run_defs exampleLib_def sleepEchoHook_compiled)

lemma badFieldHook_compiled:
  "cmdTemplate badFieldHook =
     [[Some (templateFuncs exampleMarshal, [TText ''echo'']),
       Some (templateFuncs exampleMarshal, [TText ''hi''])],
      [Some (templateFuncs exampleMarshal, [TText ''echo'']),
       Some (templateFuncs exampleMarshal, [TText '''', TField [''ref'', ''x''], TText ''''])],
      [Some (templateFuncs exampleMarshal, [TText ''echo'']),
       Some (templateFuncs exampleMarshal, [TText ''late''])]]"
  "envTemplate badFieldHook = []" "dirTemplate badFieldHook = None"
  "Timeout badFieldHook = 5" "PerCommit badFieldHook = False"
  by (simp_all add: badFieldHook_def example_defs)

lemma lateUnresolvableHook_compiled:
  "cmdTemplate lateUnresolvableHook =
     [[Some (templateFuncs exampleMarshal, [TText ''echo'']),
       Some (templateFuncs exampleMarshal, [TText ''hi''])],
      [Some (templateFuncs exampleMarshal, [TText ''nosuch''])],
      [Some (templateFuncs exampleMarshal, [TText ''echo'']),
       Some (templateFuncs exampleMarshal, [TText ''late''])]]"
  "envTemplate lateUnresolvableHook = []" "dirTemplate lateUnresolvableHook = None"
  "Timeout lateUnresolvableHook = 5" "PerCommit lateUnresolvableHook = False"
  by (simp_all add: lateUnresolvableHook_def example_defs)

lemma echoSleepEchoHook_compiled:
  "cmdTemplate echoSleepEchoHook =
     [[Some (templateFuncs exampleMarshal, [TText ''echo'']),
       Some (templateFuncs exampleMarshal, [TText ''first''])],
      [Some (templateFuncs exampleMarshal, [TText ''sleep'']),
       Some (templateFuncs exampleMarshal, [TText ''5''])],
      [Some (templateFuncs exampleMarshal, [TText ''echo'']),
       Some (templateFuncs exampleMarshal, [TText ''late''])]]"
  "envTemplate echoSleepEchoHook = []" "dirTemplate echoSleepEchoHook = None"
  "Timeout echoSleepEchoHook = 1" "PerCommit echoSleepEchoHook = False"
  "AllowEvent echoSleepEchoHook = []" "AllowPipelineStatus echoSleepEchoHook = []"
  "AllowBranches echoSleepEchoHook = []"
  by (simp_all add: echoSleepEchoHook_def example_defs)

section \<open>From a cause to the result of the unit\<close>

lemma processCommand_render_failure:
  "processCommand lib e a1 = Ok outs \<Longrightarrow> texecute lib t e = (out, Some m) \<Longrightarrow>
     processCommand lib e (a1 @ Some t # a2) = Err (RenderError m)"
proof (induction a1 arbitrary: outs)
  case Nil
  then show ?case by simp
next
  case (Cons a a1)
  from Cons.prems(1) obtain t' where a: "a = Some t'" by (cases a) auto
  obtain o' r' where x: "texecute lib t' e = (o', r')" by (cases "texecute lib t' e") auto
  from Cons.prems(1) a x have r': "r' = None" by (cases r') auto
  from Cons.prems(1) a x r' obtain rest where rest: "processCommand lib e a1 = Ok rest"
    by (cases "processCommand lib e a1") auto
  from Cons.IH[OF rest Cons.prems(2)] a x r' show ?case by simp
qed

lemma prepareCommands_Cons_Ok:
  assumes "prepareCommands lib e (t # ts) w = (Ok cmds, w')"
  obtains name args p rest where
    "processCommand lib e t = Ok (name # args)" "lookPath lib name = Inr p"
    "prepareCommands lib e ts (w @ [LookPath name]) = (Ok rest, w')" "cmds = (p # args) # rest"
proof (cases "processCommand lib e t")
  case (Err x)
  from assms show ?thesis unfolding prepareCommands_stop(1)[OF Err] by simp
next
  case (Panic q)
  from assms show ?thesis unfolding prepareCommands_stop(2)[OF Panic] by simp
next
  case (Ok cmd)
  show ?thesis
  proof (cases cmd)
    case Nil
    from assms show ?thesis unfolding prepareCommands_stop(3)[OF Ok[unfolded Nil]] by simp
  next
    case c: (Cons name args)
    show ?thesis
    proof (cases "lookPath lib name")
      case (Inl err)
      from assms show ?thesis unfolding prepareCommands_stop(4)[OF Ok[unfolded c] Inl] by simp
    next
      case (Inr p)
      obtain r1 w1 where rec: "prepareCommands lib e ts (w @ [LookPath name]) = (r1, w1)"
        by (cases "prepareCommands lib e ts (w @ [LookPath name])") auto
      have step: "(Ok cmds, w') =
         ((case r1 of Ok rest \<Rightarrow> Ok ((p # args) # rest) | Err x \<Rightarrow> Err x | Panic q \<Rightarrow> Panic q), w1)"
        using assms[symmetric] unfolding prepareCommands_step[OF Ok[unfolded c] Inr rec] .
      then obtain rest where "r1 = Ok rest" "cmds = (p # args) # rest" "w' = w1"
        by (cases r1) simp_all
      with that[OF Ok[unfolded c] Inr] rec show ?thesis by simp
    qed
  qed
qed

lemma prepareCommands_append:
  "prepareCommands lib e pre w = (Ok cmds, w1) \<Longrightarrow> prepareCommands lib e ts w1 = (r, w2) \<Longrightarrow>
     prepareCommands lib e (pre @ ts) w =
       ((case r of Ok rest \<Rightarrow> Ok (cmds @ rest) | Err x \<Rightarrow> Err x | Panic q \<Rightarrow> Panic q), w2)"
proof (induction pre arbitrary: w cmds)
  case Nil
  then show ?case by (cases r) simp_all
next
  case (Cons t pre)
  from Cons.prems(1) obtain name args p rest where f:
    "processCommand lib e t = Ok (name # args)" "lookPath lib name = Inr p"
    "prepareCommands lib e pre (w @ [LookPath name]) = (Ok rest, w1)" "cmds = (p # args) # rest"
    by (rule prepareCommands_Cons_Ok)
  note ih = Cons.IH[OF f(3) Cons.prems(2)]
  have "prepareCommands lib e (t # (pre @ ts)) w =
     ((case (case r of Ok rest' \<Rightarrow> Ok (rest @ rest') | Err x \<Rightarrow> Err x | Panic q \<Rightarrow> Panic q) of
         Ok rest' \<Rightarrow> Ok ((p # args) # rest') | Err x \<Rightarrow> Err x | Panic q \<Rightarrow> Panic q), w2)"
    by (rule prepareCommands_step[OF f(1) f(2) ih])
  then show ?case using f(4) by (cases r) simp_all
qed

lemma prepareCommands_Ok_commands:
  "prepareCommands lib e ts w = (Ok cmds, w') \<Longrightarrow>
     \<exists>ns. w' = w @ map LookPath ns \<and> length ns = length ts \<and> length cmds = length ts
       \<and> map (processCommand lib e) ts = map (\<lambda>(n, c). Ok (n # tl c)) (zip ns cmds)
       \<and> map (lookPath lib) ns = map (\<lambda>c. Inr (hd c)) cmds
       \<and> [] \<notin> set cmds"
proof (induction ts arbitrary: w cmds)
  case Nil
  then show ?case by simp
next
  case (Cons t ts)
  from Cons.prems obtain name args p rest where f:
    "processCommand lib e t = Ok (name # args)" "lookPath lib name = Inr p"
    "prepareCommands lib e ts (w @ [LookPath name]) = (Ok rest, w')" "cmds = (p # args) # rest"
    by (rule prepareCommands_Cons_Ok)
  from Cons.IH[OF f(3)] obtain ns where ns:
    "w' = (w @ [LookPath name]) @ map LookPath ns" "length ns = length ts"
    "length rest = length ts"
    "map (processCommand lib e) ts = map (\<lambda>(n, c). Ok (n # tl c)) (zip ns rest)"
    "map (lookPath lib) ns = map (\<lambda>c. Inr (hd c)) rest" "[] \<notin> set rest"
    by (elim exE conjE) (rule that)
  show ?case
    by (rule exI[of _ "name # ns"]) (simp add: ns f)
qed

lemma processEvent_prepared:
  assumes "renderDir lib e (dirTemplate hook) = Ok d" "renderEnv lib e (envTemplate hook) = Ok env"
    "prepareCommands lib e (cmdTemplate hook) (w @ [EnterUnit (e ''commit'')]) = (rp, w1)"
  shows "processEvent lib hook e w =
           (case rp of Ok cmds \<Rightarrow> runCommands lib hook cmds env d w1
            | Err x \<Rightarrow> (Err x, w1) | Panic q \<Rightarrow> (Panic q, w1))"
  using assms by (cases rp) (simp_all add: processEvent_def Let_def)

lemma starts_runLog: "starts (runLog cmds env dir) = cmds"
  by (induction cmds) simp_all

lemma kills_runLog: "kills (runLog cmds env dir) = []"
  by (induction cmds) simp_all

lemma runCommands_done_until:
  assumes "[] \<notin> set cmds" "k \<le> length cmds"
    and "\<forall>j<k. \<exists>c. osRace lib (w @ runLog (take (Suc j) cmds) env dir) (timerDuration hook) = Done c"
  shows "runCommands lib hook cmds env dir w =
           runCommands lib hook (drop k cmds) env dir (w @ runLog (take k cmds) env dir)"
  using assms
proof (induction k arbitrary: cmds w)
  case 0
  then show ?case by simp
next
  case (Suc k)
  from Suc.prems(2) obtain cmd rest where c: "cmds = cmd # rest" by (cases cmds) auto
  with Suc.prems have ne: "cmd \<noteq> []" "[] \<notin> set rest" "k \<le> length rest" by auto
  let ?s = "[Log Info ''Running'', Start cmd (if env = [] then None else Some env) dir]"
  from Suc.prems(3) c have "\<exists>c. osRace lib (w @ ?s) (timerDuration hook) = Done c"
    by (auto dest: spec[of _ 0])
  then obtain x where x: "osRace lib (w @ ?s) (timerDuration hook) = Done x" by blast
  have rc: "runCommand lib hook cmd env dir w = (Ok (), w @ ?s)"
    using runCommand_unfold[OF ne(1), of lib hook env dir w] x by simp
  have later: "\<forall>j<k. \<exists>c. osRace lib ((w @ ?s) @ runLog (take (Suc j) rest) env dir)
                             (timerDuration hook) = Done c"
  proof (intro allI impI)
    fix j assume "j < k"
    then have "Suc j < Suc k" by simp
    with Suc.prems(3) have "\<exists>c. osRace lib (w @ runLog (take (Suc (Suc j)) cmds) env dir)
                                   (timerDuration hook) = Done c" by blast
    then show "\<exists>c. osRace lib ((w @ ?s) @ runLog (take (Suc j) rest) env dir)
                             (timerDuration hook) = Done c" using c by simp
  qed
  from Suc.IH[OF ne(2) ne(3) later] rc c show ?case by simp
qed

lemma runCommands_timeout_at:
  assumes "[] \<notin> set cmds" "k < length cmds"
    and "\<forall>j<k. \<exists>c. osRace lib (w @ runLog (take (Suc j) cmds) env dir) (timerDuration hook) = Done c"
    and "osRace lib (w @ runLog (take (Suc k) cmds) env dir) (timerDuration hook) = TimerFired True"
  shows "runCommands lib hook cmds env dir w =
           (Err (CommandTimedOut (cmds ! k)),
            w @ runLog (take (Suc k) cmds) env dir @ [Kill (cmds ! k)])"
proof -
  from assms(2) have le: "k \<le> length cmds" by simp
  from assms(2) have d: "drop k cmds = cmds ! k # drop (Suc k) cmds"
    by (simp add: Cons_nth_drop_Suc)
  from assms(1,2) have ne: "cmds ! k \<noteq> []" by (metis nth_mem)
  let ?w = "w @ runLog (take k cmds) env dir"
  let ?s = "[Log Info ''Running'', Start (cmds ! k) (if env = [] then None else Some env) dir]"
  have rl: "runLog (take (Suc k) cmds) env dir = runLog (take k cmds) env dir @ ?s"
    using assms(2)
  proof (induction k arbitrary: cmds)
    case 0
    then show ?case by (cases cmds) simp_all
  next
    case (Suc k)
    then show ?case by (cases cmds) simp_all
  qed
  have "osRace lib (?w @ ?s) (timerDuration hook) = TimerFired True" using assms(4) rl by simp
  then have "runCommand lib hook (cmds ! k) env dir ?w
               = (Err (CommandTimedOut (cmds ! k)), (?w @ ?s) @ [Kill (cmds ! k)])"
    using runCommand_unfold[OF ne, of lib hook env dir ?w] by simp
  then have "runCommands lib hook (drop k cmds) env dir ?w
               = (Err (CommandTimedOut (cmds ! k)), (?w @ ?s) @ [Kill (cmds ! k)])"
    unfolding d by simp
  with runCommands_done_until[OF assms(1) le assms(3)] rl show ?thesis by simp
qed

lemma runCommands_all_done_at:
  assumes "[] \<notin> set cmds"
    and "\<forall>j<length cmds. \<exists>c. osRace lib (w @ runLog (take (Suc j) cmds) env dir)
                                   (timerDuration hook) = Done c"
  shows "runCommands lib hook cmds env dir w = (Ok (), w @ runLog cmds env dir)"
  using runCommands_done_until[OF assms(1) le_refl assms(2)] by simp

lemma dispatch_logs_error:
  assumes "\<not> PerCommit hook" "processEvent lib hook e w = (Err x, w')"
  shows "dispatch lib hook e w
           = (None, e, w' @ Log Error ''Error processing %s: %s\<newline>''
                            # (if verbose lib then [Log Info ''%v''] else []))"
  using assms by (simp add: dispatch_def logFailure_def Let_def)

section \<open>Indexing the first argument\<close>

lemma compileArgs_length:
  "compileArgs lib args = Inr ts \<Longrightarrow> length ts = length args"
  by (induction args arbitrary: ts) (auto split: sum.splits)

lemma compileCommands_lengths:
  "compileCommands lib cs = Inr cts \<Longrightarrow> map length cts = map length cs"
  by (induction cs arbitrary: cts) (auto split: sum.splits dest: compileArgs_length)

lemma compileDir_cmdTemplate:
  "cmdTemplate (snd (compileDir lib h)) = cmdTemplate h"
  by (simp add: compileDir_def split: sum.splits)

lemma CreateTemplates_lengths:
  assumes "fst (CreateTemplates lib cfg) = None"
  shows "map length (cmdTemplate (snd (CreateTemplates lib cfg))) = map length (Commands cfg)"
proof (cases "compileCommands lib (Commands cfg)")
  case (Inl err)
  with assms show ?thesis by (simp add: CreateTemplates_def)
next
  case (Inr cts)
  have "cmdTemplate (snd (CreateTemplates lib cfg)) = cts"
    using Inr
    by (simp add: CreateTemplates_def Let_def compileDir_cmdTemplate
             split: prod.splits option.splits)
  with compileCommands_lengths[OF Inr] show ?thesis by simp
qed

lemma processEvent_no_index_panic:
  assumes "[] \<notin> set (cmdTemplate hook)"
  shows "fst (processEvent lib hook e w) \<noteq> Panic IndexOutOfRange"
proof -
  obtain r w' where run: "processEvent lib hook e w = (r, w')"
    by (cases "processEvent lib hook e w") auto
  from run have "r \<noteq> Panic IndexOutOfRange"
  proof (cases rule: processEvent_cases)
    case early
    then show ?thesis by auto
  next
    case (prepare d env rp)
    show ?thesis
    proof
      assume r: "r = Panic IndexOutOfRange"
      with prepare(4) have "rp = Panic IndexOutOfRange" by auto
      with prepare(3) prepareCommands_Panic[of lib e "cmdTemplate hook" _ IndexOutOfRange w'] assms
      show False by auto
    qed
  next
    case (run d env cmds w1)
    from prepareCommands_result[OF run(3)] have "[] \<notin> set cmds" by auto
    from runCommands_result[OF this run(4)] show ?thesis by auto
  qed
  with run show ?thesis by simp
qed

lemma prepareCommands_reaches_empty:
  "fst (prepareCommands lib e pre w) = Ok cmds \<Longrightarrow>
     fst (prepareCommands lib e (pre @ [] # rest) w) = Panic IndexOutOfRange"
proof (induction pre arbitrary: w cmds)
  case Nil
  show ?case by simp
next
  case (Cons t ts)
  show ?case
  proof (cases "processCommand lib e t")
    case (Err x)
    with Cons.prems show ?thesis by simp
  next
    case (Panic p)
    with Cons.prems show ?thesis by simp
  next
    case (Ok cmd)
    show ?thesis
    proof (cases cmd)
      case Nil
      with Ok Cons.prems show ?thesis by simp
    next
      case c: (Cons name args)
      show ?thesis
      proof (cases "lookPath lib name")
        case (Inl err)
        with Ok c Cons.prems show ?thesis by simp
      next
        case (Inr execPath)
        obtain r1 w1 where rec: "prepareCommands lib e ts (w @ [LookPath name]) = (r1, w1)"
          by (cases "prepareCommands lib e ts (w @ [LookPath name])") auto
        obtain r2 w2 where rec2:
          "prepareCommands lib e (ts @ [] # rest) (w @ [LookPath name]) = (r2, w2)"
          by (cases "prepareCommands lib e (ts @ [] # rest) (w @ [LookPath name])") auto
        have "fst (prepareCommands lib e (t # ts) w) =
           (case r1 of Ok rest \<Rightarrow> Ok ((execPath # args) # rest) | Err x \<Rightarrow> Err x | Panic p \<Rightarrow> Panic p)"
          unfolding prepareCommands_step[OF Ok[unfolded c] Inr rec] by simp
        with Cons.prems obtain cs where "r1 = Ok cs" by (cases r1) simp_all
        with rec have "fst (prepareCommands lib e ts (w @ [LookPath name])) = Ok cs" by simp
        from Cons.IH[OF this] rec2 have r2: "r2 = Panic IndexOutOfRange" by simp
        have "prepareCommands lib e ((t # ts) @ [] # rest) w =
           ((case r2 of Ok rest \<Rightarrow> Ok ((execPath # args) # rest) | Err x \<Rightarrow> Err x | Panic p \<Rightarrow> Panic p), w2)"
          using prepareCommands_step[OF Ok[unfolded c] Inr rec2] by simp
        with r2 show ?thesis by simp
      qed
    qed
  qed
qed

text \<open>
  C10. \<open>processEvent\<close> reads \<^verbatim>\<open>cmds[i][0]\<close> and \<open>runCommand\<close> reads \<^verbatim>\<open>args[0]\<close> unguarded. When
  every command of the Hook has at least one argument (in \<open>Commands\<close>, hence in the compiled
  table, which keeps the lengths), no dispatch panics on an index. A command without arguments
  is rendered to the empty list, and a dispatch that gets as far as that command (directory,
  environment and the commands before it prepared without error) panics with an index out of
  range; so does \<open>runCommand\<close> on an empty argument list.
\<close>

theorem first_argument_needs_nonempty_command:
  "(fst (CreateTemplates lib cfg) = None \<and> [] \<notin> set (Commands cfg) \<longrightarrow>
      fst (processEvent lib (snd (CreateTemplates lib cfg)) e w) \<noteq> Panic IndexOutOfRange)
   \<and> ([] \<notin> set (cmdTemplate hook) \<longrightarrow>
      fst (processEvent lib hook e w) \<noteq> Panic IndexOutOfRange)
   \<and> (renderDir lib e (dirTemplate hook) = Ok d \<and> renderEnv lib e (envTemplate hook) = Ok env
        \<and> cmdTemplate hook = pre @ [] # rest
        \<and> fst (prepareCommands lib e pre (w @ [EnterUnit (e ''commit'')])) = Ok cmds \<longrightarrow>
      fst (processEvent lib hook e w) = Panic IndexOutOfRange)
   \<and> fst (runCommand lib hook [] env dir w) = Panic IndexOutOfRange"
proof (intro conjI impI)
  assume a: "fst (CreateTemplates lib cfg) = None \<and> [] \<notin> set (Commands cfg)"
  then have "map length (cmdTemplate (snd (CreateTemplates lib cfg))) = map length (Commands cfg)"
    using CreateTemplates_lengths by blast
  moreover have "0 \<notin> set (map length (Commands cfg))" using a by auto
  ultimately have "0 \<notin> set (map length (cmdTemplate (snd (CreateTemplates lib cfg))))" by simp
  then have "[] \<notin> set (cmdTemplate (snd (CreateTemplates lib cfg)))" by auto
  then show "fst (processEvent lib (snd (CreateTemplates lib cfg)) e w) \<noteq> Panic IndexOutOfRange"
    by (rule processEvent_no_index_panic)
next
  assume "[] \<notin> set (cmdTemplate hook)"
  then show "fst (processEvent lib hook e w) \<noteq> Panic IndexOutOfRange"
    by (rule processEvent_no_index_panic)
next
  assume a: "renderDir lib e (dirTemplate hook) = Ok d \<and> renderEnv lib e (envTemplate hook) = Ok env
        \<and> cmdTemplate hook = pre @ [] # rest
        \<and> fst (prepareCommands lib e pre (w @ [EnterUnit (e ''commit'')])) = Ok cmds"
  then have "fst (prepareCommands lib e (pre @ [] # rest) (w @ [EnterUnit (e ''commit'')]))
                  = Panic IndexOutOfRange"
    by (intro prepareCommands_reaches_empty[of lib e pre _ cmds rest]) simp
  with a have p: "fst (prepareCommands lib e (cmdTemplate hook) (w @ [EnterUnit (e ''commit'')]))
                  = Panic IndexOutOfRange" by simp
  obtain rp w1 where rp:
    "prepareCommands lib e (cmdTemplate hook) (w @ [EnterUnit (e ''commit'')]) = (rp, w1)"
    by (cases "prepareCommands lib e (cmdTemplate hook) (w @ [EnterUnit (e ''commit'')])") auto
  with p have "rp = Panic IndexOutOfRange" by simp
  with a rp show "fst (processEvent lib hook e w) = Panic IndexOutOfRange"
    by (simp add: processEvent_def Let_def)
next
  show "fst (runCommand lib hook [] env dir w) = Panic IndexOutOfRange"
    by (simp add: runCommand_def)
qed

theorem first_argument_needs_nonempty_command_witness:
  "fst (CreateTemplates exampleLib
          (emptyHook\<lparr>Commands := [[''sleep'', ''5''], [''echo'', ''done'']], Timeout := 1\<rparr>)) = None
   \<and> [] \<notin> set (Commands
          (emptyHook\<lparr>Commands := [[''sleep'', ''5''], [''echo'', ''done'']], Timeout := 1\<rparr>))
   \<and> fst (processEvent exampleLib
            (snd (CreateTemplates exampleLib
               (emptyHook\<lparr>Commands := [[''sleep'', ''5''], [''echo'', ''done'']], Timeout := 1\<rparr>)))
            Map.empty []) \<noteq> Panic IndexOutOfRange
   \<and> Commands emptyCommandHook = [[''echo'', ''hi''], []]
   \<and> renderDir exampleLib Map.empty (dirTemplate emptyCommandHook) = Ok ''''
   \<and> renderEnv exampleLib Map.empty (envTemplate emptyCommandHook) = Ok []
   \<and> cmdTemplate emptyCommandHook
        = [[Some (templateFuncs exampleMarshal, [TText ''echo'']),
            Some (templateFuncs exampleMarshal, [TText ''hi''])]] @ [] # []
   \<and> fst (prepareCommands exampleLib Map.empty
            [[Some (templateFuncs exampleMarshal, [TText ''echo'']),
              Some (templateFuncs exampleMarshal, [TText ''hi''])]]
            ([] @ [EnterUnit (Map.empty ''commit'')])) = Ok [[''/bin/echo'', ''hi'']]
   \<and> fst (processEvent exampleLib emptyCommandHook Map.empty []) = Panic IndexOutOfRange"
proof -
  let ?cfg = "emptyHook\<lparr>Commands := [[''sleep'', ''5''], [''echo'', ''done'']], Timeout := 1\<rparr>"
  let ?pre = "[[Some (templateFuncs exampleMarshal, [TText ''echo'']),
                Some (templateFuncs exampleMarshal, [TText ''hi''])]]"
  have a: "fst (CreateTemplates exampleLib ?cfg) = None" "[] \<notin> set (Commands ?cfg)"
    by (simp_all add: example_defs)
  have b: "Commands emptyCommandHook = [[''echo'', ''hi''], []]"
    "renderDir exampleLib Map.empty (dirTemplate emptyCommandHook) = Ok ''''"
    "renderEnv exampleLib Map.empty (envTemplate emptyCommandHook) = Ok []"
    "cmdTemplate emptyCommandHook = ?pre @ [] # []"
    by (simp_all add: emptyCommandHook_def example_defs renderDir_def)
  have c: "fst (prepareCommands exampleLib Map.empty ?pre ([] @ [EnterUnit (Map.empty ''commit'')]))
             = Ok [[''/bin/echo'', ''hi'']]"
    by (simp add: run_defs exampleLib_def)
  note t = first_argument_needs_nonempty_command
     [where lib = exampleLib and cfg = ?cfg and e = Map.empty and w = "[]"
        and hook = emptyCommandHook and d = "''''" and env = "[]" and pre = ?pre
        and rest = "[]" and cmds = "[[''/bin/echo'', ''hi'']]"]
  from t a have 1: "fst (processEvent exampleLib (snd (CreateTemplates exampleLib ?cfg)) Map.empty [])
                     \<noteq> Panic IndexOutOfRange" by blast
  from t b c have 2: "fst (processEvent exampleLib emptyCommandHook Map.empty []) = Panic IndexOutOfRange"
    by blast
  from a b c 1 2 show ?thesis by blast
qed

section \<open>The loop over the commits\<close>

lemma compileArgs_populated:
  "compileArgs lib args = Inr ts \<Longrightarrow> None \<notin> set ts"
  by (induction args arbitrary: ts) (auto split: sum.splits)

lemma compileCommands_populated:
  "compileCommands lib cs = Inr cts \<Longrightarrow> \<forall>t \<in> set cts. None \<notin> set t"
  by (induction cs arbitrary: cts) (auto split: sum.splits dest: compileArgs_populated)

lemma compileEnv_populated:
  "compileEnv lib envs = (ets, None) \<Longrightarrow> None \<notin> set ets"
  by (induction envs arbitrary: ets) (auto split: sum.splits prod.splits)

lemma compileDir_keeps:
  "envTemplate (snd (compileDir lib h)) = envTemplate h"
  by (simp add: compileDir_def split: sum.splits)

lemma CreateTemplates_wellCompiled:
  assumes "fst (CreateTemplates lib cfg) = None" "[] \<notin> set (Commands cfg)"
  shows "wellCompiled (snd (CreateTemplates lib cfg))"
proof (cases "compileCommands lib (Commands cfg)")
  case (Inl err)
  with assms show ?thesis by (simp add: CreateTemplates_def)
next
  case (Inr cts)
  have c: "cmdTemplate (snd (CreateTemplates lib cfg)) = cts"
    using Inr
    by (simp add: CreateTemplates_def Let_def compileDir_cmdTemplate
             split: prod.splits option.splits)
  have "map length cts = map length (Commands cfg)" by (rule compileCommands_lengths[OF Inr])
  moreover have "0 \<notin> set (map length (Commands cfg))" using assms(2) by auto
  ultimately have "0 \<notin> set (map length cts)" by simp
  then have ne: "[] \<notin> set cts" by auto
  have pop: "\<forall>t \<in> set cts. None \<notin> set t" by (rule compileCommands_populated[OF Inr])
  have env: "None \<notin> set (envTemplate (snd (CreateTemplates lib cfg)))"
  proof (cases "Env cfg = []")
    case True
    with Inr show ?thesis by (simp add: CreateTemplates_def Let_def compileDir_keeps)
  next
    case False
    obtain ets r where ce: "compileEnv lib (Env cfg) = (ets, r)"
      by (cases "compileEnv lib (Env cfg)") auto
    show ?thesis
    proof (cases r)
      case None
      with ce compileEnv_populated have "None \<notin> set ets" by blast
      with Inr False ce None show ?thesis
        by (simp add: CreateTemplates_def Let_def compileDir_keeps)
    next
      case (Some err)
      with Inr False ce assms(1) show ?thesis by (simp add: CreateTemplates_def Let_def)
    qed
  qed
  from c ne pop env show ?thesis by (simp add: wellCompiled_def)
qed

lemma runCommands_no_panic:
  assumes "\<forall>tr. osRace lib tr (timerDuration hook) \<noteq> TimerFired False" "[] \<notin> set cmds"
  shows "fst (runCommands lib hook cmds env dir w) \<noteq> Panic p"
  using assms(2)
proof (induction cmds arbitrary: w)
  case Nil
  then show ?case by simp
next
  case (Cons cmd rest)
  let ?w2 = "w @ [Log Info ''Running'', Start cmd (if env = [] then None else Some env) dir]"
  from Cons.prems have ne: "cmd \<noteq> []" "[] \<notin> set rest" by auto
  note u = runCommand_unfold[OF ne(1), of lib hook env dir w]
  show ?case
  proof (cases "osRace lib ?w2 (timerDuration hook)")
    case (Done c)
    with u have "runCommand lib hook cmd env dir w = (Ok (), ?w2)" by simp
    then have "runCommands lib hook (cmd # rest) env dir w = runCommands lib hook rest env dir ?w2"
      by simp
    with Cons.IH[OF ne(2)] show ?thesis by simp
  next
    case (TimerFired started)
    with assms(1) have "started" by (cases started) auto
    with u TimerFired
    have "runCommand lib hook cmd env dir w = (Err (CommandTimedOut cmd), ?w2 @ [Kill cmd])"
      by simp
    then show ?thesis by simp
  qed
qed

lemma processEvent_no_panic:
  assumes "wellCompiled hook" "\<forall>tr. osRace lib tr (timerDuration hook) \<noteq> TimerFired False"
  shows "fst (processEvent lib hook e w) \<noteq> Panic p"
proof -
  obtain r w' where run: "processEvent lib hook e w = (r, w')"
    by (cases "processEvent lib hook e w") auto
  from run have "r \<noteq> Panic p"
  proof (cases rule: processEvent_cases)
    case early
    with assms(1) show ?thesis by (auto simp: wellCompiled_def)
  next
    case (prepare d env rp)
    show ?thesis
    proof
      assume "r = Panic p"
      with prepare(4) have "rp = Panic p" by auto
      with prepare(3) prepareCommands_Panic[of lib e "cmdTemplate hook" _ p w'] assms(1)
      show False by (auto simp: wellCompiled_def)
    qed
  next
    case (run d env cmds w1)
    from prepareCommands_result[OF run(3)] have "[] \<notin> set cmds" by auto
    from runCommands_no_panic[OF assms(2) this, of env d w1 p] run(4) show ?thesis by simp
  qed
  with run show ?thesis by simp
qed

lemma processEvent_units:
  assumes "processEvent lib hook e w = (r, w')"
  shows "\<exists>ext. w' = w @ ext \<and> units ext = [e ''commit'']"
  using assms
proof (cases rule: processEvent_cases)
  case early
  show ?thesis by (rule exI[of _ "[EnterUnit (e ''commit'')]"]) (use early in simp)
next
  case (prepare d env rp)
  from prepareCommands_result[OF prepare(3)] obtain ns where
    "w' = (w @ [EnterUnit (e ''commit'')]) @ map LookPath ns" by blast
  then show ?thesis
    by (intro exI[of _ "EnterUnit (e ''commit'') # map LookPath ns"]) (simp add: units_lookPaths)
next
  case (run d env cmds w1)
  from prepareCommands_result[OF run(3)] obtain ns where ns:
    "w1 = (w @ [EnterUnit (e ''commit'')]) @ map LookPath ns" "[] \<notin> set cmds" by auto
  from runCommands_result[OF ns(2) run(4)] obtain post where
    "w' = w1 @ post" "units post = []" by blast
  with ns(1) show ?thesis
    by (intro exI[of _ "EnterUnit (e ''commit'') # map LookPath ns @ post"])
       (simp add: units_lookPaths units_append)
qed

lemma logFailure_units:
  "\<exists>l. logFailure lib w = w @ l \<and> units l = []"
  by (cases "verbose lib") (simp_all add: logFailure_def Let_def)

lemma commitLoop_maps:
  assumes "wellCompiled hook" "\<forall>tr. osRace lib tr (timerDuration hook) \<noteq> TimerFired False"
  shows "\<exists>ext. commitLoop lib hook (map GMap cs) e w
                 = (None, (if cs = [] then e else e(''commit'' \<mapsto> GMap (last cs))), w @ ext)
               \<and> units ext = map (\<lambda>c. Some (GMap c)) cs"
proof (induction cs arbitrary: e w)
  case Nil
  show ?case by simp
next
  case (Cons c cs)
  let ?e1 = "e(''commit'' \<mapsto> GMap c)"
  obtain r w1 where run: "processEvent lib hook ?e1 w = (r, w1)"
    by (cases "processEvent lib hook ?e1 w") auto
  from processEvent_units[OF run] obtain x1 where x1: "w1 = w @ x1" "units x1 = [Some (GMap c)]"
    by auto
  from processEvent_no_panic[OF assms, of ?e1 w] run have np: "\<And>p. r \<noteq> Panic p" by simp
  obtain w2 x2 where w2: "w2 = (case r of Err err \<Rightarrow> logFailure lib w1 | _ \<Rightarrow> w1)"
    "w2 = w1 @ x2" "units x2 = []"
    using logFailure_units[of lib w1] by (cases r) auto
  have step: "commitLoop lib hook (map GMap (c # cs)) e w = commitLoop lib hook (map GMap cs) ?e1 w2"
  proof (cases r)
    case (Ok u)
    with run w2(1) show ?thesis by simp
  next
    case (Err err)
    with run w2(1) show ?thesis by simp
  next
    case (Panic p)
    with np show ?thesis by blast
  qed
  from Cons.IH[of ?e1 w2] obtain x3 where x3:
    "commitLoop lib hook (map GMap cs) ?e1 w2
       = (None, (if cs = [] then ?e1 else ?e1(''commit'' \<mapsto> GMap (last cs))), w2 @ x3)"
    "units x3 = map (\<lambda>c. Some (GMap c)) cs" by blast
  have ev: "(if cs = [] then ?e1 else ?e1(''commit'' \<mapsto> GMap (last cs)))
          = (if c # cs = [] then e else e(''commit'' \<mapsto> GMap (last (c # cs))))" by simp
  have "commitLoop lib hook (map GMap (c # cs)) e w
          = (None, (if c # cs = [] then e else e(''commit'' \<mapsto> GMap (last (c # cs)))),
             w @ (x1 @ x2 @ x3))"
    unfolding step x3(1) ev[symmetric] using x1(1) w2(2) by simp
  moreover have "units (x1 @ x2 @ x3) = map (\<lambda>c. Some (GMap c)) (c # cs)"
    using x1(2) w2(3) x3(2) by (simp add: units_append)
  ultimately show ?case by blast
qed

lemma Execute_accepted:
  "checkEventType hook e = None \<Longrightarrow> checkPipelineStatus hook e = None \<Longrightarrow>
   checkBranch hook e = None \<Longrightarrow> Execute lib hook e w = dispatch lib hook e w"
  by (simp add: Execute_def)

text \<open>
  C3 (as amended). Take a per-commit Hook whose compiled templates hold no nil entry and whose
  commands have at least one argument each (the state that \<open>CreateTemplates\<close> leaves after it
  has loaded, without error, a Hook whose commands have an argument each), and an environment
  in which a timer never fires on a process that failed to start. When the Event passes the filters and yields a commit list of
  \<open>n\<close> mapping records, \<open>Execute\<close> enters the render-and-run unit exactly \<open>n\<close> times, in list
  order, and at its \<open>k\<close>-th entry the Event holds the \<open>k\<close>-th record under \<^verbatim>\<open>commit\<close>. When a
  unit returns an error (a render, resolution or timeout error; an exit status is never an
  error), be it the first unit of \<open>Execute\<close> or the unit at any later state of the loop, the
  error is logged after the trace of that unit and the loop goes on to enter one unit for each
  remaining record. Without the two preconditions a unit can panic, which ends the program
  before the remaining records are attempted.
\<close>

theorem per_commit_units_in_order:
  assumes "PerCommit hook"
    and "checkEventType hook e = None" "checkPipelineStatus hook e = None"
        "checkBranch hook e = None"
    and "commits lib e = Some (map GMap cs)"
    and "wellCompiled hook" "\<forall>tr. osRace lib tr (timerDuration hook) \<noteq> TimerFired False"
  shows "(\<exists>e' ext. Execute lib hook e w = (None, e', w @ ext)
           \<and> units ext = map (\<lambda>c. Some (GMap c)) cs
           \<and> length (units ext) = length cs)
     \<and> (cs = c # rest \<and> processEvent lib hook (e(''commit'' \<mapsto> GMap c)) w = (Err x, w1) \<longrightarrow>
          (\<exists>e' ext. Execute lib hook e w
                       = (None, e', w1 @ Log Error ''Error processing %s: %s\<newline>''
                                       # (if verbose lib then [Log Info ''%v''] else []) @ ext)
             \<and> units ext = map (\<lambda>c. Some (GMap c)) rest))
     \<and> (processEvent lib hook (ek(''commit'' \<mapsto> GMap ck)) wk = (Err xk, wk') \<longrightarrow>
          (\<exists>e' ext. commitLoop lib hook (GMap ck # map GMap restk) ek wk
                       = (None, e', wk' @ Log Error ''Error processing %s: %s\<newline>''
                                        # (if verbose lib then [Log Info ''%v''] else []) @ ext)
             \<and> units ext = map (\<lambda>c. Some (GMap c)) restk))"
proof -
  have loop: "\<exists>e' ext. commitLoop lib hook (GMap c0 # map GMap rest0) e0 w0
                       = (None, e', w0' @ Log Error ''Error processing %s: %s\<newline>''
                                        # (if verbose lib then [Log Info ''%v''] else []) @ ext)
             \<and> units ext = map (\<lambda>c. Some (GMap c)) rest0"
    if run: "processEvent lib hook (e0(''commit'' \<mapsto> GMap c0)) w0 = (Err x0, w0')"
    for c0 rest0 e0 w0 x0 w0'
  proof -
    let ?e1 = "e0(''commit'' \<mapsto> GMap c0)"
    let ?w = "w0' @ Log Error ''Error processing %s: %s\<newline>''
                    # (if verbose lib then [Log Info ''%v''] else [])"
    have lf: "logFailure lib w0' = ?w"
      by (simp add: logFailure_def Let_def)
    have step: "commitLoop lib hook (GMap c0 # map GMap rest0) e0 w0
                  = commitLoop lib hook (map GMap rest0) ?e1 ?w"
      using run lf by simp
    from commitLoop_maps[OF assms(6,7), of rest0 ?e1 ?w] obtain ext where ext:
      "commitLoop lib hook (map GMap rest0) ?e1 ?w
         = (None, (if rest0 = [] then ?e1 else ?e1(''commit'' \<mapsto> GMap (last rest0))),
            ?w @ ext)"
      "units ext = map (\<lambda>c. Some (GMap c)) rest0" by blast
    show ?thesis
      unfolding step ext(1)
      by (rule exI[of _ "if rest0 = [] then ?e1 else ?e1(''commit'' \<mapsto> GMap (last rest0))"],
          rule exI[of _ ext])
         (simp add: ext(2))
  qed
  from commitLoop_maps[OF assms(6,7), of cs e w] obtain ext where
    "commitLoop lib hook (map GMap cs) e w
       = (None, (if cs = [] then e else e(''commit'' \<mapsto> GMap (last cs))), w @ ext)"
    "units ext = map (\<lambda>c. Some (GMap c)) cs" by blast
  then have all: "\<exists>e' ext. Execute lib hook e w = (None, e', w @ ext)
           \<and> units ext = map (\<lambda>c. Some (GMap c)) cs
           \<and> length (units ext) = length cs"
    using assms(1,5) Execute_accepted[OF assms(2,3,4), of lib w]
    by (intro exI[of _ "if cs = [] then e else e(''commit'' \<mapsto> GMap (last cs))"] exI[of _ ext])
       (simp add: dispatch_def)
  have ex: "Execute lib hook e w = commitLoop lib hook (map GMap cs) e w"
    using assms(1,5) Execute_accepted[OF assms(2,3,4), of lib w] by (simp add: dispatch_def)
  have first: "cs = c # rest \<and> processEvent lib hook (e(''commit'' \<mapsto> GMap c)) w = (Err x, w1) \<longrightarrow>
          (\<exists>e' ext. Execute lib hook e w
                       = (None, e', w1 @ Log Error ''Error processing %s: %s\<newline>''
                                       # (if verbose lib then [Log Info ''%v''] else []) @ ext)
             \<and> units ext = map (\<lambda>c. Some (GMap c)) rest)"
  proof (intro impI, elim conjE)
    assume h: "cs = c # rest" "processEvent lib hook (e(''commit'' \<mapsto> GMap c)) w = (Err x, w1)"
    from loop[OF h(2), of rest] show "\<exists>e' ext. Execute lib hook e w
                       = (None, e', w1 @ Log Error ''Error processing %s: %s\<newline>''
                                       # (if verbose lib then [Log Info ''%v''] else []) @ ext)
             \<and> units ext = map (\<lambda>c. Some (GMap c)) rest"
      unfolding ex h(1) by simp
  qed
  from all first loop show ?thesis by blast
qed

lemma perCommitHook_compiled:
  "cmdTemplate perCommitHook =
     [[Some (templateFuncs exampleMarshal, [TText ''sleep'']),
       Some (templateFuncs exampleMarshal, [TText '''', TField [''commit'', ''id''], TText ''''])]]"
  "envTemplate perCommitHook = []" "dirTemplate perCommitHook = None"
  "Timeout perCommitHook = 1" "PerCommit perCommitHook = True"
  "AllowEvent perCommitHook = []" "AllowPipelineStatus perCommitHook = []"
  "AllowBranches perCommitHook = []"
  by (simp_all add: perCommitHook_def example_defs)

lemma exampleRace_started:
  "osRace exampleLib tr t \<noteq> TimerFired False"
  by (simp add: exampleLib_def exampleRace_def split: action.splits)

lemma perCommitHook_run:
  "Execute exampleLib perCommitHook pushEvent []
     = (None, pushEvent(''commit'' \<mapsto> GMap [(''id'', GStr ''0'')]),
        [EnterUnit (Some (GMap [(''id'', GStr ''5'')])), LookPath ''sleep'',
         Log Info ''Running'', Start [''/bin/sleep'', ''5''] None '''', Kill [''/bin/sleep'', ''5''],
         Log Error ''Error processing %s: %s\<newline>'',
         EnterUnit (Some (GMap [(''id'', GStr ''0'')])), LookPath ''sleep'',
         Log Info ''Running'', Start [''/bin/sleep'', ''0''] None ''''])"
  by (simp add: Execute_def checkEventType_def checkPipelineStatus_def checkBranch_def
        dispatch_def logFailure_def pushEvent_def run_defs exampleLib_def exampleCommits_def
        perCommitHook_compiled)

lemma perCommitHook_first_unit:
  "processEvent exampleLib perCommitHook (pushEvent(''commit'' \<mapsto> GMap [(''id'', GStr ''5'')])) []
     = (Err (CommandTimedOut [''/bin/sleep'', ''5'']),
        [EnterUnit (Some (GMap [(''id'', GStr ''5'')])), LookPath ''sleep'',
         Log Info ''Running'', Start [''/bin/sleep'', ''5''] None '''', Kill [''/bin/sleep'', ''5'']])"
  by (simp add: pushEvent_def run_defs exampleLib_def perCommitHook_compiled)

theorem per_commit_units_in_order_witness:
  "PerCommit perCommitHook
   \<and> checkEventType perCommitHook pushEvent = None
   \<and> checkPipelineStatus perCommitHook pushEvent = None
   \<and> checkBranch perCommitHook pushEvent = None
   \<and> commits exampleLib pushEvent = Some (map GMap [[(''id'', GStr ''5'')], [(''id'', GStr ''0'')]])
   \<and> wellCompiled perCommitHook
   \<and> (\<forall>tr. osRace exampleLib tr (timerDuration perCommitHook) \<noteq> TimerFired False)
   \<and> (\<exists>e' ext. Execute exampleLib perCommitHook pushEvent [] = (None, e', [] @ ext)
          \<and> units ext = map (\<lambda>c. Some (GMap c)) [[(''id'', GStr ''5'')], [(''id'', GStr ''0'')]]
          \<and> length (units ext) = length [[(''id'', GStr ''5'')], [(''id'', GStr ''0'')]])
   \<and> processEvent exampleLib perCommitHook
        (pushEvent(''commit'' \<mapsto> GMap [(''id'', GStr ''5'')])) []
        = (Err (CommandTimedOut [''/bin/sleep'', ''5'']),
           [EnterUnit (Some (GMap [(''id'', GStr ''5'')])), LookPath ''sleep'',
            Log Info ''Running'', Start [''/bin/sleep'', ''5''] None '''',
            Kill [''/bin/sleep'', ''5'']])
   \<and> (\<exists>e' ext. Execute exampleLib perCommitHook pushEvent []
          = (None, e',
             [EnterUnit (Some (GMap [(''id'', GStr ''5'')])), LookPath ''sleep'',
              Log Info ''Running'', Start [''/bin/sleep'', ''5''] None '''',
              Kill [''/bin/sleep'', ''5'']]
             @ Log Error ''Error processing %s: %s\<newline>''
               # (if verbose exampleLib then [Log Info ''%v''] else []) @ ext)
          \<and> units ext = map (\<lambda>c. Some (GMap c)) [[(''id'', GStr ''0'')]])
   \<and> kills (snd (snd (Execute exampleLib perCommitHook pushEvent []))) = [[''/bin/sleep'', ''5'']]
   \<and> starts (snd (snd (Execute exampleLib perCommitHook pushEvent [])))
        = [[''/bin/sleep'', ''5''], [''/bin/sleep'', ''0'']]"
proof -
  have h: "PerCommit perCommitHook"
    "checkEventType perCommitHook pushEvent = None"
    "checkPipelineStatus perCommitHook pushEvent = None"
    "checkBranch perCommitHook pushEvent = None"
    "commits exampleLib pushEvent = Some (map GMap [[(''id'', GStr ''5'')], [(''id'', GStr ''0'')]])"
    by (simp_all add: perCommitHook_compiled checkEventType_def checkPipelineStatus_def
          checkBranch_def exampleLib_def exampleCommits_def pushEvent_def)
  have wc: "wellCompiled perCommitHook"
    unfolding perCommitHook_def loadHook_def
    by (rule CreateTemplates_wellCompiled) (simp_all add: example_defs)
  have o: "\<forall>tr. osRace exampleLib tr (timerDuration perCommitHook) \<noteq> TimerFired False"
    by (simp add: exampleRace_started)
  note t = per_commit_units_in_order [OF h wc o, where w = "[]", THEN conjunct1]
  note first = perCommitHook_first_unit
  note f = per_commit_units_in_order
    [OF h wc o, where w = "[]" and c = "[(''id'', GStr ''5'')]" and rest = "[[(''id'', GStr ''0'')]]"
       and x = "CommandTimedOut [''/bin/sleep'', ''5'']"
       and ?w1.0 = "[EnterUnit (Some (GMap [(''id'', GStr ''5'')])), LookPath ''sleep'',
            Log Info ''Running'', Start [''/bin/sleep'', ''5''] None '''',
            Kill [''/bin/sleep'', ''5'']]",
     THEN conjunct2, THEN conjunct1, THEN mp, OF conjI[OF refl first]]
  have k: "kills (snd (snd (Execute exampleLib perCommitHook pushEvent []))) = [[''/bin/sleep'', ''5'']]"
    "starts (snd (snd (Execute exampleLib perCommitHook pushEvent [])))
        = [[''/bin/sleep'', ''5''], [''/bin/sleep'', ''0'']]"
    by (simp_all add: perCommitHook_run)
  show ?thesis by (intro conjI h wc o t first f k)
qed

text \<open>
  C3 as stated fails for a Hook with a command without arguments, which \<open>CreateTemplates\<close>
  accepts: the first unit panics at \<^verbatim>\<open>cmds[i][0]\<close>, and the unit of the second commit record is
  never entered.
\<close>

theorem empty_command_ends_commit_loop:
  "fst (CreateTemplates exampleLib (emptyHook\<lparr>PerCommit := True, Commands := [[]]\<rparr>)) = None
   \<and> PerCommit emptyPerCommitHook
   \<and> checkEventType emptyPerCommitHook pushEvent = None
   \<and> checkPipelineStatus emptyPerCommitHook pushEvent = None
   \<and> checkBranch emptyPerCommitHook pushEvent = None
   \<and> commits exampleLib pushEvent = Some (map GMap [[(''id'', GStr ''5'')], [(''id'', GStr ''0'')]])
   \<and> Execute exampleLib emptyPerCommitHook pushEvent []
       = (Some IndexOutOfRange, pushEvent(''commit'' \<mapsto> GMap [(''id'', GStr ''5'')]),
          [EnterUnit (Some (GMap [(''id'', GStr ''5'')]))])
   \<and> units (snd (snd (Execute exampleLib emptyPerCommitHook pushEvent [])))
       = [Some (GMap [(''id'', GStr ''5'')])]"
proof -
  have c: "cmdTemplate emptyPerCommitHook = [[]]" "envTemplate emptyPerCommitHook = []"
    "dirTemplate emptyPerCommitHook = None" "PerCommit emptyPerCommitHook"
    "AllowEvent emptyPerCommitHook = []" "AllowPipelineStatus emptyPerCommitHook = []"
    "AllowBranches emptyPerCommitHook = []"
    by (simp_all add: emptyPerCommitHook_def example_defs)
  have l: "fst (CreateTemplates exampleLib (emptyHook\<lparr>PerCommit := True, Commands := [[]]\<rparr>)) = None"
    by (simp add: example_defs)
  have f: "checkEventType emptyPerCommitHook pushEvent = None"
    "checkPipelineStatus emptyPerCommitHook pushEvent = None"
    "checkBranch emptyPerCommitHook pushEvent = None"
    "commits exampleLib pushEvent = Some (map GMap [[(''id'', GStr ''5'')], [(''id'', GStr ''0'')]])"
    by (simp_all add: c checkEventType_def checkPipelineStatus_def checkBranch_def
          exampleLib_def exampleCommits_def pushEvent_def)
  have x: "Execute exampleLib emptyPerCommitHook pushEvent []
       = (Some IndexOutOfRange, pushEvent(''commit'' \<mapsto> GMap [(''id'', GStr ''5'')]),
          [EnterUnit (Some (GMap [(''id'', GStr ''5'')]))])"
    by (simp add: Execute_def checkEventType_def checkPipelineStatus_def checkBranch_def
          dispatch_def pushEvent_def run_defs exampleLib_def exampleCommits_def c)
  have u: "units (snd (snd (Execute exampleLib emptyPerCommitHook pushEvent [])))
       = [Some (GMap [(''id'', GStr ''5'')])]"
    by (simp add: x)
  show ?thesis by (intro conjI l c(4) f x u)
qed

section \<open>The Event during the loop over the commits\<close>




section \<open>The filters\<close>

lemma allowedLoop_iff: "allowedLoop xs x \<longleftrightarrow> x \<in> set xs"
  by (induction xs) auto

lemma runCommand_hook_cong:
  "Timeout h' = Timeout h \<Longrightarrow> runCommand lib h' args env dir w = runCommand lib h args env dir w"
  by (cases args) (simp_all add: runCommand_def timerDuration_def)

lemma runCommands_hook_cong:
  "Timeout h' = Timeout h \<Longrightarrow> runCommands lib h' cmds env dir w = runCommands lib h cmds env dir w"
proof (induction cmds arbitrary: w)
  case Nil
  show ?case by simp
next
  case (Cons cmd rest)
  obtain r w1 where rc: "runCommand lib h cmd env dir w = (r, w1)"
    by (cases "runCommand lib h cmd env dir w") auto
  then have rc': "runCommand lib h' cmd env dir w = (r, w1)"
    using runCommand_hook_cong[OF Cons.prems] by simp
  show ?case using rc rc' Cons.IH[OF Cons.prems] by (cases r) simp_all
qed

lemma processEvent_hook_cong:
  assumes "Timeout h' = Timeout h" "cmdTemplate h' = cmdTemplate h"
    "envTemplate h' = envTemplate h" "dirTemplate h' = dirTemplate h"
  shows "processEvent lib h' e w = processEvent lib h e w"
proof -
  have rc: "\<And>cmds env dir w1. runCommands lib h' cmds env dir w1 = runCommands lib h cmds env dir w1"
    by (rule runCommands_hook_cong[OF assms(1)])
  show ?thesis
    unfolding processEvent_def assms(2,3,4) rc ..
qed

lemma commitLoop_hook_cong:
  assumes "Timeout h' = Timeout h" "cmdTemplate h' = cmdTemplate h"
    "envTemplate h' = envTemplate h" "dirTemplate h' = dirTemplate h"
  shows "commitLoop lib h' cs e w = commitLoop lib h cs e w"
proof (induction cs arbitrary: e w)
  case Nil
  show ?case by simp
next
  case (Cons g cs)
  have pe: "\<And>e1. processEvent lib h' e1 w = processEvent lib h e1 w"
    by (rule processEvent_hook_cong[OF assms])
  show ?case unfolding commitLoop.simps pe Cons.IH ..
qed

lemma dispatch_hook_cong:
  assumes "Timeout h' = Timeout h" "cmdTemplate h' = cmdTemplate h"
    "envTemplate h' = envTemplate h" "dirTemplate h' = dirTemplate h" "PerCommit h' = PerCommit h"
  shows "dispatch lib h' e w = dispatch lib h e w"
proof -
  have pe: "processEvent lib h' e w = processEvent lib h e w"
    by (rule processEvent_hook_cong[OF assms(1-4)])
  have cl: "\<And>cs. commitLoop lib h' cs e w = commitLoop lib h cs e w"
    by (rule commitLoop_hook_cong[OF assms(1-4)])
  show ?thesis unfolding dispatch_def assms(5) pe cl ..
qed

lemma checks_without_event_list:
  "checkEventType (hook\<lparr>AllowEvent := []\<rparr>) e = None"
  "checkPipelineStatus (hook\<lparr>AllowEvent := x\<rparr>) e = checkPipelineStatus hook e"
  "checkBranch (hook\<lparr>AllowEvent := x\<rparr>) e = checkBranch hook e"
  by (simp_all add: checkEventType_def checkPipelineStatus_def checkBranch_def
        split: option.splits)

lemma checks_without_branch_list:
  "checkEventType (hook\<lparr>AllowBranches := x\<rparr>) e = checkEventType hook e"
  "checkPipelineStatus (hook\<lparr>AllowBranches := x\<rparr>) e = checkPipelineStatus hook e"
  "checkBranch (hook\<lparr>AllowBranches := []\<rparr>) e = None"
  by (simp_all add: checkEventType_def checkPipelineStatus_def checkBranch_def
        split: option.splits)

lemma Execute_without_event_list:
  assumes "checkEventType hook e = None"
  shows "Execute lib hook e w = Execute lib (hook\<lparr>AllowEvent := []\<rparr>) e w"
proof -
  have d: "dispatch lib (hook\<lparr>AllowEvent := []\<rparr>) e w = dispatch lib hook e w"
    by (rule dispatch_hook_cong) simp_all
  show ?thesis
    by (cases "checkPipelineStatus hook e"; cases "checkBranch hook e")
       (simp_all add: Execute_def assms checks_without_event_list d)
qed

lemma Execute_without_branch_list:
  assumes "checkBranch hook e = None"
  shows "Execute lib hook e w = Execute lib (hook\<lparr>AllowBranches := []\<rparr>) e w"
proof -
  have d: "dispatch lib (hook\<lparr>AllowBranches := []\<rparr>) e w = dispatch lib hook e w"
    by (rule dispatch_hook_cong) simp_all
  show ?thesis
    by (cases "checkEventType hook e"; cases "checkPipelineStatus hook e")
       (simp_all add: Execute_def assms checks_without_branch_list d)
qed

text \<open>
  C6. Let the Hook have a non-empty event-type list. If the \<^verbatim>\<open>type\<close> of the Event is absent, is
  not a string, or is a string that the list does not hold, \<open>Execute\<close> writes one warning and
  returns: the Event is unchanged, no unit is entered, nothing is looked up or started, and the
  \<^verbatim>\<open>status\<close> and \<^verbatim>\<open>ref\<close> fields play no part. If it is a string of the list, \<open>Execute\<close> behaves as
  for the same Hook without an event-type list, that is, it goes on to the other predicates.
  The pipeline status is examined next and only then the branch: once the event type is
  accepted, a status outside a non-empty status list rejects whatever the \<^verbatim>\<open>ref\<close> is, and a
  branch is rejected only after type and status were accepted.
\<close>

theorem filters_in_fixed_order:
  assumes "AllowEvent hook \<noteq> []"
  shows "((\<forall>t. e ''type'' = Some (GStr t) \<longrightarrow> t \<notin> set (AllowEvent hook)) \<longrightarrow>
            Execute lib hook e w
              = (None, e,
                 w @ [Log Warning
                        (if asString (e ''type'') = None
                         then ''Received non-string event type %T: %v''
                         else ''Hook %s got disallowed event type %s\<newline>'')]))
       \<and> (\<forall>t. e ''type'' = Some (GStr t) \<and> t \<in> set (AllowEvent hook) \<longrightarrow>
            Execute lib hook e w = Execute lib (hook\<lparr>AllowEvent := []\<rparr>) e w
            \<and> (AllowPipelineStatus hook \<noteq> []
                 \<and> (\<forall>s. e ''status'' = Some (GStr s) \<longrightarrow> s \<notin> set (AllowPipelineStatus hook)) \<longrightarrow>
                 Execute lib hook e w
                   = (None, e,
                      w @ [if asString (e ''status'') = None
                           then Log Warning ''Received non-string Pipeline Status %T: %v''
                           else Log Info ''Hook %s called for incorrect pipeline status %s\<newline>'']))
            \<and> (checkPipelineStatus hook e = None \<and> AllowBranches hook \<noteq> []
                 \<and> (\<forall>r. e ''ref'' = Some (GStr r) \<longrightarrow>
                        stripRefsHeads r \<notin> set (AllowBranches hook)) \<longrightarrow>
                 Execute lib hook e w
                   = (None, e,
                      w @ [if asString (e ''ref'') = None
                           then Log Warning ''Received non-string ref type %T: %v''
                           else Log Info ''Hook %s called for ignored branch %s\<newline>''])))"
proof (intro conjI allI impI)
  assume a: "\<forall>t. e ''type'' = Some (GStr t) \<longrightarrow> t \<notin> set (AllowEvent hook)"
  show "Execute lib hook e w
          = (None, e,
             w @ [Log Warning
                    (if asString (e ''type'') = None
                     then ''Received non-string event type %T: %v''
                     else ''Hook %s got disallowed event type %s\<newline>'')])"
  proof (cases "asString (e ''type'')")
    case None
    with assms show ?thesis by (simp add: Execute_def checkEventType_def)
  next
    case (Some t)
    then have "e ''type'' = Some (GStr t)" by (cases "e ''type''" rule: asString.cases) auto
    with a have "\<not> allowedLoop (AllowEvent hook) t" by (simp add: allowedLoop_iff)
    with assms Some show ?thesis by (simp add: Execute_def checkEventType_def)
  qed
next
  fix t assume a: "e ''type'' = Some (GStr t) \<and> t \<in> set (AllowEvent hook)"
  then have ok: "checkEventType hook e = None"
    by (simp add: checkEventType_def allowedLoop_iff)
  show "Execute lib hook e w = Execute lib (hook\<lparr>AllowEvent := []\<rparr>) e w"
    by (rule Execute_without_event_list[OF ok])
  {
    assume b: "AllowPipelineStatus hook \<noteq> []
                 \<and> (\<forall>s. e ''status'' = Some (GStr s) \<longrightarrow> s \<notin> set (AllowPipelineStatus hook))"
    show "Execute lib hook e w
            = (None, e,
               w @ [if asString (e ''status'') = None
                    then Log Warning ''Received non-string Pipeline Status %T: %v''
                    else Log Info ''Hook %s called for incorrect pipeline status %s\<newline>''])"
    proof (cases "asString (e ''status'')")
      case None
      with b ok show ?thesis by (simp add: Execute_def checkPipelineStatus_def)
    next
      case (Some s)
      then have "e ''status'' = Some (GStr s)" by (cases "e ''status''" rule: asString.cases) auto
      with b have "\<not> allowedLoop (AllowPipelineStatus hook) s" by (simp add: allowedLoop_iff)
      with b ok Some show ?thesis by (simp add: Execute_def checkPipelineStatus_def)
    qed
  }
  {
    assume c: "checkPipelineStatus hook e = None \<and> AllowBranches hook \<noteq> []
                 \<and> (\<forall>r. e ''ref'' = Some (GStr r) \<longrightarrow>
                        stripRefsHeads r \<notin> set (AllowBranches hook))"
    show "Execute lib hook e w
            = (None, e,
               w @ [if asString (e ''ref'') = None
                    then Log Warning ''Received non-string ref type %T: %v''
                    else Log Info ''Hook %s called for ignored branch %s\<newline>''])"
    proof (cases "asString (e ''ref'')")
      case None
      with c ok show ?thesis by (simp add: Execute_def checkBranch_def)
    next
      case (Some r)
      then have "e ''ref'' = Some (GStr r)" by (cases "e ''ref''" rule: asString.cases) auto
      with c have "\<not> allowedLoop (AllowBranches hook) (stripRefsHeads r)"
        by (simp add: allowedLoop_iff)
      with c ok Some show ?thesis by (simp add: Execute_def checkBranch_def)
    qed
  }
qed

lemma filterHook_compiled:
  "cmdTemplate filterHook =
     [[Some (templateFuncs exampleMarshal, [TText ''echo'']),
       Some (templateFuncs exampleMarshal, [TText '''', TField [''ref''], TText ''''])]]"
  "envTemplate filterHook = []" "dirTemplate filterHook = None"
  "Timeout filterHook = 5" "PerCommit filterHook = False"
  "AllowEvent filterHook = [''push'']" "AllowPipelineStatus filterHook = [''success'']"
  "AllowBranches filterHook = [''main'']"
  by (simp_all add: filterHook_def example_defs)

theorem filters_in_fixed_order_witness:
  "AllowEvent filterHook \<noteq> []
   \<and> Execute exampleLib filterHook
        [''type'' \<mapsto> GNum 5, ''status'' \<mapsto> GStr ''failed'', ''ref'' \<mapsto> GStr ''refs/heads/dev''] []
       = (None,
          [''type'' \<mapsto> GNum 5, ''status'' \<mapsto> GStr ''failed'', ''ref'' \<mapsto> GStr ''refs/heads/dev''],
          [Log Warning ''Received non-string event type %T: %v''])
   \<and> Execute exampleLib filterHook
        [''type'' \<mapsto> GStr ''push'', ''status'' \<mapsto> GStr ''failed'', ''ref'' \<mapsto> GStr ''refs/heads/dev''] []
       = Execute exampleLib (filterHook\<lparr>AllowEvent := []\<rparr>)
          [''type'' \<mapsto> GStr ''push'', ''status'' \<mapsto> GStr ''failed'', ''ref'' \<mapsto> GStr ''refs/heads/dev''] []
   \<and> Execute exampleLib filterHook
        [''type'' \<mapsto> GStr ''push'', ''status'' \<mapsto> GStr ''failed'', ''ref'' \<mapsto> GStr ''refs/heads/dev''] []
       = (None,
          [''type'' \<mapsto> GStr ''push'', ''status'' \<mapsto> GStr ''failed'', ''ref'' \<mapsto> GStr ''refs/heads/dev''],
          [Log Info ''Hook %s called for incorrect pipeline status %s\<newline>''])
   \<and> Execute exampleLib filterHook
        [''type'' \<mapsto> GStr ''push'', ''status'' \<mapsto> GStr ''success'', ''ref'' \<mapsto> GStr ''refs/heads/dev''] []
       = (None,
          [''type'' \<mapsto> GStr ''push'', ''status'' \<mapsto> GStr ''success'', ''ref'' \<mapsto> GStr ''refs/heads/dev''],
          [Log Info ''Hook %s called for ignored branch %s\<newline>''])"
proof -
  let ?e1 = "[''type'' \<mapsto> GNum 5, ''status'' \<mapsto> GStr ''failed'', ''ref'' \<mapsto> GStr ''refs/heads/dev'']"
  let ?e2 = "[''type'' \<mapsto> GStr ''push'', ''status'' \<mapsto> GStr ''failed'', ''ref'' \<mapsto> GStr ''refs/heads/dev'']"
  let ?e3 = "[''type'' \<mapsto> GStr ''push'', ''status'' \<mapsto> GStr ''success'', ''ref'' \<mapsto> GStr ''refs/heads/dev'']"
  have ne: "AllowEvent filterHook \<noteq> []" by (simp add: filterHook_compiled)
  have h1: "\<forall>t. ?e1 ''type'' = Some (GStr t) \<longrightarrow> t \<notin> set (AllowEvent filterHook)"
    by simp
  have h2: "?e2 ''type'' = Some (GStr ''push'') \<and> ''push'' \<in> set (AllowEvent filterHook)"
    by (simp add: filterHook_compiled)
  have h3: "?e3 ''type'' = Some (GStr ''push'') \<and> ''push'' \<in> set (AllowEvent filterHook)"
    by (simp add: filterHook_compiled)
  have s2: "AllowPipelineStatus filterHook \<noteq> []
        \<and> (\<forall>s. ?e2 ''status'' = Some (GStr s) \<longrightarrow> s \<notin> set (AllowPipelineStatus filterHook))"
    by (simp add: filterHook_compiled)
  have s3: "checkPipelineStatus filterHook ?e3 = None \<and> AllowBranches filterHook \<noteq> []
        \<and> (\<forall>r. ?e3 ''ref'' = Some (GStr r) \<longrightarrow>
               stripRefsHeads r \<notin> set (AllowBranches filterHook))"
    by (simp add: checkPipelineStatus_def filterHook_compiled stripRefsHeads_def)
  note t1 = filters_in_fixed_order [OF ne, of ?e1 exampleLib "[]", THEN conjunct1, THEN mp, OF h1]
  note t2 = filters_in_fixed_order [OF ne, of ?e2 exampleLib "[]", THEN conjunct2, THEN spec,
              of "''push''", THEN mp, OF h2]
  note t3 = filters_in_fixed_order [OF ne, of ?e3 exampleLib "[]", THEN conjunct2, THEN spec,
              of "''push''", THEN mp, OF h3]
  have 1: "Execute exampleLib filterHook ?e1 [] = (None, ?e1, [Log Warning ''Received non-string event type %T: %v''])"
    using t1 by simp
  have 2: "Execute exampleLib filterHook ?e2 [] = Execute exampleLib (filterHook\<lparr>AllowEvent := []\<rparr>) ?e2 []"
    by (rule t2 [THEN conjunct1])
  have 4: "Execute exampleLib filterHook ?e2 []
       = (None, ?e2, [Log Info ''Hook %s called for incorrect pipeline status %s\<newline>''])"
    using t2 [THEN conjunct2, THEN conjunct1, THEN mp, OF s2] by simp
  have 3: "Execute exampleLib filterHook ?e3 []
       = (None, ?e3, [Log Info ''Hook %s called for ignored branch %s\<newline>''])"
    using t3 [THEN conjunct2, THEN conjunct2, THEN mp, OF s3] by simp
  from ne 1 2 3 4 show ?thesis by blast
qed

section \<open>The branch filter\<close>

text \<open>
  C7. For a Hook with a non-empty branch list and an Event whose \<^verbatim>\<open>ref\<close> is the string \<open>r\<close>: the
  filter compares the list with \<open>r\<close> after removing one leading \<^verbatim>\<open>refs/heads/\<close> (a second such
  prefix stays), or with \<open>r\<close> itself when it has no such prefix. When the stripped name is in
  the list, \<open>Execute\<close> behaves on the same Event exactly as for the Hook without a branch list,
  so whatever is rendered sees the \<^verbatim>\<open>ref\<close> as it came; otherwise, type and status being accepted,
  the Event is rejected with one informational line.
\<close>

theorem branch_filter_strips_one_prefix:
  assumes "AllowBranches hook \<noteq> []" and "e ''ref'' = Some (GStr r)"
  shows "stripRefsHeads (''refs/heads/'' @ s) = s
       \<and> (\<not> prefix ''refs/heads/'' r \<longrightarrow> stripRefsHeads r = r)
       \<and> (stripRefsHeads r \<in> set (AllowBranches hook) \<longrightarrow>
            Execute lib hook e w = Execute lib (hook\<lparr>AllowBranches := []\<rparr>) e w)
       \<and> (stripRefsHeads r \<notin> set (AllowBranches hook)
            \<and> checkEventType hook e = None \<and> checkPipelineStatus hook e = None \<longrightarrow>
            Execute lib hook e w
              = (None, e, w @ [Log Info ''Hook %s called for ignored branch %s\<newline>'']))"
proof (intro conjI impI)
  show "stripRefsHeads (''refs/heads/'' @ s) = s" by (simp add: stripRefsHeads_def)
next
  assume "\<not> prefix ''refs/heads/'' r"
  then show "stripRefsHeads r = r" by (simp add: stripRefsHeads_def)
next
  assume "stripRefsHeads r \<in> set (AllowBranches hook)"
  with assms have "checkBranch hook e = None"
    by (simp add: checkBranch_def allowedLoop_iff)
  then show "Execute lib hook e w = Execute lib (hook\<lparr>AllowBranches := []\<rparr>) e w"
    by (rule Execute_without_branch_list)
next
  assume a: "stripRefsHeads r \<notin> set (AllowBranches hook)
            \<and> checkEventType hook e = None \<and> checkPipelineStatus hook e = None"
  with assms have "checkBranch hook e = Some (Log Info ''Hook %s called for ignored branch %s\<newline>'')"
    by (simp add: checkBranch_def allowedLoop_iff)
  with a show "Execute lib hook e w
              = (None, e, w @ [Log Info ''Hook %s called for ignored branch %s\<newline>''])"
    by (simp add: Execute_def)
qed

lemma mainBranchHook_compiled:
  "cmdTemplate mainBranchHook =
     [[Some (templateFuncs exampleMarshal, [TText ''echo'']),
       Some (templateFuncs exampleMarshal, [TText '''', TField [''ref''], TText ''''])]]"
  "envTemplate mainBranchHook = []" "dirTemplate mainBranchHook = None"
  "Timeout mainBranchHook = 5" "PerCommit mainBranchHook = False"
  "AllowEvent mainBranchHook = []" "AllowPipelineStatus mainBranchHook = []"
  "AllowBranches mainBranchHook = [''main'']"
  by (simp_all add: mainBranchHook_def example_defs)

lemma featureBranchHook_compiled:
  "AllowEvent featureBranchHook = []" "AllowPipelineStatus featureBranchHook = []"
  "AllowBranches featureBranchHook = [''feature'']"
  by (simp_all add: featureBranchHook_def example_defs)

lemma mainBranchHook_unfiltered_run:
  "Execute exampleLib (mainBranchHook\<lparr>AllowBranches := []\<rparr>)
      [''ref'' \<mapsto> GStr ''refs/heads/main''] []
     = (None, [''ref'' \<mapsto> GStr ''refs/heads/main''],
        [EnterUnit None, LookPath ''echo'', Log Info ''Running'',
         Start [''/bin/echo'', ''refs/heads/main''] None ''''])"
  by (simp add: Execute_def checkEventType_def checkPipelineStatus_def checkBranch_def
        dispatch_def run_defs exampleLib_def mainBranchHook_compiled)

theorem branch_filter_strips_one_prefix_witness:
  "AllowBranches mainBranchHook \<noteq> []
   \<and> [''ref'' \<mapsto> GStr ''refs/heads/main''] ''ref'' = Some (GStr ''refs/heads/main'')
   \<and> stripRefsHeads (''refs/heads/'' @ ''refs/heads/main'') = ''refs/heads/main''
   \<and> stripRefsHeads ''refs/heads/main'' \<in> set (AllowBranches mainBranchHook)
   \<and> Execute exampleLib mainBranchHook [''ref'' \<mapsto> GStr ''refs/heads/main''] []
       = (None, [''ref'' \<mapsto> GStr ''refs/heads/main''],
          [EnterUnit None, LookPath ''echo'', Log Info ''Running'',
           Start [''/bin/echo'', ''refs/heads/main''] None ''''])
   \<and> \<not> prefix ''refs/heads/'' ''main''
   \<and> stripRefsHeads ''main'' \<in> set (AllowBranches mainBranchHook)
   \<and> Execute exampleLib mainBranchHook [''ref'' \<mapsto> GStr ''main''] []
       = Execute exampleLib (mainBranchHook\<lparr>AllowBranches := []\<rparr>) [''ref'' \<mapsto> GStr ''main''] []
   \<and> AllowBranches featureBranchHook = [''feature'']
   \<and> stripRefsHeads ''refs/heads/feature/x'' \<notin> set (AllowBranches featureBranchHook)
   \<and> Execute exampleLib featureBranchHook [''ref'' \<mapsto> GStr ''refs/heads/feature/x''] []
       = (None, [''ref'' \<mapsto> GStr ''refs/heads/feature/x''],
          [Log Info ''Hook %s called for ignored branch %s\<newline>''])"
proof -
  let ?e1 = "[''ref'' \<mapsto> GStr ''refs/heads/main'']"
  let ?e2 = "[''ref'' \<mapsto> GStr ''main'']"
  let ?e3 = "[''ref'' \<mapsto> GStr ''refs/heads/feature/x'']"
  have ne: "AllowBranches mainBranchHook \<noteq> []" "AllowBranches featureBranchHook \<noteq> []"
    "AllowBranches featureBranchHook = [''feature'']"
    by (simp_all add: mainBranchHook_compiled featureBranchHook_compiled)
  have r: "?e1 ''ref'' = Some (GStr ''refs/heads/main'')" "?e2 ''ref'' = Some (GStr ''main'')"
    "?e3 ''ref'' = Some (GStr ''refs/heads/feature/x'')" by simp_all
  note t1 = branch_filter_strips_one_prefix
     [where hook = mainBranchHook and e = ?e1 and r = "''refs/heads/main''"
        and s = "''refs/heads/main''" and lib = exampleLib and w = "[]", OF ne(1) r(1)]
  note t2 = branch_filter_strips_one_prefix
     [where hook = mainBranchHook and e = ?e2 and r = "''main''"
        and s = "''x''" and lib = exampleLib and w = "[]", OF ne(1) r(2)]
  note t3 = branch_filter_strips_one_prefix
     [where hook = featureBranchHook and e = ?e3 and r = "''refs/heads/feature/x''"
        and s = "''x''" and lib = exampleLib and w = "[]", OF ne(2) r(3)]
  have m: "stripRefsHeads ''refs/heads/main'' \<in> set (AllowBranches mainBranchHook)"
    "\<not> prefix ''refs/heads/'' ''main''"
    "stripRefsHeads ''main'' \<in> set (AllowBranches mainBranchHook)"
    "stripRefsHeads ''refs/heads/feature/x'' \<notin> set (AllowBranches featureBranchHook)"
    by (simp_all add: stripRefsHeads_def mainBranchHook_compiled featureBranchHook_compiled)
  have c: "checkEventType featureBranchHook ?e3 = None"
    "checkPipelineStatus featureBranchHook ?e3 = None"
    by (simp_all add: checkEventType_def checkPipelineStatus_def featureBranchHook_compiled)
  from t1 have a: "stripRefsHeads (''refs/heads/'' @ ''refs/heads/main'') = ''refs/heads/main''"
    by blast
  from t1 m(1) have "Execute exampleLib mainBranchHook ?e1 []
       = Execute exampleLib (mainBranchHook\<lparr>AllowBranches := []\<rparr>) ?e1 []" by blast
  then have b: "Execute exampleLib mainBranchHook ?e1 []
       = (None, ?e1, [EnterUnit None, LookPath ''echo'', Log Info ''Running'',
           Start [''/bin/echo'', ''refs/heads/main''] None ''''])"
    by (simp only: mainBranchHook_unfiltered_run)
  from t2 m(3) have d: "Execute exampleLib mainBranchHook ?e2 []
       = Execute exampleLib (mainBranchHook\<lparr>AllowBranches := []\<rparr>) ?e2 []" by blast
  from t3 m(4) c have f: "Execute exampleLib featureBranchHook ?e3 []
       = (None, ?e3, [] @ [Log Info ''Hook %s called for ignored branch %s\<newline>''])" by blast
  from ne r a b d f m show ?thesis by simp
qed

section \<open>A load that fails\<close>


section \<open>Resolution comes before any start\<close>

lemma unit_trace_order:
  assumes "processEvent lib hook e w = (r, w')"
  shows "\<exists>pre post. w' = w @ pre @ post \<and> starts pre = [] \<and> lookups post = []
     \<and> (starts post \<noteq> [] \<longrightarrow> length (lookups pre) = length (cmdTemplate hook))
     \<and> length (starts post) \<le> length (lookups pre)
     \<and> (\<forall>i < length (starts post).
           lookPath lib (lookups pre ! i) = Inr (hd (starts post ! i)))
     \<and> (\<forall>n m. n \<in> set (lookups pre) \<and> lookPath lib n = Inl m \<longrightarrow>
           r = Err (ExecutableError n m) \<and> starts post = [])"
  using assms
proof (cases rule: processEvent_cases)
  case early
  show ?thesis
    by (rule exI[of _ "[EnterUnit (e ''commit'')]"], rule exI[of _ "[]"]) (use early in simp)
next
  case (prepare d env rp)
  from prepareCommands_result[OF prepare(3)] obtain ns where
    w': "w' = (w @ [EnterUnit (e ''commit'')]) @ map LookPath ns" by blast
  have fail: "\<And>n m. n \<in> set ns \<Longrightarrow> lookPath lib n = Inl m \<Longrightarrow> r = Err (ExecutableError n m)"
  proof -
    fix n m assume a: "n \<in> set ns" "lookPath lib n = Inl m"
    from prepareCommands_failed_lookup[OF prepare(3)[unfolded w'] a]
    show "r = Err (ExecutableError n m)" using prepare(4) by auto
  qed
  show ?thesis
    by (rule exI[of _ "EnterUnit (e ''commit'') # map LookPath ns"], rule exI[of _ "[]"])
       (simp add: w' starts_lookPaths lookups_lookPaths fail)
next
  case (run d env cmds w1)
  from prepareCommands_result[OF run(3)] obtain ns where ns:
    "w1 = (w @ [EnterUnit (e ''commit'')]) @ map LookPath ns"
    "\<forall>cs. Ok cmds = Ok cs \<longrightarrow>
             length ns = length (cmdTemplate hook) \<and> length cs = length (cmdTemplate hook)
             \<and> [] \<notin> set cs
             \<and> map (lookPath lib) ns = map (\<lambda>c. Inr (hd c)) cs
             \<and> (\<forall>n \<in> set ns. \<exists>p. lookPath lib n = Inr p)"
    by (elim exE conjE) (rule that)
  then have f: "length ns = length (cmdTemplate hook)" "length cmds = length (cmdTemplate hook)"
    "[] \<notin> set cmds" "map (lookPath lib) ns = map (\<lambda>c. Inr (hd c)) cmds"
    "\<forall>n \<in> set ns. \<exists>p. lookPath lib n = Inr p" by simp_all
  from runCommands_result[OF f(3) run(4)] obtain post where post:
    "w' = w1 @ post" "lookups post = []"
    "r = Ok () \<longrightarrow> starts post = cmds \<and> kills post = []"
    "\<forall>x. r = Err x \<longrightarrow>
             (\<exists>k < length cmds. x = CommandTimedOut (cmds ! k) \<and> starts post = take (Suc k) cmds
                \<and> kills post = [cmds ! k] \<and> last post = Kill (cmds ! k))"
    "\<forall>p. r = Panic p \<longrightarrow>
             p = NilDereference \<and> kills post = []
             \<and> (\<exists>k < length cmds. starts post = take (Suc k) cmds)"
    by (elim exE conjE) (rule that)
  have "\<exists>k \<le> length cmds. starts post = take k cmds"
  proof (cases r)
    case (Ok u)
    with post(3) show ?thesis by (intro exI[of _ "length cmds"]) simp
  next
    case (Err x)
    with post(4) obtain k where "k < length cmds" "starts post = take (Suc k) cmds" by blast
    then show ?thesis by (intro exI[of _ "Suc k"]) simp
  next
    case (Panic p)
    with post(5) obtain k where "k < length cmds" "starts post = take (Suc k) cmds" by blast
    then show ?thesis by (intro exI[of _ "Suc k"]) simp
  qed
  then obtain k where k: "k \<le> length cmds" "starts post = take k cmds" by blast
  have paths: "\<forall>i < length (starts post). lookPath lib (ns ! i) = Inr (hd (starts post ! i))"
  proof (intro allI impI)
    fix i assume "i < length (starts post)"
    then have i: "i < k" "i < length cmds" "i < length ns" using k f(1,2) by simp_all
    have "map (lookPath lib) ns ! i = map (\<lambda>c. Inr (hd c)) cmds ! i" using f(4) by simp
    then show "lookPath lib (ns ! i) = Inr (hd (starts post ! i))" using i k(2) by simp
  qed
  have nofail: "\<forall>n m. n \<in> set ns \<and> lookPath lib n = Inl m \<longrightarrow>
                  r = Err (ExecutableError n m) \<and> starts post = []"
    using f(5) by auto
  have len: "length (starts post) \<le> length (cmdTemplate hook)" using k f(1,2) by simp
  show ?thesis
    by (rule exI[of _ "EnterUnit (e ''commit'') # map LookPath ns"], rule exI[of _ post])
       (simp add: post(1,2) ns(1) starts_lookPaths lookups_lookPaths f(1) paths nofail len)
qed

text \<open>
  C4. In a unit, every path look-up precedes every process start, and a started command runs
  at the path its look-up returned. When a command of the unit is started, every command of
  the Hook had been rendered and its name looked up with success, one look-up per command in
  the order of the Hook, and the started commands are the first ones of the prepared commands,
  each with the path of its look-up in front of its rendered arguments. When the name of
  command \<open>k\<close> of the Hook, the first one included, does not resolve (the directory, the
  environment and the commands before it having rendered and resolved), the resolution error is
  the result of the unit, the failed look-up is the last action of the unit, and no command of
  the unit is started.
\<close>

theorem resolve_all_before_running_any:
  assumes "processEvent lib hook e w = (r, w')"
  shows "(\<exists>pre post. w' = w @ pre @ post \<and> starts pre = [] \<and> lookups post = []
       \<and> (starts post \<noteq> [] \<longrightarrow> length (lookups pre) = length (cmdTemplate hook))
       \<and> length (starts post) \<le> length (lookups pre)
       \<and> (\<forall>i < length (starts post).
             lookPath lib (lookups pre ! i) = Inr (hd (starts post ! i)))
       \<and> (\<forall>n m. n \<in> set (lookups pre) \<and> lookPath lib n = Inl m \<longrightarrow>
             r = Err (ExecutableError n m) \<and> starts post = []))
     \<and> (starts (drop (length w) w') \<noteq> [] \<longrightarrow>
          (\<exists>ns cmds post k.
              w' = w @ EnterUnit (e ''commit'') # map LookPath ns @ post
              \<and> lookups post = [] \<and> k \<le> length cmds \<and> starts post = take k cmds
              \<and> length ns = length (cmdTemplate hook) \<and> length cmds = length (cmdTemplate hook)
              \<and> map (processCommand lib e) (cmdTemplate hook)
                  = map (\<lambda>(n, c). Ok (n # tl c)) (zip ns cmds)
              \<and> map (lookPath lib) ns = map (\<lambda>c. Inr (hd c)) cmds))
     \<and> (renderDir lib e (dirTemplate hook) = Ok d \<and> renderEnv lib e (envTemplate hook) = Ok env
          \<and> cmdTemplate hook = front @ u # rest
          \<and> prepareCommands lib e front (w @ [EnterUnit (e ''commit'')]) = (Ok cmds, w1)
          \<and> processCommand lib e u = Ok (name # args) \<and> lookPath lib name = Inl m
        \<longrightarrow> r = Err (ExecutableError name m) \<and> w' = w1 @ [LookPath name]
            \<and> starts w' = starts w
            \<and> length (lookups (drop (length w) w')) = Suc (length front))"
proof (intro conjI)
  show "\<exists>pre post. w' = w @ pre @ post \<and> starts pre = [] \<and> lookups post = []
       \<and> (starts post \<noteq> [] \<longrightarrow> length (lookups pre) = length (cmdTemplate hook))
       \<and> length (starts post) \<le> length (lookups pre)
       \<and> (\<forall>i < length (starts post).
             lookPath lib (lookups pre ! i) = Inr (hd (starts post ! i)))
       \<and> (\<forall>n m. n \<in> set (lookups pre) \<and> lookPath lib n = Inl m \<longrightarrow>
             r = Err (ExecutableError n m) \<and> starts post = [])"
    by (rule unit_trace_order[OF assms])
next
  show "starts (drop (length w) w') \<noteq> [] \<longrightarrow>
          (\<exists>ns cmds post k.
              w' = w @ EnterUnit (e ''commit'') # map LookPath ns @ post
              \<and> lookups post = [] \<and> k \<le> length cmds \<and> starts post = take k cmds
              \<and> length ns = length (cmdTemplate hook) \<and> length cmds = length (cmdTemplate hook)
              \<and> map (processCommand lib e) (cmdTemplate hook)
                  = map (\<lambda>(n, c). Ok (n # tl c)) (zip ns cmds)
              \<and> map (lookPath lib) ns = map (\<lambda>c. Inr (hd c)) cmds)"
  proof
    assume st: "starts (drop (length w) w') \<noteq> []"
    from assms show "\<exists>ns cmds post k.
              w' = w @ EnterUnit (e ''commit'') # map LookPath ns @ post
              \<and> lookups post = [] \<and> k \<le> length cmds \<and> starts post = take k cmds
              \<and> length ns = length (cmdTemplate hook) \<and> length cmds = length (cmdTemplate hook)
              \<and> map (processCommand lib e) (cmdTemplate hook)
                  = map (\<lambda>(n, c). Ok (n # tl c)) (zip ns cmds)
              \<and> map (lookPath lib) ns = map (\<lambda>c. Inr (hd c)) cmds"
    proof (cases rule: processEvent_cases)
      case early
      with st show ?thesis by simp
    next
      case (prepare d env rp)
      from prepareCommands_result[OF prepare(3)] obtain ns where
        "w' = (w @ [EnterUnit (e ''commit'')]) @ map LookPath ns" by blast
      with st show ?thesis by (simp add: starts_lookPaths)
    next
      case (run d' env' cmds' w1')
      from prepareCommands_Ok_commands[OF run(3)] obtain ns where ns:
        "w1' = (w @ [EnterUnit (e ''commit'')]) @ map LookPath ns"
        "length ns = length (cmdTemplate hook)" "length cmds' = length (cmdTemplate hook)"
        "map (processCommand lib e) (cmdTemplate hook)
           = map (\<lambda>(n, c). Ok (n # tl c)) (zip ns cmds')"
        "map (lookPath lib) ns = map (\<lambda>c. Inr (hd c)) cmds'"
        "[] \<notin> set cmds'"
        by (elim exE conjE) (rule that)
      from runCommands_result[OF ns(6) run(4)] obtain post where post:
        "w' = w1' @ post" "lookups post = []"
        "r = Ok () \<longrightarrow> starts post = cmds' \<and> kills post = []"
        "\<forall>x. r = Err x \<longrightarrow>
             (\<exists>k < length cmds'. x = CommandTimedOut (cmds' ! k) \<and> starts post = take (Suc k) cmds'
                \<and> kills post = [cmds' ! k] \<and> last post = Kill (cmds' ! k))"
        "\<forall>p. r = Panic p \<longrightarrow>
             p = NilDereference \<and> kills post = []
             \<and> (\<exists>k < length cmds'. starts post = take (Suc k) cmds')"
        by (elim exE conjE) (rule that)
      have "\<exists>k \<le> length cmds'. starts post = take k cmds'"
      proof (cases r)
        case (Ok u)
        with post(3) show ?thesis by (intro exI[of _ "length cmds'"]) simp
      next
        case (Err x)
        with post(4) obtain k where "k < length cmds'" "starts post = take (Suc k) cmds'" by blast
        then show ?thesis by (intro exI[of _ "Suc k"]) simp
      next
        case (Panic p)
        with post(5) obtain k where "k < length cmds'" "starts post = take (Suc k) cmds'" by blast
        then show ?thesis by (intro exI[of _ "Suc k"]) simp
      qed
      then obtain k where k: "k \<le> length cmds'" "starts post = take k cmds'" by blast
      show ?thesis
        by (rule exI[of _ ns], rule exI[of _ cmds'], rule exI[of _ post], rule exI[of _ k])
           (use k ns(2,3) in \<open>simp add: post(1,2) ns(1,4,5)\<close>)
    qed
  qed
next
  show "renderDir lib e (dirTemplate hook) = Ok d \<and> renderEnv lib e (envTemplate hook) = Ok env
          \<and> cmdTemplate hook = front @ u # rest
          \<and> prepareCommands lib e front (w @ [EnterUnit (e ''commit'')]) = (Ok cmds, w1)
          \<and> processCommand lib e u = Ok (name # args) \<and> lookPath lib name = Inl m
        \<longrightarrow> r = Err (ExecutableError name m) \<and> w' = w1 @ [LookPath name]
            \<and> starts w' = starts w
            \<and> length (lookups (drop (length w) w')) = Suc (length front)"
  proof (intro impI, elim conjE)
    assume h: "renderDir lib e (dirTemplate hook) = Ok d"
      "renderEnv lib e (envTemplate hook) = Ok env"
      "cmdTemplate hook = front @ u # rest"
      "prepareCommands lib e front (w @ [EnterUnit (e ''commit'')]) = (Ok cmds, w1)"
      "processCommand lib e u = Ok (name # args)" "lookPath lib name = Inl m"
    from prepareCommands_stop(4)[OF h(5,6)]
    have "prepareCommands lib e (u # rest) w1
            = (Err (ExecutableError name m), w1 @ [LookPath name])" .
    from prepareCommands_append[OF h(4) this]
    have "prepareCommands lib e (cmdTemplate hook) (w @ [EnterUnit (e ''commit'')])
            = (Err (ExecutableError name m), w1 @ [LookPath name])" by (simp add: h(3))
    from processEvent_prepared[OF h(1,2) this] assms
    have res: "r = Err (ExecutableError name m)" "w' = w1 @ [LookPath name]" by simp_all
    from prepareCommands_Ok_commands[OF h(4)] obtain ns where ns:
      "w1 = (w @ [EnterUnit (e ''commit'')]) @ map LookPath ns" "length ns = length front"
      by (elim exE conjE) (rule that)
    show "r = Err (ExecutableError name m) \<and> w' = w1 @ [LookPath name]
            \<and> starts w' = starts w
            \<and> length (lookups (drop (length w) w')) = Suc (length front)"
      by (simp add: res ns starts_append starts_lookPaths lookups_append lookups_lookPaths)
  qed
qed

lemma lateUnresolvableHook_run:
  "processEvent exampleLib lateUnresolvableHook Map.empty []
     = (Err (ExecutableError ''nosuch'' ''executable file not found in $PATH''),
        [EnterUnit None, LookPath ''echo'', LookPath ''nosuch''])"
  by (simp add: run_defs exampleLib_def lateUnresolvableHook_compiled)

theorem resolve_all_before_running_any_witness:
  "(processEvent exampleLib unresolvableHook Map.empty []
      = (Err (ExecutableError ''nosuch'' ''executable file not found in $PATH''),
         [EnterUnit None, LookPath ''nosuch''])
    \<and> (\<exists>pre post. [EnterUnit None, LookPath ''nosuch''] = [] @ pre @ post
          \<and> starts pre = [] \<and> lookups post = []
          \<and> ''nosuch'' \<in> set (lookups pre)
          \<and> lookPath exampleLib ''nosuch'' = Inl ''executable file not found in $PATH''
          \<and> starts post = [])
    \<and> cmdTemplate unresolvableHook
        = [] @ [Some (templateFuncs exampleMarshal, [TText ''nosuch''])]
             # [[Some (templateFuncs exampleMarshal, [TText ''echo'']),
                 Some (templateFuncs exampleMarshal, [TText ''hi''])]]
    \<and> starts [EnterUnit None, LookPath ''nosuch''] = starts []
    \<and> length (lookups (drop (length ([] :: world)) [EnterUnit None, LookPath ''nosuch'']))
        = Suc (length ([] :: tmpl option list list)))
   \<and> (processEvent exampleLib lateUnresolvableHook Map.empty []
        = (Err (ExecutableError ''nosuch'' ''executable file not found in $PATH''),
           [EnterUnit None, LookPath ''echo'', LookPath ''nosuch''])
    \<and> cmdTemplate lateUnresolvableHook
        = [[Some (templateFuncs exampleMarshal, [TText ''echo'']),
            Some (templateFuncs exampleMarshal, [TText ''hi''])]]
          @ [Some (templateFuncs exampleMarshal, [TText ''nosuch''])]
          # [[Some (templateFuncs exampleMarshal, [TText ''echo'']),
              Some (templateFuncs exampleMarshal, [TText ''late''])]]
    \<and> [EnterUnit None, LookPath ''echo'', LookPath ''nosuch'']
        = [EnterUnit None, LookPath ''echo''] @ [LookPath ''nosuch'']
    \<and> starts [EnterUnit None, LookPath ''echo'', LookPath ''nosuch''] = starts []
    \<and> length (lookups (drop (length ([] :: world)) [EnterUnit None, LookPath ''echo'', LookPath ''nosuch'']))
        = Suc (length [[Some (templateFuncs exampleMarshal, [TText ''echo'']),
                        Some (templateFuncs exampleMarshal, [TText ''hi''])]]))
   \<and> (processEvent exampleLib falseEchoHook Map.empty []
        = (Ok (),
           [EnterUnit None, LookPath ''false'', LookPath ''echo'',
            Log Info ''Running'', Start [''/bin/false''] None '''',
            Log Info ''Running'', Start [''/bin/echo'', ''done''] None ''''])
    \<and> starts (drop (length ([] :: world))
          [EnterUnit None, LookPath ''false'', LookPath ''echo'',
           Log Info ''Running'', Start [''/bin/false''] None '''',
           Log Info ''Running'', Start [''/bin/echo'', ''done''] None '''']) \<noteq> []
    \<and> (\<exists>ns cmds post k.
          [EnterUnit None, LookPath ''false'', LookPath ''echo'',
           Log Info ''Running'', Start [''/bin/false''] None '''',
           Log Info ''Running'', Start [''/bin/echo'', ''done''] None '''']
            = [] @ EnterUnit (Map.empty ''commit'') # map LookPath ns @ post
          \<and> lookups post = [] \<and> k \<le> length cmds \<and> starts post = take k cmds
          \<and> length ns = length (cmdTemplate falseEchoHook)
          \<and> length cmds = length (cmdTemplate falseEchoHook)
          \<and> map (processCommand exampleLib Map.empty) (cmdTemplate falseEchoHook)
              = map (\<lambda>(n, c). Ok (n # tl c)) (zip ns cmds)
          \<and> map (lookPath exampleLib) ns = map (\<lambda>c. Inr (hd c)) cmds))"
proof -
  let ?fm = "templateFuncs exampleMarshal"
  let ?nf = "''executable file not found in $PATH''"
  note run = unresolvableHook_run
  \<comment> \<open>the first command does not resolve: the order of the trace\<close>
  from resolve_all_before_running_any [OF run, THEN conjunct1] obtain pre post where p:
    "[EnterUnit None, LookPath ''nosuch''] = [] @ pre @ post" "starts pre = []" "lookups post = []"
    "\<forall>n m. n \<in> set (lookups pre) \<and> lookPath exampleLib n = Inl m \<longrightarrow>
       Err (ExecutableError ''nosuch'' ''executable file not found in $PATH'')
         = (Err (ExecutableError n m) :: unit res) \<and> starts post = []"
    by (elim exE conjE) (rule that)
  have "lookups [EnterUnit None, LookPath ''nosuch''] = lookups pre @ lookups post"
    using p(1) by (simp add: lookups_append)
  then have "lookups pre = [''nosuch'']" using p(3) by simp
  then have l: "''nosuch'' \<in> set (lookups pre)" by simp
  have f: "lookPath exampleLib ''nosuch'' = Inl ?nf"
    by (simp add: exampleLib_def exampleLookPath_def)
  from p(4) l f have "starts post = []" by blast
  with p l f have order: "\<exists>pre post. [EnterUnit None, LookPath ''nosuch''] = [] @ pre @ post
          \<and> starts pre = [] \<and> lookups post = []
          \<and> ''nosuch'' \<in> set (lookups pre)
          \<and> lookPath exampleLib ''nosuch'' = Inl ''executable file not found in $PATH''
          \<and> starts post = []" by blast
  \<comment> \<open>the first command does not resolve: from the cause to the result\<close>
  have a1: "renderDir exampleLib Map.empty (dirTemplate unresolvableHook) = Ok ''''"
    "renderEnv exampleLib Map.empty (envTemplate unresolvableHook) = Ok []"
    by (simp_all add: run_defs unresolvableHook_compiled)
  have a2: "cmdTemplate unresolvableHook
        = [] @ [Some (?fm, [TText ''nosuch''])]
             # [[Some (?fm, [TText ''echo'']), Some (?fm, [TText ''hi''])]]"
    by (simp add: unresolvableHook_compiled)
  have a3: "prepareCommands exampleLib Map.empty [] ([] @ [EnterUnit (Map.empty ''commit'')])
              = (Ok [], [EnterUnit None])" by simp
  have a4: "processCommand exampleLib Map.empty [Some (?fm, [TText ''nosuch''])]
              = Ok (''nosuch'' # [])"
    by (simp add: run_defs exampleLib_def)
  note ta = resolve_all_before_running_any
    [where lib = exampleLib and hook = unresolvableHook and e = Map.empty and w = "[]"
       and r = "Err (ExecutableError ''nosuch'' ?nf)"
       and w' = "[EnterUnit None, LookPath ''nosuch'']"
       and d = "''''" and env = "[]" and front = "[]" and u = "[Some (?fm, [TText ''nosuch''])]"
       and rest = "[[Some (?fm, [TText ''echo'']), Some (?fm, [TText ''hi''])]]"
       and cmds = "[]" and ?w1.0 = "[EnterUnit None]" and name = "''nosuch''" and args = "[]"
       and m = ?nf,
     OF run, THEN conjunct2, THEN conjunct2, THEN mp,
     OF conjI[OF a1(1) conjI[OF a1(2) conjI[OF a2 conjI[OF a3 conjI[OF a4 f]]]]]]
  \<comment> \<open>the second command does not resolve\<close>
  note runL = lateUnresolvableHook_run
  have b1: "renderDir exampleLib Map.empty (dirTemplate lateUnresolvableHook) = Ok ''''"
    "renderEnv exampleLib Map.empty (envTemplate lateUnresolvableHook) = Ok []"
    by (simp_all add: run_defs lateUnresolvableHook_compiled)
  have b2: "cmdTemplate lateUnresolvableHook
        = [[Some (?fm, [TText ''echo'']), Some (?fm, [TText ''hi''])]]
          @ [Some (?fm, [TText ''nosuch''])]
          # [[Some (?fm, [TText ''echo'']), Some (?fm, [TText ''late''])]]"
    by (simp add: lateUnresolvableHook_compiled)
  have b3: "prepareCommands exampleLib Map.empty
              [[Some (?fm, [TText ''echo'']), Some (?fm, [TText ''hi''])]]
              ([] @ [EnterUnit (Map.empty ''commit'')])
            = (Ok [[''/bin/echo'', ''hi'']], [EnterUnit None, LookPath ''echo''])"
    by (simp add: run_defs exampleLib_def)
  note tb = resolve_all_before_running_any
    [where lib = exampleLib and hook = lateUnresolvableHook and e = Map.empty and w = "[]"
       and r = "Err (ExecutableError ''nosuch'' ?nf)"
       and w' = "[EnterUnit None, LookPath ''echo'', LookPath ''nosuch'']"
       and d = "''''" and env = "[]"
       and front = "[[Some (?fm, [TText ''echo'']), Some (?fm, [TText ''hi''])]]"
       and u = "[Some (?fm, [TText ''nosuch''])]"
       and rest = "[[Some (?fm, [TText ''echo'']), Some (?fm, [TText ''late''])]]"
       and cmds = "[[''/bin/echo'', ''hi'']]" and ?w1.0 = "[EnterUnit None, LookPath ''echo'']"
       and name = "''nosuch''" and args = "[]" and m = ?nf,
     OF runL, THEN conjunct2, THEN conjunct2, THEN mp,
     OF conjI[OF b1(1) conjI[OF b1(2) conjI[OF b2 conjI[OF b3 conjI[OF a4 f]]]]]]
  \<comment> \<open>every command resolves\<close>
  note runF = falseEchoHook_run
  have c1: "starts (drop (length ([] :: world))
          [EnterUnit None, LookPath ''false'', LookPath ''echo'',
           Log Info ''Running'', Start [''/bin/false''] None '''',
           Log Info ''Running'', Start [''/bin/echo'', ''done''] None '''']) \<noteq> []"
    by simp
  note tc = resolve_all_before_running_any [OF runF, THEN conjunct2, THEN conjunct1, THEN mp, OF c1]
  show ?thesis
    by (intro conjI run order a2 ta[THEN conjunct2, THEN conjunct2, THEN conjunct1]
          ta[THEN conjunct2, THEN conjunct2, THEN conjunct2] runL b2
          tb[THEN conjunct2, THEN conjunct1] tb[THEN conjunct2, THEN conjunct2, THEN conjunct1]
          tb[THEN conjunct2, THEN conjunct2, THEN conjunct2] runF c1 tc)
qed

section \<open>A unit stops at its first error\<close>

lemma prepareCommands_starts:
  "prepareCommands lib e ts w = (r, w') \<Longrightarrow> starts w' = starts w"
proof -
  assume "prepareCommands lib e ts w = (r, w')"
  from prepareCommands_result[OF this] obtain ns where "w' = w @ map LookPath ns" by blast
  then show ?thesis by (simp add: starts_append starts_lookPaths)
qed

text \<open>
  C1 (as amended). In a unit whose directory and environment have rendered, with the commands
  before command \<open>k\<close> rendered and resolved:

  \<^item> when an argument of command \<open>k\<close> fails to render, the unit returns that render error, no
    later command is rendered or looked up, and no command of the unit is started;
  \<^item> when the name of command \<open>k\<close> does not resolve, the unit returns that resolution error
    after the look-up, no later command is rendered or looked up, and no command is started;
  \<^item> when all commands are prepared, the commands before command \<open>k\<close> are done before their
    timers and the timer of command \<open>k\<close> fires on its started process, the unit returns the
    timeout error naming command \<open>k\<close>, having started exactly commands \<open>0..k\<close> and killed
    command \<open>k\<close> as its last action: commands \<open>k+1..n\<close> are never started;
  \<^item> when all commands are prepared and every command is done before its timer, whatever
    \<^verbatim>\<open>cmd.Wait\<close> saw, the unit starts all its commands, kills nothing and returns nil: an exit
    status is never a failure;
  \<^item> a whole-event Hook that the filters accept, and whose unit returns an error, writes the
    error-level line \<^verbatim>\<open>Error processing %s: %s\<close> after the trace of the unit (and the Event at
    info level when verbose), and does nothing else.
\<close>

theorem unit_stops_at_first_error:
  assumes "renderDir lib e (dirTemplate hook) = Ok d"
    and "renderEnv lib e (envTemplate hook) = Ok env"
  shows
    "(cmdTemplate hook = pre @ (a1 @ Some t # a2) # rest
        \<and> prepareCommands lib e pre (w @ [EnterUnit (e ''commit'')]) = (Ok cmds, w1)
        \<and> processCommand lib e a1 = Ok outs \<and> texecute lib t e = (out, Some m)
      \<longrightarrow> processEvent lib hook e w = (Err (RenderError m), w1) \<and> starts w1 = starts w)
   \<and> (cmdTemplate hook = preR @ u # restR
        \<and> prepareCommands lib e preR (w @ [EnterUnit (e ''commit'')]) = (Ok cmdsR, wR)
        \<and> processCommand lib e u = Ok (name # args) \<and> lookPath lib name = Inl mR
      \<longrightarrow> processEvent lib hook e w = (Err (ExecutableError name mR), wR @ [LookPath name])
          \<and> starts (wR @ [LookPath name]) = starts w)
   \<and> (prepareCommands lib e (cmdTemplate hook) (w @ [EnterUnit (e ''commit'')]) = (Ok cmdsT, wT)
        \<and> k < length cmdsT
        \<and> (\<forall>j<k. \<exists>c. osRace lib (wT @ runLog (take (Suc j) cmdsT) env d) (timerDuration hook)
                          = Done c)
        \<and> osRace lib (wT @ runLog (take (Suc k) cmdsT) env d) (timerDuration hook)
            = TimerFired True
      \<longrightarrow> processEvent lib hook e w
            = (Err (CommandTimedOut (cmdsT ! k)),
               wT @ runLog (take (Suc k) cmdsT) env d @ [Kill (cmdsT ! k)])
          \<and> starts (wT @ runLog (take (Suc k) cmdsT) env d @ [Kill (cmdsT ! k)])
              = starts w @ take (Suc k) cmdsT)
   \<and> (prepareCommands lib e (cmdTemplate hook) (w @ [EnterUnit (e ''commit'')]) = (Ok cmdsD, wD)
        \<and> (\<forall>j<length cmdsD.
              \<exists>c. osRace lib (wD @ runLog (take (Suc j) cmdsD) env d) (timerDuration hook) = Done c)
      \<longrightarrow> processEvent lib hook e w = (Ok (), wD @ runLog cmdsD env d)
          \<and> starts (wD @ runLog cmdsD env d) = starts w @ cmdsD
          \<and> kills (wD @ runLog cmdsD env d) = kills w)
   \<and> (\<not> PerCommit hook \<and> checkEventType hook e = None \<and> checkPipelineStatus hook e = None
        \<and> checkBranch hook e = None \<and> processEvent lib hook e w = (Err x, wE)
      \<longrightarrow> Execute lib hook e w
            = (None, e, wE @ Log Error ''Error processing %s: %s\<newline>''
                             # (if verbose lib then [Log Info ''%v''] else [])))"
proof (intro conjI impI; (elim conjE)?)
  assume h: "cmdTemplate hook = pre @ (a1 @ Some t # a2) # rest"
    "prepareCommands lib e pre (w @ [EnterUnit (e ''commit'')]) = (Ok cmds, w1)"
    "processCommand lib e a1 = Ok outs" "texecute lib t e = (out, Some m)"
  from processCommand_render_failure[OF h(3,4)]
  have "processCommand lib e (a1 @ Some t # a2) = Err (RenderError m)" .
  from prepareCommands_stop(1)[OF this]
  have "prepareCommands lib e ((a1 @ Some t # a2) # rest) w1 = (Err (RenderError m), w1)" .
  from prepareCommands_append[OF h(2) this]
  have "prepareCommands lib e (cmdTemplate hook) (w @ [EnterUnit (e ''commit'')])
          = (Err (RenderError m), w1)" by (simp add: h(1))
  from processEvent_prepared[OF assms this]
  show "processEvent lib hook e w = (Err (RenderError m), w1)" by simp
  from prepareCommands_starts[OF h(2)] show "starts w1 = starts w" by (simp add: starts_append)
next
  assume h: "cmdTemplate hook = preR @ u # restR"
    "prepareCommands lib e preR (w @ [EnterUnit (e ''commit'')]) = (Ok cmdsR, wR)"
    "processCommand lib e u = Ok (name # args)" "lookPath lib name = Inl mR"
  from prepareCommands_stop(4)[OF h(3,4)]
  have "prepareCommands lib e (u # restR) wR
          = (Err (ExecutableError name mR), wR @ [LookPath name])" .
  from prepareCommands_append[OF h(2) this]
  have "prepareCommands lib e (cmdTemplate hook) (w @ [EnterUnit (e ''commit'')])
          = (Err (ExecutableError name mR), wR @ [LookPath name])" by (simp add: h(1))
  from processEvent_prepared[OF assms this]
  show "processEvent lib hook e w = (Err (ExecutableError name mR), wR @ [LookPath name])"
    by simp
  from prepareCommands_starts[OF h(2)] show "starts (wR @ [LookPath name]) = starts w"
    by (simp add: starts_append)
next
  assume h: "prepareCommands lib e (cmdTemplate hook) (w @ [EnterUnit (e ''commit'')]) = (Ok cmdsT, wT)"
    "k < length cmdsT"
    "\<forall>j<k. \<exists>c. osRace lib (wT @ runLog (take (Suc j) cmdsT) env d) (timerDuration hook) = Done c"
    "osRace lib (wT @ runLog (take (Suc k) cmdsT) env d) (timerDuration hook) = TimerFired True"
  from prepareCommands_result[OF h(1)] have ne: "[] \<notin> set cmdsT" by auto
  from processEvent_prepared[OF assms h(1)] runCommands_timeout_at[OF ne h(2,3,4)]
  show "processEvent lib hook e w
            = (Err (CommandTimedOut (cmdsT ! k)),
               wT @ runLog (take (Suc k) cmdsT) env d @ [Kill (cmdsT ! k)])" by simp
  from prepareCommands_starts[OF h(1)]
  show "starts (wT @ runLog (take (Suc k) cmdsT) env d @ [Kill (cmdsT ! k)])
          = starts w @ take (Suc k) cmdsT"
    by (simp add: starts_append starts_runLog)
next
  assume h: "prepareCommands lib e (cmdTemplate hook) (w @ [EnterUnit (e ''commit'')]) = (Ok cmdsD, wD)"
    "\<forall>j<length cmdsD.
        \<exists>c. osRace lib (wD @ runLog (take (Suc j) cmdsD) env d) (timerDuration hook) = Done c"
  from prepareCommands_result[OF h(1)] obtain ns where
    ns: "wD = (w @ [EnterUnit (e ''commit'')]) @ map LookPath ns" and ne: "[] \<notin> set cmdsD"
    by auto
  from processEvent_prepared[OF assms h(1)] runCommands_all_done_at[OF ne h(2)]
  show "processEvent lib hook e w = (Ok (), wD @ runLog cmdsD env d)" by simp
  show "starts (wD @ runLog cmdsD env d) = starts w @ cmdsD"
    by (simp add: ns starts_append starts_runLog starts_lookPaths)
  show "kills (wD @ runLog cmdsD env d) = kills w"
    by (simp add: ns kills_append kills_runLog kills_lookPaths)
next
  assume h: "\<not> PerCommit hook" "checkEventType hook e = None" "checkPipelineStatus hook e = None"
    "checkBranch hook e = None" "processEvent lib hook e w = (Err x, wE)"
  show "Execute lib hook e w
            = (None, e, wE @ Log Error ''Error processing %s: %s\<newline>''
                             # (if verbose lib then [Log Info ''%v''] else []))"
    unfolding Execute_accepted[OF h(2,3,4)] by (rule dispatch_logs_error[OF h(1,5)])
qed

theorem unit_stops_at_first_error_witness:
  "(cmdTemplate badFieldHook
      = [[Some (templateFuncs exampleMarshal, [TText ''echo'']),
          Some (templateFuncs exampleMarshal, [TText ''hi''])]]
        @ ([Some (templateFuncs exampleMarshal, [TText ''echo''])]
           @ Some (templateFuncs exampleMarshal, [TText '''', TField [''ref'', ''x''], TText ''''])
           # [])
        # [[Some (templateFuncs exampleMarshal, [TText ''echo'']),
            Some (templateFuncs exampleMarshal, [TText ''late''])]]
    \<and> texecute exampleLib
          (templateFuncs exampleMarshal, [TText '''', TField [''ref'', ''x''], TText ''''])
          [''ref'' \<mapsto> GStr ''main'']
        = ('''', Some ''can't evaluate field x in type interface {}'')
    \<and> processEvent exampleLib badFieldHook [''ref'' \<mapsto> GStr ''main''] []
        = (Err (RenderError ''can't evaluate field x in type interface {}''),
           [EnterUnit None, LookPath ''echo''])
    \<and> starts [EnterUnit None, LookPath ''echo''] = starts [])
   \<and> (lookPath exampleLib ''nosuch'' = Inl ''executable file not found in $PATH''
    \<and> processEvent exampleLib lateUnresolvableHook Map.empty []
        = (Err (ExecutableError ''nosuch'' ''executable file not found in $PATH''),
           [EnterUnit None, LookPath ''echo''] @ [LookPath ''nosuch''])
    \<and> starts ([EnterUnit None, LookPath ''echo''] @ [LookPath ''nosuch'']) = starts [])
   \<and> (prepareCommands exampleLib Map.empty (cmdTemplate echoSleepEchoHook)
          ([] @ [EnterUnit (Map.empty ''commit'')])
        = (Ok [[''/bin/echo'', ''first''], [''/bin/sleep'', ''5''], [''/bin/echo'', ''late'']],
           [EnterUnit None, LookPath ''echo'', LookPath ''sleep'', LookPath ''echo''])
    \<and> osRace exampleLib
          ([EnterUnit None, LookPath ''echo'', LookPath ''sleep'', LookPath ''echo'']
           @ runLog (take (Suc 0)
                [[''/bin/echo'', ''first''], [''/bin/sleep'', ''5''], [''/bin/echo'', ''late'']])
               [] '''')
          (timerDuration echoSleepEchoHook) = Done (Exited 0)
    \<and> osRace exampleLib
          ([EnterUnit None, LookPath ''echo'', LookPath ''sleep'', LookPath ''echo'']
           @ runLog (take (Suc 1)
                [[''/bin/echo'', ''first''], [''/bin/sleep'', ''5''], [''/bin/echo'', ''late'']])
               [] '''')
          (timerDuration echoSleepEchoHook) = TimerFired True
    \<and> processEvent exampleLib echoSleepEchoHook Map.empty []
        = (Err (CommandTimedOut [''/bin/sleep'', ''5'']),
           [EnterUnit None, LookPath ''echo'', LookPath ''sleep'', LookPath ''echo'',
            Log Info ''Running'', Start [''/bin/echo'', ''first''] None '''',
            Log Info ''Running'', Start [''/bin/sleep'', ''5''] None '''',
            Kill [''/bin/sleep'', ''5'']])
    \<and> starts [EnterUnit None, LookPath ''echo'', LookPath ''sleep'', LookPath ''echo'',
            Log Info ''Running'', Start [''/bin/echo'', ''first''] None '''',
            Log Info ''Running'', Start [''/bin/sleep'', ''5''] None '''',
            Kill [''/bin/sleep'', ''5'']]
        = [[''/bin/echo'', ''first''], [''/bin/sleep'', ''5'']])
   \<and> (osRace exampleLib
          ([EnterUnit None, LookPath ''false'', LookPath ''echo'']
           @ runLog (take (Suc 0) [[''/bin/false''], [''/bin/echo'', ''done'']]) [] '''')
          (timerDuration falseEchoHook) = Done (Exited 1)
    \<and> processEvent exampleLib falseEchoHook Map.empty []
        = (Ok (), [EnterUnit None, LookPath ''false'', LookPath ''echo'']
                  @ runLog [[''/bin/false''], [''/bin/echo'', ''done'']] [] '''')
    \<and> starts ([EnterUnit None, LookPath ''false'', LookPath ''echo'']
               @ runLog [[''/bin/false''], [''/bin/echo'', ''done'']] [] '''')
        = starts [] @ [[''/bin/false''], [''/bin/echo'', ''done'']]
    \<and> kills ([EnterUnit None, LookPath ''false'', LookPath ''echo'']
              @ runLog [[''/bin/false''], [''/bin/echo'', ''done'']] [] '''') = kills [])
   \<and> Execute exampleLib echoSleepEchoHook Map.empty []
        = (None, Map.empty,
           [EnterUnit None, LookPath ''echo'', LookPath ''sleep'', LookPath ''echo'',
            Log Info ''Running'', Start [''/bin/echo'', ''first''] None '''',
            Log Info ''Running'', Start [''/bin/sleep'', ''5''] None '''',
            Kill [''/bin/sleep'', ''5''],
            Log Error ''Error processing %s: %s\<newline>''])"
proof -
  let ?fm = "templateFuncs exampleMarshal"
  let ?bad = "(?fm, [TText '''', TField [''ref'', ''x''], TText ''''])"
  let ?ev = "[''ref'' \<mapsto> GStr ''main'']"
  let ?m = "''can't evaluate field x in type interface {}''"
  let ?nf = "''executable file not found in $PATH''"
  let ?cT = "[[''/bin/echo'', ''first''], [''/bin/sleep'', ''5''], [''/bin/echo'', ''late'']]"
  let ?wT = "[EnterUnit None, LookPath ''echo'', LookPath ''sleep'', LookPath ''echo'']"
  let ?cD = "[[''/bin/false''], [''/bin/echo'', ''done'']]"
  let ?wD = "[EnterUnit None, LookPath ''false'', LookPath ''echo'']"
  \<comment> \<open>a render failure in the second command\<close>
  have r1: "cmdTemplate badFieldHook
      = [[Some (?fm, [TText ''echo'']), Some (?fm, [TText ''hi''])]]
        @ ([Some (?fm, [TText ''echo''])] @ Some ?bad # [])
        # [[Some (?fm, [TText ''echo'']), Some (?fm, [TText ''late''])]]"
    by (simp add: badFieldHook_compiled)
  have r2: "prepareCommands exampleLib ?ev
              [[Some (?fm, [TText ''echo'']), Some (?fm, [TText ''hi''])]]
              ([] @ [EnterUnit (?ev ''commit'')])
            = (Ok [[''/bin/echo'', ''hi'']], [EnterUnit None, LookPath ''echo''])"
    by (simp add: run_defs exampleLib_def)
  have r3: "processCommand exampleLib ?ev [Some (?fm, [TText ''echo''])] = Ok [''echo'']"
    by (simp add: run_defs exampleLib_def)
  have r4: "texecute exampleLib ?bad ?ev = ('''', Some ?m)"
    by (simp add: run_defs exampleLib_def)
  have rd: "renderDir exampleLib ?ev (dirTemplate badFieldHook) = Ok ''''"
    "renderEnv exampleLib ?ev (envTemplate badFieldHook) = Ok []"
    by (simp_all add: run_defs badFieldHook_compiled)
  note t1 = unit_stops_at_first_error
    [where lib = exampleLib and hook = badFieldHook and e = ?ev and w = "[]" and d = "''''"
       and env = "[]" and pre = "[[Some (?fm, [TText ''echo'']), Some (?fm, [TText ''hi''])]]"
       and ?a1.0 = "[Some (?fm, [TText ''echo''])]" and t = ?bad and ?a2.0 = "[]"
       and rest = "[[Some (?fm, [TText ''echo'']), Some (?fm, [TText ''late''])]]"
       and cmds = "[[''/bin/echo'', ''hi'']]" and ?w1.0 = "[EnterUnit None, LookPath ''echo'']"
       and outs = "[''echo'']" and out = "''''" and m = ?m,
     OF rd, THEN conjunct1, THEN mp, OF conjI[OF r1 conjI[OF r2 conjI[OF r3 r4]]]]
  \<comment> \<open>an executable that does not resolve, in the second command\<close>
  have x1: "cmdTemplate lateUnresolvableHook
      = [[Some (?fm, [TText ''echo'']), Some (?fm, [TText ''hi''])]]
        @ [Some (?fm, [TText ''nosuch''])]
        # [[Some (?fm, [TText ''echo'']), Some (?fm, [TText ''late''])]]"
    by (simp add: lateUnresolvableHook_compiled)
  have x2: "prepareCommands exampleLib Map.empty
              [[Some (?fm, [TText ''echo'']), Some (?fm, [TText ''hi''])]]
              ([] @ [EnterUnit (Map.empty ''commit'')])
            = (Ok [[''/bin/echo'', ''hi'']], [EnterUnit None, LookPath ''echo''])"
    by (simp add: run_defs exampleLib_def)
  have x3: "processCommand exampleLib Map.empty [Some (?fm, [TText ''nosuch''])]
              = Ok (''nosuch'' # [])"
    by (simp add: run_defs exampleLib_def)
  have x4: "lookPath exampleLib ''nosuch'' = Inl ?nf"
    by (simp add: exampleLib_def exampleLookPath_def)
  have xd: "renderDir exampleLib Map.empty (dirTemplate lateUnresolvableHook) = Ok ''''"
    "renderEnv exampleLib Map.empty (envTemplate lateUnresolvableHook) = Ok []"
    by (simp_all add: run_defs lateUnresolvableHook_compiled)
  note t2 = unit_stops_at_first_error
    [where lib = exampleLib and hook = lateUnresolvableHook and e = Map.empty and w = "[]"
       and d = "''''" and env = "[]"
       and preR = "[[Some (?fm, [TText ''echo'']), Some (?fm, [TText ''hi''])]]"
       and u = "[Some (?fm, [TText ''nosuch''])]"
       and restR = "[[Some (?fm, [TText ''echo'']), Some (?fm, [TText ''late''])]]"
       and cmdsR = "[[''/bin/echo'', ''hi'']]" and wR = "[EnterUnit None, LookPath ''echo'']"
       and name = "''nosuch''" and args = "[]" and mR = ?nf,
     OF xd, THEN conjunct2, THEN conjunct1, THEN mp, OF conjI[OF x1 conjI[OF x2 conjI[OF x3 x4]]]]
  \<comment> \<open>a timeout in the second command\<close>
  have o1: "prepareCommands exampleLib Map.empty (cmdTemplate echoSleepEchoHook)
              ([] @ [EnterUnit (Map.empty ''commit'')]) = (Ok ?cT, ?wT)"
    by (simp add: run_defs exampleLib_def echoSleepEchoHook_compiled)
  have o2: "(1::nat) < length ?cT" by simp
  have o3a: "osRace exampleLib (?wT @ runLog (take (Suc 0) ?cT) [] '''')
               (timerDuration echoSleepEchoHook) = Done (Exited 0)"
    by (simp add: run_defs exampleLib_def echoSleepEchoHook_compiled)
  have o3: "\<forall>j<1. \<exists>c. osRace exampleLib (?wT @ runLog (take (Suc j) ?cT) [] '''')
                           (timerDuration echoSleepEchoHook) = Done c"
    using o3a by simp
  have o4: "osRace exampleLib (?wT @ runLog (take (Suc 1) ?cT) [] '''')
              (timerDuration echoSleepEchoHook) = TimerFired True"
    by (simp add: run_defs exampleLib_def echoSleepEchoHook_compiled)
  have od: "renderDir exampleLib Map.empty (dirTemplate echoSleepEchoHook) = Ok ''''"
    "renderEnv exampleLib Map.empty (envTemplate echoSleepEchoHook) = Ok []"
    by (simp_all add: run_defs echoSleepEchoHook_compiled)
  note t3 = unit_stops_at_first_error
    [where lib = exampleLib and hook = echoSleepEchoHook and e = Map.empty and w = "[]"
       and d = "''''" and env = "[]" and cmdsT = ?cT and wT = ?wT and k = 1,
     OF od, THEN conjunct2, THEN conjunct2, THEN conjunct1, THEN mp,
     OF conjI[OF o1 conjI[OF o2 conjI[OF o3 o4]]]]
  have timeout: "processEvent exampleLib echoSleepEchoHook Map.empty []
        = (Err (CommandTimedOut [''/bin/sleep'', ''5'']),
           [EnterUnit None, LookPath ''echo'', LookPath ''sleep'', LookPath ''echo'',
            Log Info ''Running'', Start [''/bin/echo'', ''first''] None '''',
            Log Info ''Running'', Start [''/bin/sleep'', ''5''] None '''',
            Kill [''/bin/sleep'', ''5'']])"
    using t3[THEN conjunct1] by simp
  \<comment> \<open>an unsuccessful exit\<close>
  have d1: "prepareCommands exampleLib Map.empty (cmdTemplate falseEchoHook)
              ([] @ [EnterUnit (Map.empty ''commit'')]) = (Ok ?cD, ?wD)"
    by (simp add: run_defs exampleLib_def falseEchoHook_compiled)
  have d2a: "osRace exampleLib (?wD @ runLog (take (Suc 0) ?cD) [] '''')
               (timerDuration falseEchoHook) = Done (Exited 1)"
    by (simp add: run_defs exampleLib_def falseEchoHook_compiled)
  have d2b: "osRace exampleLib (?wD @ runLog (take (Suc 1) ?cD) [] '''')
               (timerDuration falseEchoHook) = Done (Exited 0)"
    by (simp add: run_defs exampleLib_def falseEchoHook_compiled)
  have d2: "\<forall>j<length ?cD. \<exists>c. osRace exampleLib (?wD @ runLog (take (Suc j) ?cD) [] '''')
                                   (timerDuration falseEchoHook) = Done c"
  proof (intro allI impI)
    fix j assume "j < length ?cD"
    then have "j = 0 \<or> j = 1" by auto
    with d2a d2b
    show "\<exists>c. osRace exampleLib (?wD @ runLog (take (Suc j) ?cD) [] '''')
                 (timerDuration falseEchoHook) = Done c" by auto
  qed
  have dd: "renderDir exampleLib Map.empty (dirTemplate falseEchoHook) = Ok ''''"
    "renderEnv exampleLib Map.empty (envTemplate falseEchoHook) = Ok []"
    by (simp_all add: run_defs falseEchoHook_compiled)
  note t4 = unit_stops_at_first_error
    [where lib = exampleLib and hook = falseEchoHook and e = Map.empty and w = "[]"
       and d = "''''" and env = "[]" and cmdsD = ?cD and wD = ?wD,
     OF dd, THEN conjunct2, THEN conjunct2, THEN conjunct2, THEN conjunct1, THEN mp,
     OF conjI[OF d1 d2]]
  \<comment> \<open>the error of a whole-event Hook is logged\<close>
  have l1: "\<not> PerCommit echoSleepEchoHook" "checkEventType echoSleepEchoHook Map.empty = None"
    "checkPipelineStatus echoSleepEchoHook Map.empty = None"
    "checkBranch echoSleepEchoHook Map.empty = None"
    by (simp_all add: echoSleepEchoHook_compiled checkEventType_def checkPipelineStatus_def
          checkBranch_def)
  note t5 = unit_stops_at_first_error
    [where lib = exampleLib and hook = echoSleepEchoHook and e = Map.empty and w = "[]"
       and d = "''''" and env = "[]" and x = "CommandTimedOut [''/bin/sleep'', ''5'']"
       and wE = "[EnterUnit None, LookPath ''echo'', LookPath ''sleep'', LookPath ''echo'',
            Log Info ''Running'', Start [''/bin/echo'', ''first''] None '''',
            Log Info ''Running'', Start [''/bin/sleep'', ''5''] None '''',
            Kill [''/bin/sleep'', ''5'']]",
     OF od, THEN conjunct2, THEN conjunct2, THEN conjunct2, THEN conjunct2, THEN mp,
     OF conjI[OF l1(1) conjI[OF l1(2) conjI[OF l1(3) conjI[OF l1(4) timeout]]]]]
  have logged: "Execute exampleLib echoSleepEchoHook Map.empty []
        = (None, Map.empty,
           [EnterUnit None, LookPath ''echo'', LookPath ''sleep'', LookPath ''echo'',
            Log Info ''Running'', Start [''/bin/echo'', ''first''] None '''',
            Log Info ''Running'', Start [''/bin/sleep'', ''5''] None '''',
            Kill [''/bin/sleep'', ''5''],
            Log Error ''Error processing %s: %s\<newline>''])"
    using t5 by (simp add: exampleLib_def)
  have s3: "starts [EnterUnit None, LookPath ''echo'', LookPath ''sleep'', LookPath ''echo'',
            Log Info ''Running'', Start [''/bin/echo'', ''first''] None '''',
            Log Info ''Running'', Start [''/bin/sleep'', ''5''] None '''',
            Kill [''/bin/sleep'', ''5'']]
        = [[''/bin/echo'', ''first''], [''/bin/sleep'', ''5'']]"
    using t3[THEN conjunct2] by simp
  show ?thesis
    by (intro conjI r1 r4 t1[THEN conjunct1] t1[THEN conjunct2] x4 t2[THEN conjunct1]
          t2[THEN conjunct2] o1 o3a o4 timeout s3 d2a t4[THEN conjunct1]
          t4[THEN conjunct2, THEN conjunct1] t4[THEN conjunct2, THEN conjunct2] logged)
qed

text \<open>
  C1 as stated fails for the child that terminates unsuccessfully: \<^verbatim>\<open>false\<close> exits with status 1
  before the timer, the unit goes on to start \<^verbatim>\<open>echo\<close> and returns nil.
\<close>

theorem unsuccessful_exit_does_not_abort_unit:
  "exampleRace [EnterUnit None, LookPath ''false'', LookPath ''echo'',
                Log Info ''Running'', Start [''/bin/false''] None '''']
       (timerDuration falseEchoHook) = Done (Exited 1)
   \<and> processEvent exampleLib falseEchoHook Map.empty []
       = (Ok (),
          [EnterUnit None, LookPath ''false'', LookPath ''echo'',
           Log Info ''Running'', Start [''/bin/false''] None '''',
           Log Info ''Running'', Start [''/bin/echo'', ''done''] None ''''])"
  by (rule conjI[OF _ falseEchoHook_run])
     (simp add: exampleRace_def timerDuration_def falseEchoHook_compiled)

section \<open>The serialize function of the templates\<close>

lemma execNodes_append:
  "execNodes fm e pre = (p, None) \<Longrightarrow>
     execNodes fm e (pre @ ns) = (p @ fst (execNodes fm e ns), snd (execNodes fm e ns))"
proof (induction pre arbitrary: p)
  case Nil
  then show ?case by simp
next
  case (Cons n pre)
  from Cons.prems obtain s where s: "execNode fm e n = Inr s"
    by (cases "execNode fm e n") auto
  obtain o' r' where x: "execNodes fm e pre = (o', r')" by (cases "execNodes fm e pre") auto
  from Cons.prems s x have r: "r' = None" "p = s @ o'" by auto
  from Cons.IH[OF x[unfolded r(1)]] s r(2) show ?case
    by (simp add: case_prod_beta)
qed

lemma processCommand_append:
  "processCommand lib e a1 = Ok outs \<Longrightarrow> processCommand lib e a2 = Ok outs' \<Longrightarrow>
     processCommand lib e (a1 @ a2) = Ok (outs @ outs')"
proof (induction a1 arbitrary: outs)
  case Nil
  then show ?case by simp
next
  case (Cons a a1)
  from Cons.prems(1) obtain t' where a: "a = Some t'" by (cases a) auto
  obtain o' r' where x: "texecute lib t' e = (o', r')" by (cases "texecute lib t' e") auto
  from Cons.prems(1) a x have r': "r' = None" by (cases r') auto
  from Cons.prems(1) a x r' obtain rest where rest: "processCommand lib e a1 = Ok rest"
    "outs = o' # rest"
    by (cases "processCommand lib e a1") auto
  from Cons.IH[OF rest(1) Cons.prems(2)] a x r' rest(2) show ?case by simp
qed

lemma execNode_error_marshal:
  "(execNode (templateFuncs m1) e n = Inl err) = (execNode (templateFuncs m2) e n = Inl err)"
  by (cases n) (auto simp: execNode_def templateFuncs_def split: sum.splits option.splits)

lemma execNodes_error_marshal:
  "snd (execNodes (templateFuncs m1) e ns) = snd (execNodes (templateFuncs m2) e ns)"
proof (induction ns)
  case Nil
  show ?case by simp
next
  case (Cons n ns)
  show ?case
  proof (cases "execNode (templateFuncs m1) e n")
    case (Inl err)
    with execNode_error_marshal[of m1 e n err m2] show ?thesis by simp
  next
    case (Inr s)
    have "\<exists>s'. execNode (templateFuncs m2) e n = Inr s'"
    proof (cases "execNode (templateFuncs m2) e n")
      case (Inl err)
      with execNode_error_marshal[of m1 e n err m2] Inr show ?thesis by simp
    next
      case (Inr s')
      then show ?thesis by simp
    qed
    then obtain s' where "execNode (templateFuncs m2) e n = Inr s'" by blast
    with Inr Cons.IH show ?thesis by (simp add: case_prod_beta)
  qed
qed

lemma jsonHook_compiled:
  "cmdTemplate jsonHook =
     [[Some (templateFuncs exampleMarshal, [TText ''echo'']),
       Some (templateFuncs exampleMarshal, [TText ''a='', TCall ''json'' [''x''], TText ''.'']),
       Some (templateFuncs exampleMarshal, [TText ''end''])]]"
  "envTemplate jsonHook = []" "dirTemplate jsonHook = None"
  "Timeout jsonHook = 5" "PerCommit jsonHook = False"
  by (simp_all add: jsonHook_def example_defs templateFuncs_def)

text \<open>
  C8 (as amended). The function \<^verbatim>\<open>json\<close> of \<open>templateFuncs\<close> has a single result, a string: when
  \<^verbatim>\<open>json.Marshal\<close> refuses the value with the error \<open>err\<close>, the function returns the text
  \<^verbatim>\<open><< err >>\<close>. For the templates that the interpreter of the concrete environment covers
  (literal text, field chains and calls of a function on a field chain, in any number and
  order) and every Event: a call of \<^verbatim>\<open>json\<close> on a refused value, at any place of a template
  whose part before the call has rendered, writes that text at the place of the call, and the
  rendering goes on with the rest of the template, whose outcome is the outcome of the
  rendering; when the rest of the template and the other arguments of the command render too,
  \<open>processCommand\<close> returns the arguments with the text in the rendered argument, at any place
  among the arguments of the command; whether a rendering fails, and with which error, does not
  depend on what \<^verbatim>\<open>json.Marshal\<close> does; and every template that \<open>createTemplate\<close> compiles
  carries \<open>templateFuncs\<close>.
\<close>

theorem json_refusal_renders_placeholder:
  assumes "texecute lib = exampleExecute" and "marshal lib v = Inl err"
    and "evalChain e ks = Inr (Some v)"
  shows "templateFuncs (marshal lib) ''json'' = Some (json_func (marshal lib))
     \<and> json_func (marshal lib) v = ''<< '' @ err @ '' >>''
     \<and> (execNodes (templateFuncs (marshal lib)) e pre = (p, None) \<longrightarrow>
          texecute lib (templateFuncs (marshal lib), pre @ TCall ''json'' ks # post) e
            = (p @ ''<< '' @ err @ '' >>'' @ fst (execNodes (templateFuncs (marshal lib)) e post),
               snd (execNodes (templateFuncs (marshal lib)) e post)))
     \<and> (execNodes (templateFuncs (marshal lib)) e pre = (p, None)
          \<and> execNodes (templateFuncs (marshal lib)) e post = (q, None)
          \<and> processCommand lib e a1 = Ok outs \<and> processCommand lib e a2 = Ok outs' \<longrightarrow>
          processCommand lib e
              (a1 @ Some (templateFuncs (marshal lib), pre @ TCall ''json'' ks # post) # a2)
            = Ok (outs @ (p @ ''<< '' @ err @ '' >>'' @ q) # outs'))
     \<and> snd (execNodes (templateFuncs (marshal lib)) e ns)
          = snd (execNodes (templateFuncs other) e ns)
     \<and> (tparse lib = exampleParse \<and> createTemplate lib src = Inr t \<longrightarrow>
          fst t = templateFuncs (marshal lib))"
proof -
  let ?fm = "templateFuncs (marshal lib)"
  have f: "?fm ''json'' = Some (json_func (marshal lib))" by (simp add: templateFuncs_def)
  have j: "json_func (marshal lib) v = ''<< '' @ err @ '' >>''"
    using assms(2) by (simp add: json_func_def)
  have call: "execNode ?fm e (TCall ''json'' ks) = Inr (''<< '' @ err @ '' >>'')"
    using assms(3) f j by (simp add: execNode_def)
  have at: "texecute lib (?fm, pre' @ TCall ''json'' ks # post') e
            = (p' @ ''<< '' @ err @ '' >>'' @ fst (execNodes ?fm e post'),
               snd (execNodes ?fm e post'))"
    if "execNodes ?fm e pre' = (p', None)" for pre' p' post'
    using execNodes_append[OF that, of "TCall ''json'' ks # post'"] call
    by (simp add: assms(1) exampleExecute_def case_prod_beta)
  have cmd: "processCommand lib e (a1 @ Some (?fm, pre @ TCall ''json'' ks # post) # a2)
            = Ok (outs @ (p @ ''<< '' @ err @ '' >>'' @ q) # outs')"
    if h: "execNodes ?fm e pre = (p, None)" "execNodes ?fm e post = (q, None)"
      "processCommand lib e a1 = Ok outs" "processCommand lib e a2 = Ok outs'"
  proof -
    from at[OF h(1), of post] h(2)
    have "texecute lib (?fm, pre @ TCall ''json'' ks # post) e
            = (p @ ''<< '' @ err @ '' >>'' @ q, None)" by simp
    with h(4) have "processCommand lib e (Some (?fm, pre @ TCall ''json'' ks # post) # a2)
            = Ok ((p @ ''<< '' @ err @ '' >>'' @ q) # outs')" by simp
    from processCommand_append[OF h(3) this] show ?thesis .
  qed
  have cr: "fst t = ?fm" if "tparse lib = exampleParse" "createTemplate lib src = Inr t"
    using that by (auto simp: createTemplate_def exampleParse_def split: option.splits sum.splits)
  from f j at cmd cr execNodes_error_marshal[of "marshal lib" e ns other] show ?thesis by blast
qed

theorem json_refusal_renders_placeholder_witness:
  "texecute exampleLib = exampleExecute
   \<and> marshal exampleLib GChan = Inl ''json: unsupported type: chan int''
   \<and> evalChain [''x'' \<mapsto> GChan, ''ref'' \<mapsto> GStr ''main''] [''x''] = Inr (Some GChan)
   \<and> templateFuncs (marshal exampleLib) ''json'' = Some (json_func (marshal exampleLib))
   \<and> json_func (marshal exampleLib) GChan = ''<< json: unsupported type: chan int >>''
   \<and> execNodes (templateFuncs (marshal exampleLib))
        [''x'' \<mapsto> GChan, ''ref'' \<mapsto> GStr ''main''] [TText ''a='', TField [''ref''], TText '':'']
        = (''a=main:'', None)
   \<and> texecute exampleLib
        (templateFuncs (marshal exampleLib),
         [TText ''a='', TField [''ref''], TText '':''] @ TCall ''json'' [''x''] # [TText ''.''])
        [''x'' \<mapsto> GChan, ''ref'' \<mapsto> GStr ''main'']
        = (''a=main:<< json: unsupported type: chan int >>.'', None)
   \<and> processCommand exampleLib [''x'' \<mapsto> GChan, ''ref'' \<mapsto> GStr ''main'']
        ([Some (templateFuncs (marshal exampleLib), [TText ''echo''])]
         @ Some (templateFuncs (marshal exampleLib),
                 [TText ''a='', TField [''ref''], TText '':''] @ TCall ''json'' [''x'']
                 # [TText ''.''])
         # [Some (templateFuncs (marshal exampleLib), [TText ''end''])])
        = Ok [''echo'', ''a=main:<< json: unsupported type: chan int >>.'', ''end'']
   \<and> snd (execNodes (templateFuncs (marshal exampleLib))
             [''x'' \<mapsto> GChan, ''ref'' \<mapsto> GStr ''main'']
             [TText ''a='', TCall ''json'' [''x''], TField [''ref'', ''y'']])
        = snd (execNodes (templateFuncs (\<lambda>v. Inr ''null''))
             [''x'' \<mapsto> GChan, ''ref'' \<mapsto> GStr ''main'']
             [TText ''a='', TCall ''json'' [''x''], TField [''ref'', ''y'']])
   \<and> createTemplate exampleLib ''a={{json .x}}.''
        = Inr (templateFuncs exampleMarshal, [TText ''a='', TCall ''json'' [''x''], TText ''.''])
   \<and> fst (templateFuncs exampleMarshal, [TText ''a='', TCall ''json'' [''x''], TText ''.''])
        = templateFuncs (marshal exampleLib)"
proof -
  let ?e = "[''x'' \<mapsto> GChan, ''ref'' \<mapsto> GStr ''main'']"
  let ?err = "''json: unsupported type: chan int''"
  let ?fm = "templateFuncs (marshal exampleLib)"
  have a: "texecute exampleLib = exampleExecute" "marshal exampleLib GChan = Inl ?err"
    "evalChain ?e [''x''] = Inr (Some GChan)"
    by (simp_all add: exampleLib_def exampleMarshal_def evalChain_def)
  have pre: "execNodes ?fm ?e [TText ''a='', TField [''ref''], TText '':''] = (''a=main:'', None)"
    by (simp add: execNode_def evalChain_def printValue_def)
  have post: "execNodes ?fm ?e [TText ''.''] = (''.'', None)"
    by (simp add: execNode_def)
  have c1: "processCommand exampleLib ?e [Some (?fm, [TText ''echo''])] = Ok [''echo'']"
    by (simp add: exampleLib_def exampleExecute_def execNode_def)
  have c2: "processCommand exampleLib ?e [Some (?fm, [TText ''end''])] = Ok [''end'']"
    by (simp add: exampleLib_def exampleExecute_def execNode_def)
  have cr: "tparse exampleLib = exampleParse"
    "createTemplate exampleLib ''a={{json .x}}.''
       = Inr (templateFuncs exampleMarshal, [TText ''a='', TCall ''json'' [''x''], TText ''.''])"
    by (simp_all add: example_defs templateFuncs_def)
  note t = json_refusal_renders_placeholder
    [where lib = exampleLib and v = GChan and err = ?err and e = ?e and ks = "[''x'']"
       and pre = "[TText ''a='', TField [''ref''], TText '':'']" and p = "''a=main:''"
       and post = "[TText ''.'']" and q = "''.''"
       and ?a1.0 = "[Some (?fm, [TText ''echo''])]" and outs = "[''echo'']"
       and ?a2.0 = "[Some (?fm, [TText ''end''])]" and outs' = "[''end'']"
       and ns = "[TText ''a='', TCall ''json'' [''x''], TField [''ref'', ''y'']]"
       and other = "\<lambda>v. Inr ''null''" and src = "''a={{json .x}}.''"
       and t = "(templateFuncs exampleMarshal, [TText ''a='', TCall ''json'' [''x''], TText ''.''])",
     OF a]
  note t1 = t[THEN conjunct1]
  have t2: "json_func (marshal exampleLib) GChan = ''<< json: unsupported type: chan int >>''"
    using t[THEN conjunct2, THEN conjunct1] by simp
  have t3: "texecute exampleLib
        (?fm, [TText ''a='', TField [''ref''], TText '':''] @ TCall ''json'' [''x''] # [TText ''.''])
        ?e = (''a=main:<< json: unsupported type: chan int >>.'', None)"
    using t[THEN conjunct2, THEN conjunct2, THEN conjunct1, THEN mp, OF pre] post by simp
  have t4: "processCommand exampleLib ?e
        ([Some (?fm, [TText ''echo''])]
         @ Some (?fm, [TText ''a='', TField [''ref''], TText '':''] @ TCall ''json'' [''x'']
                      # [TText ''.''])
         # [Some (?fm, [TText ''end''])])
        = Ok [''echo'', ''a=main:<< json: unsupported type: chan int >>.'', ''end'']"
    using t[THEN conjunct2, THEN conjunct2, THEN conjunct2, THEN conjunct1, THEN mp,
            OF conjI[OF pre conjI[OF post conjI[OF c1 c2]]]] by simp
  note t5 = t[THEN conjunct2, THEN conjunct2, THEN conjunct2, THEN conjunct2, THEN conjunct1]
  note t6 = t[THEN conjunct2, THEN conjunct2, THEN conjunct2, THEN conjunct2, THEN conjunct2,
              THEN mp, OF conjI[OF cr]]
  show ?thesis by (intro conjI a t1 t2 pre t3 t4 t5 cr(2) t6)
qed

text \<open>
  C8 as stated fails: the Hook with the command \<^verbatim>\<open>["echo", "a={{json .x}}.", "end"]\<close>, on an
  Event that holds a channel under \<^verbatim>\<open>x\<close>, renders the second argument with the placeholder
  text in it; no render error is returned, and the command is started with that argument.
\<close>

theorem json_refusal_is_no_render_error:
  "exampleMarshal GChan = Inl ''json: unsupported type: chan int''
   \<and> processCommand exampleLib [''x'' \<mapsto> GChan] (hd (cmdTemplate jsonHook))
       = Ok [''echo'', ''a=<< json: unsupported type: chan int >>.'', ''end'']
   \<and> processEvent exampleLib jsonHook [''x'' \<mapsto> GChan] []
       = (Ok (),
          [EnterUnit None, LookPath ''echo'', Log Info ''Running'',
           Start [''/bin/echo'', ''a=<< json: unsupported type: chan int >>.'', ''end''] None ''''])"
  by (simp add: run_defs exampleLib_def jsonHook_compiled templateFuncs_def json_func_def
        exampleMarshal_def)

end
